(* ===== verification/Prelude.thy ===== *)
theory Prelude
  imports Complex_Main "HOL-Library.Word"
begin

text \<open>
  Shared vocabulary of the development: machine-width types, the \<open>?\<close> operator of Rust on
  results, loops that may fail, fixed-width little- and big-endian byte encodings, UTF-8
  strings as bytes, and the byte tape that stands for the output of the operating system's
  random generator.  The collections \<open>result_simps\<close> and \<open>codec_simps\<close> carry the component
  proofs.
\<close>

named_theorems result_simps \<open>inversion of successful and failed results\<close>
named_theorems codec_simps \<open>lengths and prefixes of byte encodings\<close>

type_synonym u8 = "8 word"
type_synonym u32 = "32 word"
type_synonym u64 = "64 word"
type_synonym u128 = "128 word"
type_synonym bytes = "u8 list"

text \<open>\<open>usize\<close> is \<open>nat\<close>; the cast \<open>n as u32\<close> keeps the low 32 bits.\<close>

definition as_u32 :: "nat \<Rightarrow> u32" where
  "as_u32 n = of_nat n"

lemma unat_as_u32: "unat (as_u32 n) = n mod 2 ^ 32"
  by (simp add: as_u32_def unat_of_nat)

lemma as_u32_small: "n < 2 ^ 32 \<Longrightarrow> unat (as_u32 n) = n"
  by (simp add: unat_as_u32)

section \<open>Results\<close>

text \<open>\<open>rbind m f\<close> is \<open>f(m?)\<close>: an error of \<open>m\<close> returns at once.\<close>

definition rbind :: "'e + 'a \<Rightarrow> ('a \<Rightarrow> 'e + 'b) \<Rightarrow> 'e + 'b" where
  "rbind m f = (case m of Inl e \<Rightarrow> Inl e | Inr x \<Rightarrow> f x)"

lemma rbind_simps [simp]:
  "rbind (Inl e) f = Inl e"
  "rbind (Inr x) f = f x"
  by (simp_all add: rbind_def)

lemma rbind_eq_Inr [result_simps]:
  "rbind m f = Inr y \<longleftrightarrow> (\<exists>x. m = Inr x \<and> f x = Inr y)"
  by (cases m) auto

lemma rbind_eq_Inl [result_simps]:
  "rbind m f = Inl e \<longleftrightarrow> m = Inl e \<or> (\<exists>x. m = Inr x \<and> f x = Inl e)"
  by (cases m) auto

lemma if_Inl_eq_Inr [result_simps]:
  "(if b then Inl e else m) = Inr y \<longleftrightarrow> \<not> b \<and> m = Inr y"
  by simp

definition ok_or :: "'e \<Rightarrow> 'a option \<Rightarrow> 'e + 'a" where
  "ok_or e m = (case m of None \<Rightarrow> Inl e | Some x \<Rightarrow> Inr x)"

lemma ok_or_simps [simp]:
  "ok_or e None = Inl e"
  "ok_or e (Some x) = Inr x"
  by (simp_all add: ok_or_def)

lemma ok_or_eq_Inr [result_simps]: "ok_or e m = Inr x \<longleftrightarrow> m = Some x"
  by (cases m) auto

text \<open>\<open>map_err\<close> with a closure that ignores the error it replaces.\<close>

definition map_err :: "'e \<Rightarrow> 'd + 'a \<Rightarrow> 'e + 'a" where
  "map_err e m = (case m of Inl _ \<Rightarrow> Inl e | Inr x \<Rightarrow> Inr x)"

lemma map_err_simps [simp]:
  "map_err e (Inl d) = Inl e"
  "map_err e (Inr x) = Inr x"
  by (simp_all add: map_err_def)

lemma map_err_eq_Inr [result_simps]: "map_err e m = Inr x \<longleftrightarrow> m = Inr x"
  by (cases m) auto

text \<open>A \<open>for\<close> loop over a vector whose body may return an error.\<close>

fun for_each :: "('a \<Rightarrow> 's \<Rightarrow> 'e + 's) \<Rightarrow> 'a list \<Rightarrow> 's \<Rightarrow> 'e + 's" where
  "for_each f [] s = Inr s"
| "for_each f (x # xs) s = rbind (f x s) (for_each f xs)"

lemma for_each_total:
  assumes "\<And>x s. x \<in> set xs \<Longrightarrow> f x s = Inr (g x s)"
  shows "for_each f xs s = Inr (fold g xs s)"
  using assms by (induction xs arbitrary: s) auto

text \<open>Collecting the values of a fallible function over a vector, stopping at the first error.\<close>

fun traverse :: "('a \<Rightarrow> 'e + 'b) \<Rightarrow> 'a list \<Rightarrow> 'e + 'b list" where
  "traverse h [] = Inr []"
| "traverse h (x # xs) = rbind (h x) (\<lambda>v. rbind (traverse h xs) (\<lambda>vs. Inr (v # vs)))"

lemma traverse_eq_Inr [result_simps]:
  "traverse h xs = Inr vs \<longleftrightarrow> list_all2 (\<lambda>x v. h x = Inr v) xs vs"
  by (induction xs arbitrary: vs) (auto simp: result_simps list_all2_Cons1)

lemma traverse_total:
  "(\<And>x. x \<in> set xs \<Longrightarrow> h x = Inr (g x)) \<Longrightarrow> traverse h xs = Inr (map g xs)"
  by (induction xs) auto

lemma for_each_sum:
  fixes s :: "'s::comm_monoid_add"
  shows "for_each (\<lambda>x a. rbind (h x) (\<lambda>v. Inr (a + v))) xs s =
    rbind (traverse h xs) (\<lambda>vs. Inr (s + sum_list vs))"
proof (induction xs arbitrary: s)
  case Nil
  then show ?case by simp
next
  case (Cons x xs)
  show ?case
    by (cases "h x"; cases "traverse h xs") (simp_all add: Cons.IH add.assoc)
qed

text \<open>
  The accumulating loop of the weighted sums: one fallible weight and one fallible value per
  element.  When no weight fails, the loop succeeds exactly when every value does, and returns
  the weighted sum.
\<close>

lemma for_each_weighted:
  fixes a :: "'s::comm_monoid_add"
  assumes "\<And>p. p \<in> set ps \<Longrightarrow> l p = Inr (w p)"
  shows "for_each (\<lambda>p a. rbind (l p) (\<lambda>x. rbind (h p) (\<lambda>v. Inr (a + act x v)))) ps a = Inr r
    \<longleftrightarrow> (\<forall>p \<in> set ps. \<exists>v. h p = Inr v) \<and> r = a + (\<Sum>p\<leftarrow>ps. act (w p) (projr (h p)))"
  using assms
proof (induction ps arbitrary: a)
  case Nil
  then show ?case by auto
next
  case (Cons p ps)
  then show ?case
    by (cases "h p") (auto simp: add.assoc)
qed

lemma fold_sum_list:
  fixes a :: "'s::comm_monoid_add"
  shows "fold (\<lambda>x a. a + f x) xs a = a + (\<Sum>x\<leftarrow>xs. f x)"
  by (induction xs arbitrary: a) (simp_all add: add.assoc)

lemma list_all2_right: "list_all2 R xs ys \<Longrightarrow> y \<in> set ys \<Longrightarrow> \<exists>x \<in> set xs. R x y"
  by (induction rule: list_all2_induct) auto

section \<open>Sorted and deduplicated vectors\<close>

text \<open>\<open>sort_unstable\<close>, \<open>dedup\<close> and a length comparison decide whether a vector has duplicates.\<close>

lemma distinct_remdups_adj_sorted: "sorted xs \<Longrightarrow> distinct (remdups_adj xs)"
  by (induction xs rule: remdups_adj.induct) auto

lemma remdups_adj_id: "distinct xs \<Longrightarrow> remdups_adj xs = xs"
  by (induction xs rule: remdups_adj.induct) auto

lemma length_dedup_sort [simp]:
  "length (remdups_adj (sort xs)) = length xs \<longleftrightarrow> distinct xs"
proof
  assume "length (remdups_adj (sort xs)) = length xs"
  moreover have "distinct (remdups_adj (sort xs))"
    by (simp add: distinct_remdups_adj_sorted)
  ultimately have "card (set xs) = length xs"
    by (metis distinct_card remdups_adj_set set_sort)
  then show "distinct xs" by (rule card_distinct)
qed (simp add: remdups_adj_id)

lemma dedup_sort_distinct: "distinct xs \<Longrightarrow> remdups_adj (sort xs) = sort xs"
  by (simp add: remdups_adj_id)

section \<open>Reachable states and invariants\<close>

inductive reachable :: "('s \<Rightarrow> bool) \<Rightarrow> ('s \<Rightarrow> 's \<Rightarrow> bool) \<Rightarrow> 's \<Rightarrow> bool"
  for init step where
  start: "init s \<Longrightarrow> reachable init step s"
| step: "reachable init step s \<Longrightarrow> step s t \<Longrightarrow> reachable init step t"

locale inductive_invariant =
  fixes init :: "'s \<Rightarrow> bool" and step :: "'s \<Rightarrow> 's \<Rightarrow> bool" and inv :: "'s \<Rightarrow> bool"
  assumes init_inv: "init s \<Longrightarrow> inv s"
    and step_inv: "inv s \<Longrightarrow> step s t \<Longrightarrow> inv t"
begin

lemma reachable_inv: "reachable init step s \<Longrightarrow> inv s"
  by (induction rule: reachable.induct) (auto intro: init_inv step_inv)

end

section \<open>Fixed-width integers as bytes\<close>

fun le_bytes :: "nat \<Rightarrow> nat \<Rightarrow> bytes" where
  "le_bytes 0 n = []"
| "le_bytes (Suc k) n = of_nat (n mod 256) # le_bytes k (n div 256)"

fun of_le_bytes :: "bytes \<Rightarrow> nat" where
  "of_le_bytes [] = 0"
| "of_le_bytes (b # bs) = unat b + 256 * of_le_bytes bs"

definition be_bytes :: "nat \<Rightarrow> nat \<Rightarrow> bytes" where
  "be_bytes k n = rev (le_bytes k n)"

lemma length_le_bytes [simp, codec_simps]: "length (le_bytes k n) = k"
  by (induction k arbitrary: n) auto

lemma length_be_bytes [simp, codec_simps]: "length (be_bytes k n) = k"
  by (simp add: be_bytes_def)

lemma of_le_bytes_le_bytes: "of_le_bytes (le_bytes k n) = n mod 256 ^ k"
proof (induction k arbitrary: n)
  case 0
  then show ?case by simp
next
  case (Suc k)
  have "of_le_bytes (le_bytes (Suc k) n) = n mod 256 + 256 * (n div 256 mod 256 ^ k)"
    using Suc by (simp add: unat_of_nat)
  also have "\<dots> = n mod 256 ^ Suc k"
    by (simp add: mod_mult2_eq)
  finally show ?case .
qed

lemma of_le_bytes_bound: "of_le_bytes bs < 256 ^ length bs"
proof (induction bs)
  case Nil
  then show ?case by simp
next
  case (Cons b bs)
  have "unat b < 256" using unsigned_less [of b, where ?'a = nat] by simp
  moreover have "of_le_bytes bs + 1 \<le> 256 ^ length bs" using Cons by simp
  ultimately show ?case by simp
qed

lemma le_bytes_of_le_bytes: "length bs = k \<Longrightarrow> le_bytes k (of_le_bytes bs) = bs"
proof (induction bs arbitrary: k)
  case Nil
  then show ?case by simp
next
  case (Cons b bs)
  have b: "unat b < 256" using unsigned_less [of b, where ?'a = nat] by simp
  then have "(unat b + 256 * of_le_bytes bs) mod 256 = unat b"
    "(unat b + 256 * of_le_bytes bs) div 256 = of_le_bytes bs"
    by simp_all
  with Cons show ?case by auto
qed

lemma le_bytes_inj:
  assumes "le_bytes k m = le_bytes k n" "m < 256 ^ k" "n < 256 ^ k"
  shows "m = n"
  using arg_cong [OF assms(1), of of_le_bytes] assms(2,3)
  by (simp add: of_le_bytes_le_bytes)

lemma be_bytes_inj: "be_bytes k m = be_bytes k n \<Longrightarrow> m < 256 ^ k \<Longrightarrow> n < 256 ^ k \<Longrightarrow> m = n"
  unfolding be_bytes_def by (rule le_bytes_inj) simp_all

lemma unat_u32_bound: "unat (x :: u32) < 256 ^ 4"
  using unsigned_less [of x, where ?'a = nat] by simp

lemma unat_u64_bound: "unat (x :: u64) < 256 ^ 8"
  using unsigned_less [of x, where ?'a = nat] by simp

lemma unat_u128_bound: "unat (x :: u128) < 256 ^ 16"
  using unsigned_less [of x, where ?'a = nat] by simp

text \<open>The same encodings computed on integers, for evaluation.\<close>

fun le_bytes_int :: "nat \<Rightarrow> int \<Rightarrow> bytes" where
  "le_bytes_int 0 n = []"
| "le_bytes_int (Suc k) n = of_int (n mod 256) # le_bytes_int k (n div 256)"

fun of_le_bytes_int :: "bytes \<Rightarrow> int" where
  "of_le_bytes_int [] = 0"
| "of_le_bytes_int (b # bs) = uint b + 256 * of_le_bytes_int bs"

lemma le_bytes_nat: "0 \<le> n \<Longrightarrow> le_bytes k (nat n) = le_bytes_int k n"
proof (induction k arbitrary: n)
  case (Suc k)
  have "nat n mod 256 = nat (n mod 256)" "nat n div 256 = nat (n div 256)"
    using Suc.prems by (simp_all add: nat_mod_distrib nat_div_distrib)
  moreover have "of_nat (nat (n mod 256)) = (of_int (n mod 256) :: u8)"
    by (simp add: of_nat_nat)
  ultimately show ?case using Suc by simp
qed simp

lemma le_bytes_code [code]: "le_bytes k n = le_bytes_int k (int n)"
  using le_bytes_nat [of "int n" k] by simp

lemma int_of_le_bytes [code_unfold]: "int (of_le_bytes b) = of_le_bytes_int b"
  by (induction b) simp_all

section \<open>Strings\<close>

text \<open>A \<open>String\<close> is its UTF-8 bytes; a \<open>char\<close> of HOL is one byte.\<close>

definition as_bytes :: "string \<Rightarrow> bytes" where
  "as_bytes s = map (\<lambda>c. of_nat (of_char c)) s"

lemma as_bytes_code [code]: "as_bytes s = map (\<lambda>c. of_int (of_char c)) s"
proof -
  have "of_nat (of_char c) = (of_int (of_char c) :: u8)" for c
    by (metis of_int_of_nat_eq of_nat_of_char)
  then show ?thesis by (simp add: as_bytes_def)
qed

lemma length_as_bytes [simp]: "length (as_bytes s) = length s"
  by (simp add: as_bytes_def)

lemma as_bytes_inject [simp]: "as_bytes s = as_bytes t \<longleftrightarrow> s = t"
proof -
  have byte: "unat (of_nat (of_char c) :: u8) = of_char c" for c :: char
    using of_char_mod_256 [of c, where ?'a = nat] by (simp add: unat_of_nat)
  have "inj (\<lambda>c::char. of_nat (of_char c) :: u8)"
    by (rule injI) (metis byte of_char_eq_iff)
  then show ?thesis
    unfolding as_bytes_def by (simp add: inj_map_eq_map)
qed

section \<open>Random bytes\<close>

text \<open>
  The operating system's generator is a tape of bytes.  \<open>fill_bytes n\<close> takes the next \<open>n\<close> of
  them; the value \<open>None\<close> means that the tape given to the model was too short.
\<close>

definition fill_bytes :: "nat \<Rightarrow> bytes \<Rightarrow> (bytes \<times> bytes) option" where
  "fill_bytes n rng = (if length rng < n then None else Some (take n rng, drop n rng))"

lemma fill_bytes_Some:
  "fill_bytes n rng = Some (b, rng') \<longleftrightarrow> n \<le> length rng \<and> b = take n rng \<and> rng' = drop n rng"
  by (auto simp: fill_bytes_def)

end
