(* ===== verification/Interpolation.thy ===== *)
theory Interpolation
  imports Prelude
begin

text \<open>
  Lagrange interpolation over an arbitrary field, and over any module of that field.  The
  reference notions are \<open>poly_value\<close> (a polynomial whose coefficients live in the module,
  evaluated at a scalar) and \<open>lagrange_weight\<close> (the weight of one node of a finite set of
  sample points, at an arbitrary target).  The program's own loops are related to them by the
  components that contain the loops.
\<close>

definition lagrange_weight :: "'f::field set \<Rightarrow> 'f \<Rightarrow> 'f \<Rightarrow> 'f" where
  "lagrange_weight S z i = (\<Prod>j \<in> S - {i}. (z - j) / (i - j))"

text \<open>A sample point \<open>a\<close> can be factored out of the weights of the others.\<close>

lemma lagrange_weight_remove:
  assumes "finite S" "a \<in> S" "i \<in> S" "i \<noteq> a"
  shows "lagrange_weight S z i * (i - a) = (z - a) * lagrange_weight (S - {a}) z i"
proof -
  have "S - {i} = insert a (S - {a} - {i})"
    using assms by auto
  then have "lagrange_weight S z i = (z - a) / (i - a) * lagrange_weight (S - {a}) z i"
    using assms(1) by (simp add: lagrange_weight_def)
  with assms(4) show ?thesis by simp
qed

lemma sum_lagrange_shift:
  assumes "finite S" "a \<in> S"
  shows "(\<Sum>i\<in>S. lagrange_weight S z i * ((i - a) * g i))
    = (z - a) * (\<Sum>i\<in>S - {a}. lagrange_weight (S - {a}) z i * g i)"
proof -
  have "(\<Sum>i\<in>S. lagrange_weight S z i * ((i - a) * g i))
      = (\<Sum>i\<in>S - {a}. lagrange_weight S z i * ((i - a) * g i))"
    using assms by (intro sum.mono_neutral_right) auto
  also have "\<dots> = (\<Sum>i\<in>S - {a}. (z - a) * (lagrange_weight (S - {a}) z i * g i))"
  proof (rule sum.cong)
    fix i assume "i \<in> S - {a}"
    then have "lagrange_weight S z i * (i - a) = (z - a) * lagrange_weight (S - {a}) z i"
      using assms by (intro lagrange_weight_remove) auto
    then show "lagrange_weight S z i * ((i - a) * g i)
        = (z - a) * (lagrange_weight (S - {a}) z i * g i)"
      by (metis mult.assoc)
  qed simp
  finally show ?thesis by (simp add: sum_distrib_left)
qed

lemma sum_lagrange_weight:
  assumes "finite S" "S \<noteq> {}"
  shows "(\<Sum>i\<in>S. lagrange_weight S z i) = 1"
  using assms
proof (induction "card S" arbitrary: S rule: less_induct)
  case less
  show ?case
  proof (cases "\<exists>a. S = {a}")
    case True
    then show ?thesis by (auto simp: lagrange_weight_def)
  next
    case False
    then obtain a b where ab: "a \<in> S" "b \<in> S" "a \<noteq> b"
      using less.prems(2) by blast
    have rest: "(\<Sum>i\<in>S - {c}. lagrange_weight (S - {c}) z i) = 1" if "c \<in> S" for c
      using less.prems that False
      by (intro less.hyps) (auto simp: card_Diff_singleton card_gt_0_iff)
    have one: "(b - a) * lagrange_weight S z i =
        lagrange_weight S z i * ((i - a) * 1) - lagrange_weight S z i * ((i - b) * 1)" for i
      by (simp add: algebra_simps)
    have shift: "(\<Sum>i\<in>S. lagrange_weight S z i * ((i - c) * 1)) = z - c" if "c \<in> S" for c
      using sum_lagrange_shift [OF less.prems(1) that, of z "\<lambda>_. 1"] rest [OF that] by simp
    have "(b - a) * (\<Sum>i\<in>S. lagrange_weight S z i)
        = (\<Sum>i\<in>S. lagrange_weight S z i * ((i - a) * 1))
          - (\<Sum>i\<in>S. lagrange_weight S z i * ((i - b) * 1))"
      by (simp only: sum_distrib_left sum_subtractf one)
    also have "\<dots> = (z - a) - (z - b)"
      using ab by (simp only: shift)
    finally show ?thesis using ab(3) by simp
  qed
qed

theorem lagrange_power:
  assumes "finite S" "k < card S"
  shows "(\<Sum>i\<in>S. lagrange_weight S z i * i ^ k) = z ^ k"
  using assms
proof (induction k arbitrary: S)
  case 0
  then show ?case
    using sum_lagrange_weight [of S z] by (simp add: card_gt_0_iff)
next
  case (Suc k)
  then obtain a where a: "a \<in> S" by (metis card.empty equals0I not_less0)
  have IH_S: "(\<Sum>i\<in>S. lagrange_weight S z i * i ^ k) = z ^ k"
    using Suc by simp
  have IH_rest: "(\<Sum>i\<in>S - {a}. lagrange_weight (S - {a}) z i * i ^ k) = z ^ k"
    using Suc a by (intro Suc.IH) (simp_all add: card_Diff_singleton)
  have "(\<Sum>i\<in>S. lagrange_weight S z i * i ^ Suc k)
      = (\<Sum>i\<in>S. lagrange_weight S z i * ((i - a) * i ^ k))
        + a * (\<Sum>i\<in>S. lagrange_weight S z i * i ^ k)"
    by (simp add: sum_distrib_left sum.distrib [symmetric] algebra_simps)
  also have "\<dots> = (z - a) * z ^ k + a * z ^ k"
    using Suc.prems a by (simp only: sum_lagrange_shift IH_S IH_rest)
  finally show ?case by (simp add: algebra_simps)
qed

section \<open>Polynomials with coefficients in a module\<close>

definition poly_value :: "('f::field \<Rightarrow> 'g::ab_group_add \<Rightarrow> 'g) \<Rightarrow> 'g list \<Rightarrow> 'f \<Rightarrow> 'g" where
  "poly_value act cs x = (\<Sum>k < length cs. act (x ^ k) (cs ! k))"

text \<open>Running-power evaluation, the loop every evaluator of the program uses.\<close>

definition power_step :: "('f::field \<Rightarrow> 'g::ab_group_add \<Rightarrow> 'g) \<Rightarrow> 'f \<Rightarrow> 'g \<Rightarrow> 'g \<times> 'f \<Rightarrow> 'g \<times> 'f"
  where "power_step act x c = (\<lambda>(result, x_power). (result + act x_power c, x_power * x))"

lemma power_step_pair [simp]: "power_step act x c (r, p) = (r + act p c, p * x)"
  by (simp add: power_step_def)

lemma fold_power_step:
  "fold (power_step act x) cs (r, p) =
    (r + (\<Sum>k < length cs. act (p * x ^ k) (cs ! k)), p * x ^ length cs)"
proof (induction cs arbitrary: r p)
  case Nil
  then show ?case by simp
next
  case (Cons c cs)
  have shift: "(\<Sum>k < length cs. act (p * x * x ^ k) (cs ! k))
      = (\<Sum>k < length cs. act (p * x ^ Suc k) ((c # cs) ! Suc k))"
    by (simp add: mult.assoc)
  have "fold (power_step act x) (c # cs) (r, p)
      = (r + act p c + (\<Sum>k < length cs. act (p * x * x ^ k) (cs ! k)), p * x * x ^ length cs)"
    using Cons.IH by simp
  also have "\<dots> = (r + (\<Sum>k < length (c # cs). act (p * x ^ k) ((c # cs) ! k)),
      p * x ^ length (c # cs))"
    unfolding shift by (simp add: sum.lessThan_Suc_shift mult.assoc add.assoc del: sum.lessThan_Suc)
  finally show ?case .
qed

lemma poly_value_Nil [simp]: "poly_value act [] x = 0"
  by (simp add: poly_value_def)

locale scalar_action = module act
  for act :: "'f::field \<Rightarrow> 'g::ab_group_add \<Rightarrow> 'g"
begin

lemma act_zero_iff [simp]: "act a v = 0 \<longleftrightarrow> a = 0 \<or> v = 0"
proof
  assume h: "act a v = 0"
  show "a = 0 \<or> v = 0"
  proof (cases "a = 0")
    case False
    have "v = act (inverse a) (act a v)" using False by simp
    then show ?thesis using h by simp
  qed simp
qed auto

lemma poly_value_Cons:
  "poly_value act (c # cs) x = fst (fold (power_step act x) cs (c, x))"
  by (simp add: poly_value_def fold_power_step sum.lessThan_Suc_shift del: sum.lessThan_Suc)

lemma poly_value_0: "cs \<noteq> [] \<Longrightarrow> poly_value act cs 0 = cs ! 0"
  by (cases cs) (simp_all add: poly_value_def sum.lessThan_Suc_shift del: sum.lessThan_Suc)

lemma poly_value_map2_add:
  "length cs = length ds \<Longrightarrow>
    poly_value act (map2 (+) cs ds) x = poly_value act cs x + poly_value act ds x"
  by (simp add: poly_value_def sum.distrib scale_right_distrib)

lemma poly_value_map_act: "poly_value act (map (act a) cs) x = act a (poly_value act cs x)"
  by (simp add: poly_value_def scale_sum_right mult.commute)

lemma poly_value_replicate_0 [simp]: "poly_value act (replicate n 0) x = 0"
  by (simp add: poly_value_def)

text \<open>
  The weighted sum of the values of a polynomial at enough distinct points is its value at the
  target.  This is what makes any qualified set of shares interchangeable.
\<close>

theorem lagrange_interpolation:
  assumes "finite S" "length cs \<le> card S"
  shows "(\<Sum>i\<in>S. act (lagrange_weight S z i) (poly_value act cs i)) = poly_value act cs z"
proof -
  have "(\<Sum>i\<in>S. act (lagrange_weight S z i) (poly_value act cs i))
      = (\<Sum>k < length cs. \<Sum>i\<in>S. act (lagrange_weight S z i * i ^ k) (cs ! k))"
    by (simp add: poly_value_def scale_sum_right sum.swap [of _ S])
  also have "\<dots> = (\<Sum>k < length cs. act (\<Sum>i\<in>S. lagrange_weight S z i * i ^ k) (cs ! k))"
    by (simp add: scale_sum_left)
  also have "\<dots> = poly_value act cs z"
    using assms by (simp add: poly_value_def lagrange_power)
  finally show ?thesis .
qed

end

text \<open>The scalar field acts on itself: the polynomials a dealer evaluates on secret scalars.\<close>

interpretation scalars: scalar_action "(*) :: 'f::field \<Rightarrow> 'f \<Rightarrow> 'f"
  by unfold_locales (simp_all add: algebra_simps)

declare scalars.scale_scale [simp del]

text \<open>
  The loop that accumulates numerator and denominator of a Lagrange coefficient over the other
  participants.
\<close>

lemma fold_num_den:
  fixes a b :: "'f::field"
  shows "fold (\<lambda>j (num, den). if j = i then (num, den) else (num * f j, den * g j)) js (a, b)
    = (a * (\<Prod>j\<leftarrow>filter (\<lambda>j. j \<noteq> i) js. f j), b * (\<Prod>j\<leftarrow>filter (\<lambda>j. j \<noteq> i) js. g j))"
proof (induction js arbitrary: a b)
  case (Cons j js)
  then show ?case by (cases "j = i") (simp_all add: mult.assoc)
qed simp

lemma prod_list_others:
  fixes f :: "'a \<Rightarrow> 'f::field"
  assumes "distinct js"
  shows "(\<Prod>j\<leftarrow>filter (\<lambda>j. j \<noteq> i) js. f j) = (\<Prod>j\<in>set js - {i}. f j)"
proof -
  have "set (filter (\<lambda>j. j \<noteq> i) js) = set js - {i}" by auto
  then show ?thesis
    using prod.distinct_set_conv_list [of "filter (\<lambda>j. j \<noteq> i) js" f] assms by simp
qed

lemma lagrange_quotient:
  fixes e :: "'a \<Rightarrow> 'f::field"
  assumes inj: "inj_on e (insert i (set js))"
  shows "(\<Prod>j\<in>set js - {i}. e i - e j) \<noteq> 0"
    and "(\<Prod>j\<in>set js - {i}. z - e j) * inverse (\<Prod>j\<in>set js - {i}. e i - e j)
      = lagrange_weight (e ` set js) z (e i)"
proof -
  show "(\<Prod>j\<in>set js - {i}. e i - e j) \<noteq> 0"
    using inj by (auto simp: inj_on_def)
  have "e ` set js - {e i} = e ` (set js - {i})"
    using inj by (auto simp: inj_on_def)
  moreover have "inj_on e (set js - {i})"
    using inj by (rule inj_on_subset) auto
  ultimately show "(\<Prod>j\<in>set js - {i}. z - e j) * inverse (\<Prod>j\<in>set js - {i}. e i - e j)
      = lagrange_weight (e ` set js) z (e i)"
    by (simp add: lagrange_weight_def prod.reindex prod.distrib prod_inversef [symmetric]
        divide_inverse)
qed

end
