(* ===== verification/Backend.thy ===== *)
theory Backend
  imports Interpolation
begin

text \<open>
  The arithmetic layer of the cryptographic crate: \<open>error.rs\<close>, \<open>jubjub/types.rs\<close>,
  \<open>jubjub/common.rs\<close> and the generic evaluation loop of \<open>helpers.rs\<close>.

  Scalars are a type of class \<open>field\<close> and points a type of class \<open>ab_group_add\<close>.  What the
  crate takes from third-party packages (scalar multiplication, the generator, the 32-byte
  codecs, the hash functions, HKDF and AES-GCM) is the record \<open>backend\<close>, an argument of every
  definition that uses it; the locale \<open>lawful_backend\<close> names the documented laws of those
  packages that the theorems rely on.
\<close>

datatype crypto_error =
    DKGError string
  | ElGamalError string
  | SerializationError
  | InvalidSignatureShare
  | InvalidSignature
  | SigningError string
  | ParseError string
  | CommitmentMissing u32

type_synonym 'a result = "crypto_error + 'a"

record ('f, 'g) backend =
  generator :: 'g
  smul :: "'f \<Rightarrow> 'g \<Rightarrow> 'g"
  scalar_to_bytes :: "'f \<Rightarrow> bytes"
  scalar_from_bytes :: "bytes \<Rightarrow> 'f option"
  scalar_from_bytes_wide :: "bytes \<Rightarrow> 'f"
  point_to_bytes :: "'g \<Rightarrow> bytes"
  point_from_bytes :: "bytes \<Rightarrow> 'g option"
  sha256 :: "bytes \<Rightarrow> bytes"
  sha512 :: "bytes \<Rightarrow> bytes"
  blake2b512 :: "bytes \<Rightarrow> bytes"
  hkdf_sha256_expand :: "bytes \<Rightarrow> bytes \<Rightarrow> bytes option"
  aes256gcm_encrypt :: "bytes \<Rightarrow> bytes \<Rightarrow> bytes \<Rightarrow> bytes \<Rightarrow> bytes option"
  aes256gcm_decrypt :: "bytes \<Rightarrow> bytes \<Rightarrow> bytes \<Rightarrow> bytes \<Rightarrow> bytes option"

section \<open>Scalars and points\<close>

definition fr_of_u32 :: "u32 \<Rightarrow> 'f::field" where
  "fr_of_u32 i = of_nat (unat i)"

definition fr_inverse :: "'f::field \<Rightarrow> 'f option" where
  "fr_inverse x = (if x = 0 then None else Some (inverse x))"

text \<open>
  \<open>Fr::rand\<close>: rejection sampling.  Each round draws 32 bytes, masks the top nibble and asks the
  canonical decoder.
\<close>

definition mask_top_nibble :: "bytes \<Rightarrow> bytes" where
  "mask_top_nibble b = b[31 := and (b ! 31) 15]"

function fr_rand :: "('f, 'g) backend \<Rightarrow> bytes \<Rightarrow> ('f \<times> bytes) option" where
  "fr_rand B rng =
    (case fill_bytes 32 rng of
       None \<Rightarrow> None
     | Some (b, rng') \<Rightarrow>
         (case scalar_from_bytes B (mask_top_nibble b) of
            Some s \<Rightarrow> Some (s, rng')
          | None \<Rightarrow> fr_rand B rng'))"
  by pat_completeness auto
termination
  by (relation "measure (\<lambda>(B, rng). length rng)") (auto simp: fill_bytes_Some)

declare fr_rand.simps [simp del]

lemma fr_rand_consumes:
  "fr_rand B rng = Some (s, rng') \<Longrightarrow> length rng' < length rng"
proof (induction B rng rule: fr_rand.induct)
  case (1 B rng)
  obtain b rest where fill: "fill_bytes 32 rng = Some (b, rest)"
    using "1.prems" by (auto simp: fr_rand.simps [of B rng] split: option.splits)
  then have shorter: "length rest < length rng"
    by (auto simp: fill_bytes_Some)
  show ?case
  proof (cases "scalar_from_bytes B (mask_top_nibble b)")
    case None
    then have "length rng' < length rest"
      using "1.prems" "1.IH" fill by (auto simp: fr_rand.simps [of B rng])
    with shorter show ?thesis by simp
  next
    case (Some t)
    then show ?thesis
      using "1.prems" fill shorter by (simp add: fr_rand.simps [of B rng])
  qed
qed

text \<open>The loop around \<open>Fr::rand\<close> that the proof generators use: draw until non-zero.\<close>

function fr_rand_nonzero :: "('f::zero, 'g) backend \<Rightarrow> bytes \<Rightarrow> ('f \<times> bytes) option" where
  "fr_rand_nonzero B rng =
    (case fr_rand B rng of
       None \<Rightarrow> None
     | Some (s, rng') \<Rightarrow>
         if s = 0 then fr_rand_nonzero B rng' else Some (s, rng'))"
  by pat_completeness auto
termination
  by (relation "measure (\<lambda>(B, rng). length rng)") (auto dest: fr_rand_consumes)

declare fr_rand_nonzero.simps [simp del]

definition from_le_bytes_mod_order :: "('f::field, 'g) backend \<Rightarrow> bytes \<Rightarrow> 'f" where
  "from_le_bytes_mod_order B bs =
    (if length bs \<le> 64
     then scalar_from_bytes_wide B (bs @ replicate (64 - length bs) 0)
     else fold (\<lambda>byte acc. acc * of_nat 256 + of_nat (unat byte)) (rev bs) 0)"

definition fr_from_bytes :: "('f, 'g) backend \<Rightarrow> bytes \<Rightarrow> 'f result" where
  "fr_from_bytes B b =
    (if length b \<noteq> 32
     then Inl (ParseError ''Jubjub scalar encoding must contain exactly 32 bytes'')
     else ok_or (ParseError ''Non-canonical Jubjub scalar encoding'') (scalar_from_bytes B b))"

definition element_from_bytes :: "('f, 'g) backend \<Rightarrow> bytes \<Rightarrow> 'g result" where
  "element_from_bytes B b =
    (if length b \<noteq> 32
     then Inl (ParseError ''Jubjub point encoding must contain exactly 32 bytes'')
     else ok_or (ParseError ''Invalid prime-order Jubjub point encoding'') (point_from_bytes B b))"

lemma fr_rand_nonzero_Some: "fr_rand_nonzero B rng = Some (s, rng') \<Longrightarrow> s \<noteq> 0"
proof (induction B rng rule: fr_rand_nonzero.induct)
  case (1 B rng)
  then show ?case
    by (cases "fr_rand B rng")
      (auto simp: fr_rand_nonzero.simps [of B rng] split: if_splits)
qed

section \<open>Public polynomials and polynomial commitments\<close>

text \<open>\<open>eval_poly_at\<close> of \<open>helpers.rs\<close>; \<open>None\<close> is its panic on an empty coefficient list.\<close>

definition eval_poly_at :: "('f::field \<Rightarrow> 'g::ab_group_add \<Rightarrow> 'g) \<Rightarrow> 'g list \<Rightarrow> 'f \<Rightarrow> 'g option" where
  "eval_poly_at act coeffs x =
    (case coeffs of
       [] \<Rightarrow> None
     | c # cs \<Rightarrow> Some (fst (fold (power_step act x) cs (c, x))))"

record 'g pub_poly =
  commits :: "'g list"

record 'g polynomial_commitment =
  coefficients :: "'g list"

definition pub_poly_eval ::
  "('f::field, 'g::ab_group_add) backend \<Rightarrow> 'g pub_poly \<Rightarrow> u32 \<Rightarrow> 'g" where
  "pub_poly_eval B P i =
    (if commits P = [] then 0
     else the (eval_poly_at (smul B) (commits P) (fr_of_u32 i)))"

definition commitment_eval ::
  "('f::field, 'g::ab_group_add) backend \<Rightarrow> 'g polynomial_commitment \<Rightarrow> u32 \<Rightarrow> 'g" where
  "commitment_eval B C x =
    (if coefficients C = [] then 0
     else the (eval_poly_at (smul B) (coefficients C) (fr_of_u32 x)))"

definition verify_share ::
  "('f::field, 'g::ab_group_add) backend \<Rightarrow> 'g polynomial_commitment \<Rightarrow> u32 \<Rightarrow> 'f \<Rightarrow> bool" where
  "verify_share B C share_id share_value =
    (let expected = commitment_eval B C share_id;
         actual = smul B share_value (generator B)
     in expected = actual)"

definition constant_term_is_identity :: "'g::zero polynomial_commitment \<Rightarrow> bool" where
  "constant_term_is_identity C =
    (case coefficients C of [] \<Rightarrow> False | c # _ \<Rightarrow> c = 0)"

text \<open>
  Both polynomial types share one wire format: a little-endian \<open>u32\<close> count and that many
  32-byte points.  \<open>what\<close> is the type's name in the error messages.
\<close>

definition points_to_bytes :: "('f, 'g) backend \<Rightarrow> 'g list \<Rightarrow> bytes" where
  "points_to_bytes B ps =
    le_bytes 4 (unat (as_u32 (length ps))) @ concat (map (point_to_bytes B) ps)"

definition points_from_bytes :: "string \<Rightarrow> ('f, 'g) backend \<Rightarrow> bytes \<Rightarrow> 'g list result" where
  "points_from_bytes what B b =
    (if length b < 4 then Inl (DKGError (what @ '' bytes too short''))
     else
       let num = of_le_bytes (take 4 b);
           expected_len = num * 32 + 4
       in if num * 32 \<ge> 2 ^ 64 \<or> expected_len \<ge> 2 ^ 64
          then Inl (DKGError (what @ '' length overflow''))
          else if length b < expected_len
          then Inl (DKGError (what @ '' bytes too short: expected {}, got {}''))
          else if length b \<noteq> expected_len
          then Inl (DKGError (what @ '' bytes length mismatch: expected {}, got {}''))
          else traverse (\<lambda>i. element_from_bytes B (take 32 (drop (4 + i * 32) b))) [0..<num])"

definition pub_poly_to_bytes :: "('f, 'g) backend \<Rightarrow> 'g pub_poly \<Rightarrow> bytes" where
  "pub_poly_to_bytes B P = points_to_bytes B (commits P)"

definition pub_poly_from_bytes :: "('f, 'g) backend \<Rightarrow> bytes \<Rightarrow> 'g pub_poly result" where
  "pub_poly_from_bytes B b =
    rbind (points_from_bytes ''PubPoly'' B b) (\<lambda>ps. Inr \<lparr>commits = ps\<rparr>)"

definition commitment_to_bytes :: "('f, 'g) backend \<Rightarrow> 'g polynomial_commitment \<Rightarrow> bytes" where
  "commitment_to_bytes B C = points_to_bytes B (coefficients C)"

definition commitment_from_bytes :: "('f, 'g) backend \<Rightarrow> bytes \<Rightarrow> 'g polynomial_commitment result" where
  "commitment_from_bytes B b =
    rbind (points_from_bytes ''PolynomialCommitment'' B b) (\<lambda>ps. Inr \<lparr>coefficients = ps\<rparr>)"

section \<open>The laws of the third-party packages\<close>

text \<open>
  A fixed-width canonical codec: every value has exactly one encoding, of a fixed length.
  Vectors of such values, prefixed by their count, decode back to themselves.
\<close>

locale fixed_codec =
  fixes width :: nat
    and enc :: "'a \<Rightarrow> bytes"
    and dec :: "bytes \<Rightarrow> 'e + 'a"
  assumes enc_width [simp]: "length (enc x) = width"
    and dec_enc [simp]: "dec (enc x) = Inr x"
    and enc_dec: "dec b = Inr x \<Longrightarrow> enc x = b"
begin

lemma enc_inject [simp]: "enc x = enc y \<longleftrightarrow> x = y"
  by (metis Inr_inject dec_enc)

lemma length_concat_enc [simp]: "length (concat (map enc xs)) = width * length xs"
  by (induction xs) auto

lemma drop_concat_enc:
  "i < length xs \<Longrightarrow> take width (drop (width * i) (concat (map enc xs))) = enc (xs ! i)"
proof (induction xs arbitrary: i)
  case Nil
  then show ?case by simp
next
  case (Cons x xs)
  then show ?case
    by (cases i) (simp_all add: drop_append)
qed

lemma traverse_dec_chunks:
  "traverse (\<lambda>i. dec (take width (drop (width * i) (concat (map enc xs))))) [0..<length xs] = Inr xs"
proof -
  have "traverse (\<lambda>i. dec (take width (drop (width * i) (concat (map enc xs))))) [0..<length xs]
      = Inr (map (\<lambda>i. xs ! i) [0..<length xs])"
    by (rule traverse_total) (simp add: drop_concat_enc)
  then show ?thesis by (simp add: map_nth)
qed

end

locale lawful_backend =
  fixes B :: "('f::field, 'g::ab_group_add) backend"
  assumes smul_module: "module (smul B)"
    and generator_free: "smul B a (generator B) = 0 \<Longrightarrow> a = 0"
    and generator_spans: "\<exists>a. P = smul B a (generator B)"
    and fr_of_u32_inj: "(fr_of_u32 i :: 'f) = fr_of_u32 j \<Longrightarrow> i = j"
    and wide_reduction: "length b = 64 \<Longrightarrow> scalar_from_bytes_wide B b = of_nat (of_le_bytes b)"
    and scalar_width: "length (scalar_to_bytes B s) = 32"
    and scalar_decode: "scalar_from_bytes B (scalar_to_bytes B s) = Some s"
    and scalar_canonical:
      "length b = 32 \<Longrightarrow> scalar_from_bytes B b = Some s \<Longrightarrow> scalar_to_bytes B s = b"
    and point_width: "length (point_to_bytes B P) = 32"
    and point_decode: "point_from_bytes B (point_to_bytes B P) = Some P"
    and point_canonical:
      "length b = 32 \<Longrightarrow> point_from_bytes B b = Some P \<Longrightarrow> point_to_bytes B P = b"
    and sha256_width: "length (sha256 B x) = 32"
    and aes_decrypt_encrypt:
      "aes256gcm_encrypt B key nonce aad msg = Some ct \<Longrightarrow>
        aes256gcm_decrypt B key nonce aad ct = Some msg"
    and aes_tag_length:
      "aes256gcm_encrypt B key nonce aad msg = Some ct \<Longrightarrow> length ct = length msg + 16"

sublocale lawful_backend \<subseteq> points: scalar_action "smul B"
  by (simp add: scalar_action_def smul_module)

sublocale lawful_backend \<subseteq> scalar_codec: fixed_codec 32 "scalar_to_bytes B" "fr_from_bytes B"
  by unfold_locales
    (auto simp: fr_from_bytes_def scalar_width scalar_decode result_simps scalar_canonical
      split: if_splits)

sublocale lawful_backend \<subseteq> point_codec: fixed_codec 32 "point_to_bytes B" "element_from_bytes B"
  by unfold_locales
    (auto simp: element_from_bytes_def point_width point_decode result_simps point_canonical
      split: if_splits)

context lawful_backend
begin

lemma generator_inject [simp]:
  "smul B a (generator B) = smul B b (generator B) \<longleftrightarrow> a = b"
proof
  assume "smul B a (generator B) = smul B b (generator B)"
  then have "smul B (a - b) (generator B) = 0"
    by (simp add: points.scale_left_diff_distrib)
  then show "a = b" using generator_free by fastforce
qed simp

lemma generator_nonzero [simp]: "generator B \<noteq> 0"
  using generator_free [of 1] by fastforce

lemma smul_point_inject: "smul B a P = smul B b P \<Longrightarrow> P \<noteq> 0 \<Longrightarrow> a = b"
proof -
  assume eq: "smul B a P = smul B b P" and "P \<noteq> 0"
  obtain x where "P = smul B x (generator B)" using generator_spans by blast
  with eq \<open>P \<noteq> 0\<close> show "a = b" by auto
qed

lemma fr_of_u32_eq_iff [simp]: "(fr_of_u32 i :: 'f) = fr_of_u32 j \<longleftrightarrow> i = j"
  using fr_of_u32_inj by blast

lemma inj_fr_of_u32: "inj_on (fr_of_u32 :: u32 \<Rightarrow> 'f) S"
  by (simp add: inj_on_def)

lemma eval_poly_at_value:
  "cs \<noteq> [] \<Longrightarrow> eval_poly_at (smul B) cs x = Some (poly_value (smul B) cs x)"
  by (cases cs) (simp_all add: eval_poly_at_def points.poly_value_Cons)

lemma pub_poly_eval_value: "pub_poly_eval B P i = poly_value (smul B) (commits P) (fr_of_u32 i)"
  by (cases "commits P = []") (simp_all add: pub_poly_eval_def eval_poly_at_value)

lemma commitment_eval_value:
  "commitment_eval B C i = poly_value (smul B) (coefficients C) (fr_of_u32 i)"
  by (cases "coefficients C = []") (simp_all add: commitment_eval_def eval_poly_at_value)

lemma verify_share_iff:
  "verify_share B C i v \<longleftrightarrow>
    poly_value (smul B) (coefficients C) (fr_of_u32 i) = smul B v (generator B)"
  by (simp add: verify_share_def commitment_eval_value Let_def)

text \<open>Committing to a scalar polynomial and evaluating commute.\<close>

lemma poly_value_commit:
  "poly_value (smul B) (map (\<lambda>a. smul B a (generator B)) cs) x
    = smul B (poly_value (*) cs x) (generator B)"
  by (simp add: poly_value_def points.scale_sum_left)

lemma of_le_bytes_append_zeros: "of_le_bytes (bs @ replicate k 0) = of_le_bytes bs"
proof -
  have "of_le_bytes (replicate k 0) = 0" by (induction k) auto
  then show ?thesis by (induction bs) auto
qed

lemma mod_order_fold:
  "fold (\<lambda>byte acc. acc * of_nat 256 + of_nat (unat byte)) (rev bs) (0::'f)
    = of_nat (of_le_bytes bs)"
  by (induction bs) (simp_all add: algebra_simps)

lemma from_le_bytes_mod_order_value:
  "from_le_bytes_mod_order B bs = of_nat (of_le_bytes bs)"
  by (simp add: from_le_bytes_mod_order_def wide_reduction of_le_bytes_append_zeros
      mod_order_fold [simplified])

text \<open>
  The algebra of the Schnorr and Chaum-Pedersen proofs: an honest response reproduces the nonce
  commitment, and two accepting responses to different challenges for one commitment reveal the
  discrete logarithm.
\<close>

lemma sigma_complete: "smul B (k + c * x) P - smul B c (smul B x P) = smul B k P"
  by (simp add: points.scale_left_distrib)

lemma sigma_extract:
  assumes "smul B z P - smul B c Q = smul B z' P - smul B c' Q" "c \<noteq> c'"
  shows "Q = smul B ((z - z') / (c - c')) P"
proof -
  have "smul B (c - c') Q = smul B (z - z') P"
    using assms(1) by (simp add: points.scale_left_diff_distrib algebra_simps)
  then have "smul B (inverse (c - c')) (smul B (c - c') Q) = smul B (inverse (c - c') * (z - z')) P"
    by simp
  then show ?thesis using assms(2) by (simp add: divide_inverse mult.commute)
qed

lemma scalar_bytes_eq_iff [simp]: "scalar_to_bytes B a = scalar_to_bytes B b \<longleftrightarrow> a = b"
  by (rule scalar_codec.enc_inject)

lemma point_bytes_eq_iff [simp]: "point_to_bytes B P = point_to_bytes B Q \<longleftrightarrow> P = Q"
  by (rule point_codec.enc_inject)

lemma fr_from_bytes_to_bytes [simp]: "fr_from_bytes B (scalar_to_bytes B s) = Inr s"
  by (rule scalar_codec.dec_enc)

lemma element_from_bytes_to_bytes [simp]: "element_from_bytes B (point_to_bytes B P) = Inr P"
  by (rule point_codec.dec_enc)

lemma fr_from_bytes_iff: "fr_from_bytes B b = Inr s \<longleftrightarrow> b = scalar_to_bytes B s"
  using scalar_codec.enc_dec by auto

lemma element_from_bytes_iff: "element_from_bytes B b = Inr P \<longleftrightarrow> b = point_to_bytes B P"
  using point_codec.enc_dec by auto

text \<open>Two accepting transcripts of a proof of equal discrete logarithms fix the second point.\<close>

lemma dleq_extract:
  assumes "smul B z P - smul B c X = smul B z' P - smul B c' X"
    and "smul B z Q - smul B c C = smul B z' Q - smul B c' C"
    and "c \<noteq> c'" "C = smul B s Q" "Q \<noteq> 0"
  shows "X = smul B s P"
proof -
  have "s = (z - z') / (c - c')"
    using sigma_extract [OF assms(2,3)] assms(4,5) smul_point_inject by metis
  with sigma_extract [OF assms(1,3)] show ?thesis by simp
qed

lemma lawful_sha512_update: "lawful_backend (B\<lparr>sha512 := h\<rparr>)"
  using lawful_backend_axioms by (simp add: lawful_backend_def)

lemma lawful_blake2b512_update: "lawful_backend (B\<lparr>blake2b512 := h\<rparr>)"
  using lawful_backend_axioms by (simp add: lawful_backend_def)

lemma points_roundtrip:
  assumes "length ps < 2 ^ 32"
  shows "points_from_bytes what B (points_to_bytes B ps) = Inr ps"
proof -
  let ?n = "length ps"
  let ?b = "points_to_bytes B ps"
  have hd: "take 4 ?b = le_bytes 4 ?n" and tl: "drop 4 ?b = concat (map (point_to_bytes B) ps)"
    using assms by (simp_all add: points_to_bytes_def as_u32_small)
  have num: "of_le_bytes (take 4 ?b) = ?n"
    using assms by (simp add: hd of_le_bytes_le_bytes)
  have len: "length ?b = ?n * 32 + 4"
    by (simp add: points_to_bytes_def)
  have slice: "take 32 (drop (4 + i * 32) ?b)
      = take 32 (drop (32 * i) (concat (map (point_to_bytes B) ps)))" for i
    by (simp add: tl [symmetric] add.commute mult.commute)
  have body: "traverse (\<lambda>i. element_from_bytes B (take 32 (drop (4 + i * 32) ?b))) [0..<?n] = Inr ps"
    unfolding slice by (rule point_codec.traverse_dec_chunks)
  show ?thesis
    using assms unfolding points_from_bytes_def Let_def num len by (simp add: body)
qed

end

end
