(* ===== verification/Shares.thy ===== *)
theory Shares
  imports Backend
begin

text \<open>
  The share types of \<open>trait/types.rs\<close> and their wire formats of \<open>trait/serialize.rs\<close>: the share
  a dealer sends to one recipient, the private and public shares a node ends up with, and the
  reply of a re-encrypting node.  The value codecs are parameters here, as the type parameters
  of the Rust implementations are; the theorems are proved once for any canonical codec.
\<close>

record 'f distributed_share =
  ds_from_id :: u32
  ds_to_id :: u32
  ds_value :: 'f
  ds_nonce :: bytes
  ds_session_id :: u128

record 'f pri_share =
  pri_i :: u32
  pri_v :: 'f

record 'g pub_share =
  pub_i :: u32
  pub_v :: 'g

record 'f dist_key_share =
  dks_pri_share :: "'f pri_share"

record ('f, 'g) reencrypt_reply =
  rr_share :: "'g pub_share"
  rr_challenge :: 'f
  rr_proof :: 'f

definition u32_of_le :: "bytes \<Rightarrow> u32" where
  "u32_of_le b = of_nat (of_le_bytes b)"

definition u128_of_le :: "bytes \<Rightarrow> u128" where
  "u128_of_le b = of_nat (of_le_bytes b)"

definition le_u32 :: "u32 \<Rightarrow> bytes" where
  "le_u32 i = le_bytes 4 (unat i)"

text \<open>The slice \<open>bytes[from..to]\<close>.\<close>

definition slice :: "nat \<Rightarrow> nat \<Rightarrow> bytes \<Rightarrow> bytes" where
  "slice from to b = take (to - from) (drop from b)"

definition distributed_share_to_bytes :: "('f \<Rightarrow> bytes) \<Rightarrow> 'f distributed_share \<Rightarrow> bytes" where
  "distributed_share_to_bytes enc s =
    (let value_bytes = enc (ds_value s);
         value_len = as_u32 (length value_bytes)
     in le_u32 (ds_from_id s) @ le_u32 (ds_to_id s) @ le_bytes 16 (unat (ds_session_id s))
        @ ds_nonce s @ le_u32 value_len @ value_bytes)"

definition distributed_share_from_bytes ::
  "(bytes \<Rightarrow> 'f result) \<Rightarrow> bytes \<Rightarrow> 'f distributed_share result" where
  "distributed_share_from_bytes dec b =
    (if length b < 44 then Inl (DKGError ''DistributedShare bytes too short'')
     else
       let from_id = u32_of_le (slice 0 4 b);
           to_id = u32_of_le (slice 4 8 b);
           session_id = u128_of_le (slice 8 24 b);
           nonce = slice 24 40 b;
           value_len = unat (u32_of_le (slice 40 44 b));
           expected_len = 44 + value_len
       in if length b < expected_len
          then Inl (DKGError ''DistributedShare bytes too short for value'')
          else if length b \<noteq> expected_len
          then Inl (DKGError ''DistributedShare bytes length mismatch: expected {}, got {}'')
          else rbind (dec (slice 44 expected_len b)) (\<lambda>v.
            Inr \<lparr>ds_from_id = from_id, ds_to_id = to_id, ds_value = v, ds_nonce = nonce,
                 ds_session_id = session_id\<rparr>))"

definition pri_share_to_bytes :: "('f \<Rightarrow> bytes) \<Rightarrow> 'f pri_share \<Rightarrow> bytes" where
  "pri_share_to_bytes enc s = le_u32 (pri_i s) @ enc (pri_v s)"

definition pri_share_from_bytes :: "(bytes \<Rightarrow> 'f result) \<Rightarrow> bytes \<Rightarrow> 'f pri_share result" where
  "pri_share_from_bytes dec b =
    (if length b < 4 then Inl (DKGError ''PriShare bytes too short'')
     else rbind (dec (drop 4 b)) (\<lambda>v. Inr \<lparr>pri_i = u32_of_le (slice 0 4 b), pri_v = v\<rparr>))"

definition pub_share_to_bytes :: "('g \<Rightarrow> bytes) \<Rightarrow> 'g pub_share \<Rightarrow> bytes" where
  "pub_share_to_bytes enc s = le_u32 (pub_i s) @ enc (pub_v s)"

definition pub_share_from_bytes :: "(bytes \<Rightarrow> 'g result) \<Rightarrow> bytes \<Rightarrow> 'g pub_share result" where
  "pub_share_from_bytes dec b =
    (if length b < 4 then Inl (DKGError ''PubShare bytes too short'')
     else rbind (dec (drop 4 b)) (\<lambda>v. Inr \<lparr>pub_i = u32_of_le (slice 0 4 b), pub_v = v\<rparr>))"

definition dist_key_share_to_bytes :: "('f \<Rightarrow> bytes) \<Rightarrow> 'f dist_key_share \<Rightarrow> bytes" where
  "dist_key_share_to_bytes enc s = pri_share_to_bytes enc (dks_pri_share s)"

definition dist_key_share_from_bytes ::
  "(bytes \<Rightarrow> 'f result) \<Rightarrow> bytes \<Rightarrow> 'f dist_key_share result" where
  "dist_key_share_from_bytes dec b =
    rbind (pri_share_from_bytes dec b) (\<lambda>p. Inr \<lparr>dks_pri_share = p\<rparr>)"

definition reencrypt_reply_to_bytes ::
  "('f \<Rightarrow> bytes) \<Rightarrow> ('g \<Rightarrow> bytes) \<Rightarrow> ('f, 'g) reencrypt_reply \<Rightarrow> bytes" where
  "reencrypt_reply_to_bytes enc_f enc_g r =
    (let share_bytes = pub_share_to_bytes enc_g (rr_share r);
         challenge_bytes = enc_f (rr_challenge r);
         proof_bytes = enc_f (rr_proof r)
     in le_u32 (as_u32 (length share_bytes)) @ share_bytes
        @ le_u32 (as_u32 (length challenge_bytes)) @ challenge_bytes
        @ le_u32 (as_u32 (length proof_bytes)) @ proof_bytes)"

definition reencrypt_reply_from_bytes ::
  "(bytes \<Rightarrow> 'f result) \<Rightarrow> (bytes \<Rightarrow> 'g result) \<Rightarrow> bytes \<Rightarrow> ('f, 'g) reencrypt_reply result" where
  "reencrypt_reply_from_bytes dec_f dec_g b =
    (if length b < 12 then Inl (DKGError ''ReencryptReply bytes too short'')
     else
       let share_len = unat (u32_of_le (slice 0 4 b)); off1 = 4
       in if length b < off1 + share_len + 8
          then Inl (DKGError ''ReencryptReply bytes too short for share'')
          else rbind (pub_share_from_bytes dec_g (slice off1 (off1 + share_len) b)) (\<lambda>share.
            let off2 = off1 + share_len;
                challenge_len = unat (u32_of_le (slice off2 (off2 + 4) b)); off3 = off2 + 4
            in if length b < off3 + challenge_len + 4
               then Inl (DKGError ''ReencryptReply bytes too short for challenge'')
               else rbind (dec_f (slice off3 (off3 + challenge_len) b)) (\<lambda>challenge.
                 let off4 = off3 + challenge_len;
                     proof_len = unat (u32_of_le (slice off4 (off4 + 4) b)); off5 = off4 + 4;
                     expected_len = off5 + proof_len
                 in if length b < expected_len
                    then Inl (DKGError ''ReencryptReply bytes too short for proof'')
                    else if length b \<noteq> expected_len
                    then Inl (DKGError
                      ''ReencryptReply bytes length mismatch: expected {}, got {}'')
                    else rbind (dec_f (slice off5 expected_len b)) (\<lambda>prf.
                      Inr \<lparr>rr_share = share, rr_challenge = challenge, rr_proof = prf\<rparr>))))"

section \<open>Slices and length prefixes\<close>

lemma length_le_u32 [simp, codec_simps]: "length (le_u32 i) = 4"
  by (simp add: le_u32_def)

lemma u32_of_le_le_u32 [simp]: "u32_of_le (le_u32 i) = i"
  using unat_u32_bound [of i] by (simp add: u32_of_le_def le_u32_def of_le_bytes_le_bytes)

lemma u128_of_le_le_bytes [simp]: "u128_of_le (le_bytes 16 (unat i)) = i"
  using unat_u128_bound [of i] by (simp add: u128_of_le_def of_le_bytes_le_bytes)

lemma slice_prefix: "length a = n \<Longrightarrow> slice 0 n (a @ b) = a"
  by (simp add: slice_def)

lemma slice_skip: "length a = n \<Longrightarrow> n \<le> from \<Longrightarrow> slice from to (a @ b) = slice (from - n) (to - n) b"
  by (simp add: slice_def)

lemma slice_all: "length b = n \<Longrightarrow> slice 0 n b = b"
  by (simp add: slice_def)

lemmas slice_simps = slice_prefix slice_skip slice_all

text \<open>Decoding of every share type inverts its encoding, for any canonical value codec.\<close>

context fixed_codec
begin

lemma short_codec: "width < 2 ^ 32 \<Longrightarrow> unat (as_u32 (length (enc x))) = width"
  by (simp add: as_u32_small)

end

lemma distributed_share_roundtrip:
  assumes "fixed_codec width enc dec" "width < 2 ^ 32" "length (ds_nonce s) = 16"
  shows "distributed_share_from_bytes dec (distributed_share_to_bytes enc s) = Inr s"
proof -
  note codec = fixed_codec.enc_width [OF assms(1)] fixed_codec.dec_enc [OF assms(1)]
  show ?thesis
    using assms(2,3)
    by (simp add: distributed_share_to_bytes_def distributed_share_from_bytes_def Let_def
        slice_simps codec as_u32_small)
qed

lemma pri_share_roundtrip:
  "fixed_codec width enc dec \<Longrightarrow> pri_share_from_bytes dec (pri_share_to_bytes enc s) = Inr s"
  by (simp add: pri_share_to_bytes_def pri_share_from_bytes_def slice_simps fixed_codec.dec_enc)

lemma pub_share_roundtrip:
  "fixed_codec width enc dec \<Longrightarrow> pub_share_from_bytes dec (pub_share_to_bytes enc s) = Inr s"
  by (simp add: pub_share_to_bytes_def pub_share_from_bytes_def slice_simps fixed_codec.dec_enc)

lemma length_pub_share_to_bytes:
  "fixed_codec width enc dec \<Longrightarrow> length (pub_share_to_bytes enc s) = width + 4"
  by (simp add: pub_share_to_bytes_def fixed_codec.enc_width)

lemma reencrypt_reply_roundtrip:
  assumes F: "fixed_codec n enc_f dec_f" "n < 2 ^ 32"
    and G: "fixed_codec m enc_g dec_g" "m + 4 < 2 ^ 32"
  shows "reencrypt_reply_from_bytes dec_f dec_g (reencrypt_reply_to_bytes enc_f enc_g r) = Inr r"
proof -
  note codec = fixed_codec.enc_width [OF F(1)] fixed_codec.dec_enc [OF F(1)]
    length_pub_share_to_bytes [OF G(1)] pub_share_roundtrip [OF G(1)]
  show ?thesis
    using F(2) G(2)
    by (simp add: reencrypt_reply_to_bytes_def reencrypt_reply_from_bytes_def Let_def
        slice_simps codec as_u32_small)
qed

end
