(* ===== verification/Threshold.thy ===== *)
theory Threshold
  imports Shares
begin

text \<open>
  Interpolation at zero over participant indices, in the forms the threshold protocols use it:
  \<open>weight0\<close> is the Lagrange coefficient of one participant among the others, and the loops of
  key generation, re-encryption, signing and equality tests compute it in slightly different
  ways.
\<close>

abbreviation weight0 :: "u32 list \<Rightarrow> u32 \<Rightarrow> 'f::field" where
  "weight0 ps p \<equiv> lagrange_weight (fr_of_u32 ` set ps) 0 (fr_of_u32 p)"

lemma zip_map_self: "zip (map f xs) xs = map (\<lambda>x. (f x, x)) xs"
  by (induction xs) auto

context lawful_backend
begin

lemma smul_sum_list: "smul B (\<Sum>x\<leftarrow>xs. f x) P = (\<Sum>x\<leftarrow>xs. smul B (f x) P)"
  by (induction xs) (simp_all add: points.scale_left_distrib)

lemma smul_right_sum_list: "smul B a (\<Sum>x\<leftarrow>xs. f x) = (\<Sum>x\<leftarrow>xs. smul B a (f x))"
  by (induction xs) (simp_all add: points.scale_right_distrib)

lemma fr_of_u32_0 [simp]: "(fr_of_u32 0 :: 'f) = 0"
  by (simp add: fr_of_u32_def)

lemma pub_poly_eval_0: "commits P \<noteq> [] \<Longrightarrow> pub_poly_eval B P 0 = commits P ! 0"
  by (simp add: pub_poly_eval_value points.poly_value_0)

lemma interpolate_at_zero:
  assumes "distinct ids" "length cs \<le> length ids" "cs \<noteq> []"
  shows "(\<Sum>i\<leftarrow>ids. smul B (weight0 ids i) (poly_value (smul B) cs (fr_of_u32 i))) = cs ! 0"
proof -
  let ?S = "fr_of_u32 ` set ids :: 'f set"
  have "card ?S = length ids"
    using assms(1) by (simp add: card_image inj_fr_of_u32 distinct_card)
  then have "(\<Sum>x\<in>?S. smul B (lagrange_weight ?S 0 x) (poly_value (smul B) cs x))
      = poly_value (smul B) cs 0"
    using assms(2) by (intro points.lagrange_interpolation) simp_all
  then show ?thesis
    using assms(1,3)
    by (simp add: sum.reindex inj_fr_of_u32 points.poly_value_0 sum.distinct_set_conv_list comp_def)
qed

text \<open>The coefficient with the signs of both factors flipped, over identifiers.\<close>

lemma weight0_flipped:
  fixes ids :: "u32 list"
  shows "(\<Prod>j\<in>set ids - {i}. fr_of_u32 j - fr_of_u32 i :: 'f) \<noteq> 0"
    and "(\<Prod>j\<in>set ids - {i}. fr_of_u32 j) * inverse (\<Prod>j\<in>set ids - {i}. fr_of_u32 j - fr_of_u32 i)
      = (weight0 ids i :: 'f)"
proof -
  let ?J = "set ids - {i}"
  have flip: "(\<Prod>j\<in>?J. fr_of_u32 j - fr_of_u32 i :: 'f) = (- 1) ^ card ?J * (\<Prod>j\<in>?J. fr_of_u32 i - fr_of_u32 j)"
    "(\<Prod>j\<in>?J. fr_of_u32 j :: 'f) = (- 1) ^ card ?J * (\<Prod>j\<in>?J. 0 - fr_of_u32 j)"
    by (simp_all add: prod.distrib [symmetric] flip: prod_constant)
  show "(\<Prod>j\<in>?J. fr_of_u32 j - fr_of_u32 i :: 'f) \<noteq> 0"
    using lagrange_quotient(1) [OF inj_fr_of_u32] flip(1) by simp
  show "(\<Prod>j\<in>?J. fr_of_u32 j) * inverse (\<Prod>j\<in>?J. fr_of_u32 j - fr_of_u32 i) = (weight0 ids i :: 'f)"
    using lagrange_quotient(2) [OF inj_fr_of_u32, of 0 ids i] lagrange_quotient(1) [OF inj_fr_of_u32]
    unfolding flip by (simp add: field_simps)
qed

text \<open>The coefficient computed by positions, with the signs of both factors flipped.\<close>

lemma weight0_by_position:
  fixes ids :: "u32 list"
  assumes "distinct ids" "i < length ids"
  defines "e \<equiv> \<lambda>j. fr_of_u32 (ids ! j) :: 'f"
  shows "(\<Prod>j\<in>{0..<length ids} - {i}. e j - e i) \<noteq> 0"
    and "(\<Prod>j\<in>{0..<length ids} - {i}. e j) * inverse (\<Prod>j\<in>{0..<length ids} - {i}. e j - e i)
      = weight0 ids (ids ! i)"
proof -
  let ?J = "{0..<length ids} - {i}"
  have inj: "inj_on e (insert i (set [0..<length ids]))"
    using assms(1,2) by (auto simp: e_def inj_on_def nth_eq_iff_index_eq)
  have flip: "(\<Prod>j\<in>?J. e j - e i) = (- 1) ^ card ?J * (\<Prod>j\<in>?J. e i - e j)"
    "(\<Prod>j\<in>?J. e j) = (- 1) ^ card ?J * (\<Prod>j\<in>?J. 0 - e j)"
    by (simp_all add: prod.distrib [symmetric] flip: prod_constant)
  have image: "e ` set [0..<length ids] = fr_of_u32 ` set ids"
    by (force simp: e_def set_conv_nth)
  show "(\<Prod>j\<in>?J. e j - e i) \<noteq> 0"
    using lagrange_quotient(1) [OF inj] flip(1) by simp
  show "(\<Prod>j\<in>?J. e j) * inverse (\<Prod>j\<in>?J. e j - e i) = weight0 ids (ids ! i)"
    using lagrange_quotient(2) [OF inj, of 0] lagrange_quotient(1) [OF inj]
    unfolding flip image by (simp add: e_def field_simps)
qed

text \<open>Interpolating a list of shares by position.\<close>

lemma interpolate_positions:
  assumes "distinct ids" "length cs \<le> length ids" "cs \<noteq> []"
    and "\<And>i. i < length ids \<Longrightarrow> v i = smul B x (poly_value (smul B) cs (fr_of_u32 (ids ! i)))"
  shows "(\<Sum>i\<leftarrow>[0..<length ids]. smul B (weight0 ids (ids ! i)) (v i)) = smul B x (cs ! 0)"
proof -
  have "(\<Sum>i\<leftarrow>[0..<length ids]. smul B (weight0 ids (ids ! i)) (v i))
      = (\<Sum>i\<leftarrow>[0..<length ids]. smul B x (smul B (weight0 ids (ids ! i))
          (poly_value (smul B) cs (fr_of_u32 (ids ! i)))))"
    using assms(4) by (intro arg_cong [where f = sum_list] map_cong)
      (simp_all add: mult.commute)
  also have "\<dots> = (\<Sum>a\<leftarrow>map (\<lambda>i. ids ! i) [0..<length ids].
      smul B x (smul B (weight0 ids a) (poly_value (smul B) cs (fr_of_u32 a))))"
    by (simp add: comp_def)
  also have "\<dots> = smul B x (\<Sum>a\<leftarrow>ids. smul B (weight0 ids a) (poly_value (smul B) cs (fr_of_u32 a)))"
    by (simp only: map_nth smul_right_sum_list)
  finally show ?thesis using interpolate_at_zero [OF assms(1-3)] by simp
qed

end

end
