(* ===== verification/Dkg.thy ===== *)
theory Dkg
  imports Threshold "HOL-Library.AList"
begin

text \<open>
  The distributed key generation node of \<open>jubjub/dkg.rs\<close>, with the roles and modes of
  \<open>trait/dkg.rs\<close>.  A node is the record \<open>dkg_node\<close>; each operation of the \<open>Dkg\<close> trait is one
  definition.  A hash map is an association list without duplicate keys, so that the loops over
  its values run; \<open>usize\<close> is \<open>nat\<close>.  An operation that fails without changing the node returns
  the error alone; \<open>receive_share\<close>, which records a complaint before failing, returns the node
  as well.  The subtraction \<open>total_nodes - 1\<close> is the one of the source: a node built by \<open>new\<close>
  that reaches it has at least one node in its committee (\<open>node_inv\<close>).
\<close>

section \<open>Roles, modes and the node\<close>

datatype dkg_role = Standard | Dealer | Receiver | DealerReceiver

datatype 'f dkg_mode =
    Fresh
  | Refresh
  | Reshare 'f "u32 list" nat nat "u32 option"

record ('f, 'g) dkg_node =
  nd_id :: u32
  nd_threshold :: nat
  nd_total_nodes :: nat
  nd_role :: dkg_role
  nd_effective_total_nodes :: nat
  nd_effective_threshold :: nat
  nd_effective_receive_id :: "u32 option"
  nd_polynomial_coeffs :: "'f list"
  nd_commitment :: "'g polynomial_commitment"
  nd_received_shares :: "(u32 \<times> 'f) list"
  nd_received_commitments :: "(u32 \<times> 'g polynomial_commitment) list"
  nd_selected_reshare_participants :: "u32 list option"
  nd_session_id :: u128
  nd_complaints :: "(u32 \<times> u32 list) list"

definition dkg_new :: "u32 \<Rightarrow> nat \<Rightarrow> nat \<Rightarrow> u128 \<Rightarrow> dkg_role \<Rightarrow> ('f, 'g) dkg_node result" where
  "dkg_new i threshold total_nodes session_id role =
    (if i = 0 then Inl (DKGError ''Invalid node id: 0'')
     else if role \<noteq> Receiver \<and> i > as_u32 total_nodes
     then Inl (DKGError ''Invalid node id: {} (must be between 1 and {})'')
     else if role \<noteq> Receiver \<and> threshold > total_nodes
     then Inl (DKGError ''Threshold cannot exceed total nodes'')
     else if threshold = 0 then Inl (DKGError ''Threshold must be at least 1'')
     else Inr \<lparr>
       nd_id = i, nd_threshold = threshold, nd_total_nodes = total_nodes, nd_role = role,
       nd_effective_total_nodes = total_nodes, nd_effective_threshold = threshold,
       nd_effective_receive_id = None, nd_polynomial_coeffs = [],
       nd_commitment = \<lparr>coefficients = []\<rparr>, nd_received_shares = [],
       nd_received_commitments = [], nd_selected_reshare_participants = None,
       nd_session_id = session_id, nd_complaints = []\<rparr>)"

section \<open>Phase 1: the polynomial and its commitment\<close>

text \<open>\<open>k\<close> successive draws of a random scalar.\<close>

fun fr_rands :: "('f, 'g) backend \<Rightarrow> nat \<Rightarrow> bytes \<Rightarrow> ('f list \<times> bytes) option" where
  "fr_rands B 0 rng = Some ([], rng)"
| "fr_rands B (Suc k) rng =
    (case fr_rand B rng of
       None \<Rightarrow> None
     | Some (s, rng') \<Rightarrow>
         (case fr_rands B k rng' of
            None \<Rightarrow> None
          | Some (ss, rng'') \<Rightarrow> Some (s # ss, rng'')))"

text \<open>
  The \<open>match mode\<close> of \<open>generate_polynomial\<close>: the constant term, and the node with the reshare
  parameters recorded.
\<close>

definition constant_term_for_mode ::
  "('f::zero, 'g) backend \<Rightarrow> 'f dkg_mode \<Rightarrow> bytes \<Rightarrow> ('f, 'g) dkg_node
    \<Rightarrow> (('f \<times> ('f, 'g) dkg_node) result \<times> bytes) option" where
  "constant_term_for_mode B mode rng n =
    (case mode of
       Fresh \<Rightarrow> (case fr_rand B rng of None \<Rightarrow> None | Some (s, rng') \<Rightarrow> Some (Inr (s, n), rng'))
     | Refresh \<Rightarrow> Some (Inr (0, n), rng)
     | Reshare old_share participating_ids new_threshold new_total_nodes new_node_id \<Rightarrow>
         Some
          (if nd_id n \<notin> set participating_ids
           then Inl (DKGError ''Node not in participating_ids for resharing'')
           else if length participating_ids < nd_threshold n
           then Inl (DKGError ''Reshare requires at least {} participants (threshold), got {}'')
           else if new_threshold = 0 \<or> new_threshold > new_total_nodes
           then Inl (DKGError ''Invalid new threshold {} for new committee of size {}'')
           else Inr (old_share, n\<lparr>
             nd_effective_threshold := new_threshold,
             nd_effective_total_nodes := new_total_nodes,
             nd_selected_reshare_participants := Some participating_ids,
             nd_effective_receive_id := new_node_id\<rparr>), rng))"

definition generate_polynomial ::
  "('f::zero, 'g) backend \<Rightarrow> 'f dkg_mode \<Rightarrow> bytes \<Rightarrow> ('f, 'g) dkg_node
    \<Rightarrow> (('f, 'g) dkg_node result \<times> bytes) option" where
  "generate_polynomial B mode rng n =
    (if nd_role n = Receiver
     then Some (Inl (DKGError ''Receiver role cannot generate a polynomial''), rng)
     else
       case constant_term_for_mode B mode rng n of
         None \<Rightarrow> None
       | Some (Inl e, rng') \<Rightarrow> Some (Inl e, rng')
       | Some (Inr (constant_term, n'), rng') \<Rightarrow>
           (case fr_rands B (nd_effective_threshold n' - 1) rng' of
              None \<Rightarrow> None
            | Some (rest, rng'') \<Rightarrow>
                let coeffs = constant_term # rest
                in Some (Inr (n'\<lparr>
                     nd_polynomial_coeffs := coeffs,
                     nd_commitment := \<lparr>coefficients =
                       map (\<lambda>coeff. smul B coeff (generator B)) coeffs\<rparr>\<rparr>), rng'')))"

section \<open>Reshare participants\<close>

definition canonicalize_participant_ids :: "u32 list \<Rightarrow> nat \<Rightarrow> u32 list result" where
  "canonicalize_participant_ids participant_ids total_nodes =
    (if participant_ids = [] then Inl (DKGError ''Reshare participant set cannot be empty'')
     else
       let ids = remdups_adj (sort participant_ids)
       in if length ids \<noteq> length participant_ids
          then Inl (DKGError ''Reshare participant set contains duplicates'')
          else if list_ex (\<lambda>i. i = 0 \<or> i > as_u32 total_nodes) ids
          then Inl (DKGError ''Invalid reshare participant id {} (must be between 1 and {})'')
          else Inr ids)"

definition select_reshare_participants ::
  "u32 list \<Rightarrow> ('f, 'g) dkg_node \<Rightarrow> ('f, 'g) dkg_node result" where
  "select_reshare_participants participant_ids n =
    (if nd_role n \<notin> {Dealer, Receiver, DealerReceiver}
     then Inl (DKGError ''select_reshare_participants is only valid for reshare roles'')
     else rbind (canonicalize_participant_ids participant_ids (nd_total_nodes n)) (\<lambda>ids.
       if length ids < nd_threshold n
       then Inl (DKGError ''Reshare participant set has {} dealers, below threshold {}'')
       else Inr (n\<lparr>nd_selected_reshare_participants := Some ids\<rparr>)))"

definition lagrange_at_zero :: "u32 \<Rightarrow> u32 list \<Rightarrow> 'f::field result" where
  "lagrange_at_zero i participating_ids =
    (let ids = remdups_adj (sort participating_ids)
     in if length ids \<noteq> length participating_ids
        then Inl (DKGError ''participating_ids contains duplicates'')
        else
          let (num, den) =
            fold (\<lambda>j (num, den).
              if j = i then (num, den)
              else (num * - fr_of_u32 j, den * (fr_of_u32 i - fr_of_u32 j))) ids (1, 1)
          in rbind (ok_or (DKGError
               ''Lagrange denominator is zero - check participating_ids for duplicates'')
               (fr_inverse den)) (\<lambda>inv. Inr (num * inv)))"

definition is_reshare_receiver :: "('f, 'g) dkg_node \<Rightarrow> bool" where
  "is_reshare_receiver n = (nd_role n \<in> {Receiver, DealerReceiver})"

definition reshare_participants :: "('f, 'g) dkg_node \<Rightarrow> u32 list result" where
  "reshare_participants n =
    (case nd_selected_reshare_participants n of
       Some ids \<Rightarrow> canonicalize_participant_ids ids (nd_total_nodes n)
     | None \<Rightarrow> Inl (DKGError ''Reshare participant set not yet selected''))"

definition reshare_commitment_for ::
  "('f, 'g) dkg_node \<Rightarrow> u32 \<Rightarrow> 'g polynomial_commitment result" where
  "reshare_commitment_for n participant_id =
    (if nd_role n = DealerReceiver \<and> participant_id = nd_id n then
       if coefficients (nd_commitment n) = []
       then Inl (DKGError ''Local commitment not generated: call generate_polynomial first'')
       else Inr (nd_commitment n)
     else ok_or (DKGError ''Missing commitment from selected dealer {}'')
       (map_of (nd_received_commitments n) participant_id))"

section \<open>Phases 2 and 3: dealing and receiving\<close>

definition eval_polynomial :: "('f::field, 'g) dkg_node \<Rightarrow> u32 \<Rightarrow> 'f" where
  "eval_polynomial n x =
    (case nd_polynomial_coeffs n of
       [] \<Rightarrow> 0
     | c # cs \<Rightarrow>
         let x_scalar = fr_of_u32 x
         in fst (fold (\<lambda>coeff (result, x_power). (result + coeff * x_power, x_power * x_scalar))
              cs (c, x_scalar)))"

fun deal_shares :: "('f::field, 'g) dkg_node \<Rightarrow> u32 list \<Rightarrow> bytes
    \<Rightarrow> ('f distributed_share list \<times> bytes) option" where
  "deal_shares n [] rng = Some ([], rng)"
| "deal_shares n (to_id # to_ids) rng =
    (case fill_bytes 16 rng of
       None \<Rightarrow> None
     | Some (nonce, rng') \<Rightarrow>
         (case deal_shares n to_ids rng' of
            None \<Rightarrow> None
          | Some (shares, rng'') \<Rightarrow>
              Some (\<lparr>ds_from_id = nd_id n, ds_to_id = to_id, ds_value = eval_polynomial n to_id,
                     ds_nonce = nonce, ds_session_id = nd_session_id n\<rparr> # shares, rng'')))"

definition generate_shares :: "('f::field, 'g) dkg_node \<Rightarrow> bytes
    \<Rightarrow> ('f distributed_share list result \<times> bytes) option" where
  "generate_shares n rng =
    (if nd_role n = Receiver
     then Some (Inl (DKGError ''Receiver role cannot generate shares''), rng)
     else if nd_polynomial_coeffs n = []
     then Some (Inl (DKGError ''Must call generate_polynomial first''), rng)
     else
       case deal_shares n
              (map of_nat [1..<Suc (unat (as_u32 (nd_effective_total_nodes n)))]) rng of
         None \<Rightarrow> None
       | Some (shares, rng') \<Rightarrow> Some (Inr shares, rng'))"

definition push_complaint :: "u32 \<Rightarrow> u32 \<Rightarrow> (u32 \<times> u32 list) list \<Rightarrow> (u32 \<times> u32 list) list" where
  "push_complaint complainer accused m =
    AList.update complainer (case_option [] (\<lambda>l. l) (map_of m complainer) @ [accused]) m"

definition expected_receive_id :: "('f, 'g) dkg_node \<Rightarrow> u32" where
  "expected_receive_id n = case_option (nd_id n) (\<lambda>i. i) (nd_effective_receive_id n)"

definition receive_share ::
  "('f::field, 'g::ab_group_add) backend \<Rightarrow> 'f distributed_share \<Rightarrow> ('f, 'g) dkg_node
    \<Rightarrow> ('f, 'g) dkg_node \<times> unit result" where
  "receive_share B share n =
    (if nd_role n = Dealer then (n, Inl (DKGError ''Dealer role does not receive shares''))
     else if ds_from_id share = 0 \<or> ds_from_id share > as_u32 (nd_total_nodes n)
     then (n, Inl (DKGError ''Invalid from_id: {} (must be between 1 and {})''))
     else if nd_role n \<in> {Standard, DealerReceiver} \<and> ds_from_id share = nd_id n
     then (n, Inl (DKGError ''Invalid from_id: cannot receive share from self''))
     else if map_of (nd_received_shares n) (ds_from_id share) \<noteq> None
     then (n, Inl (DKGError ''Duplicate share from node {}''))
     else if ds_to_id share \<noteq> expected_receive_id n
     then (n, Inl (DKGError ''Share not intended for this node''))
     else if ds_session_id share \<noteq> nd_session_id n
     then (n, Inl (DKGError ''Share from different session - possible replay attack''))
     else
       case map_of (nd_received_commitments n) (ds_from_id share) of
         None \<Rightarrow> (n, Inl (CommitmentMissing (ds_from_id share)))
       | Some C \<Rightarrow>
           if \<not> verify_share B C (ds_to_id share) (ds_value share)
           then (n\<lparr>nd_complaints := push_complaint (nd_id n) (ds_from_id share) (nd_complaints n)\<rparr>,
                 Inl (DKGError ''Share verification failed''))
           else (n\<lparr>nd_received_shares :=
                    AList.update (ds_from_id share) (ds_value share) (nd_received_shares n)\<rparr>,
                 Inr ()))"

definition receive_commitment ::
  "u32 \<Rightarrow> 'g polynomial_commitment \<Rightarrow> ('f, 'g) dkg_node \<Rightarrow> ('f, 'g) dkg_node result" where
  "receive_commitment from_id C n =
    (if from_id = 0 \<or> from_id > as_u32 (nd_total_nodes n)
     then Inl (DKGError ''Invalid node id: {}'')
     else if nd_role n \<in> {Standard, DealerReceiver} \<and> from_id = nd_id n
     then Inl (DKGError ''Cannot receive commitment from self'')
     else if coefficients C = [] then Inl (DKGError ''Commitment has no coefficients'')
     else if map_of (nd_received_commitments n) from_id \<noteq> None
     then Inl (DKGError ''Duplicate commitment from node {}'')
     else Inr (n\<lparr>nd_received_commitments :=
            AList.update from_id C (nd_received_commitments n)\<rparr>))"

section \<open>Phase 4: shares, keys and public polynomials\<close>

text \<open>The share a reshare receiver uses for one selected dealer.\<close>

definition reshare_share_for :: "('f::field, 'g) dkg_node \<Rightarrow> u32 \<Rightarrow> 'f result" where
  "reshare_share_for n participant_id =
    (if nd_role n = DealerReceiver \<and> participant_id = nd_id n then
       if nd_polynomial_coeffs n = []
       then Inl (DKGError ''Local polynomial not generated: call generate_polynomial before compute_secret_share'')
       else Inr (eval_polynomial n (expected_receive_id n))
     else ok_or (DKGError ''Missing reshare share from selected dealer {}'')
       (map_of (nd_received_shares n) participant_id))"

definition compute_secret_share :: "('f::field, 'g) dkg_node \<Rightarrow> 'f pri_share result" where
  "compute_secret_share n =
    (if nd_role n = Dealer
     then Inl (DKGError ''Dealer role does not compute a secret share'')
     else if is_reshare_receiver n then
       rbind (reshare_participants n) (\<lambda>participants.
       rbind (for_each (\<lambda>p secret_share.
           rbind (lagrange_at_zero p participants) (\<lambda>lambda.
           rbind (reshare_share_for n p) (\<lambda>share_value.
             Inr (secret_share + lambda * share_value)))) participants 0) (\<lambda>secret_share.
         Inr \<lparr>pri_i = expected_receive_id n, pri_v = secret_share\<rparr>))
     else if length (nd_received_shares n) \<noteq> nd_total_nodes n - 1
     then Inl (DKGError ''Missing shares: received {}, expected {}'')
     else if nd_polynomial_coeffs n = []
     then Inl (DKGError ''Local polynomial not generated: call generate_polynomial before compute_secret_share'')
     else Inr \<lparr>pri_i = nd_id n,
       pri_v = fold (\<lambda>share_value secret_share. secret_share + share_value)
         (map snd (nd_received_shares n)) (eval_polynomial n (nd_id n))\<rparr>)"

definition compute_aggregate_public_key ::
  "('f::field, 'g::ab_group_add) backend \<Rightarrow> ('f, 'g) dkg_node \<Rightarrow> 'g result" where
  "compute_aggregate_public_key B n =
    (if is_reshare_receiver n then
       rbind (reshare_participants n) (\<lambda>participants.
         for_each (\<lambda>p aggregate_pk.
           rbind (lagrange_at_zero p participants) (\<lambda>lambda.
           rbind (reshare_commitment_for n p) (\<lambda>C.
             Inr (aggregate_pk + smul B lambda (coefficients C ! 0))))) participants 0)
     else if length (nd_received_commitments n) \<noteq> nd_total_nodes n - 1
     then Inl (DKGError ''Missing commitments: received {}, expected {}'')
     else if coefficients (nd_commitment n) = []
     then Inl (DKGError ''Local commitment not generated: call generate_polynomial first'')
     else Inr (fold (\<lambda>C aggregate_pk. aggregate_pk + coefficients C ! 0)
       (map snd (nd_received_commitments n)) (coefficients (nd_commitment n) ! 0)))"

definition public_key_is_identity :: "'g::zero \<Rightarrow> bool" where
  "public_key_is_identity public_key = (public_key = 0)"

definition compute_public_polynomial ::
  "('f::field, 'g::ab_group_add) backend \<Rightarrow> ('f, 'g) dkg_node \<Rightarrow> 'g pub_poly result" where
  "compute_public_polynomial B n =
    rbind
     (if is_reshare_receiver n then
        rbind (reshare_participants n) (\<lambda>participants.
        rbind (reshare_commitment_for n (participants ! 0)) (\<lambda>first.
          let num_coeffs = length (coefficients first)
          in for_each (\<lambda>p agg.
               rbind (lagrange_at_zero p participants) (\<lambda>lambda.
               rbind (reshare_commitment_for n p) (\<lambda>C.
                 if length (coefficients C) \<noteq> num_coeffs
                 then Inl (DKGError ''Commitment from node {} has inconsistent length: expected {}, got {}'')
                 else Inr (map2 (+) agg (map (smul B lambda) (coefficients C))))))
               participants (replicate num_coeffs 0)))
      else if length (nd_received_commitments n) \<noteq> nd_total_nodes n - 1
      then Inl (DKGError ''Missing commitments: received {}, expected {}'')
      else if coefficients (nd_commitment n) = []
      then Inl (DKGError ''Local commitment not generated: call generate_polynomial first'')
      else if list_ex (\<lambda>(i, C). length (coefficients C) \<noteq> length (coefficients (nd_commitment n)))
             (nd_received_commitments n)
      then Inl (DKGError ''Commitment from node {} has inconsistent length: expected {}, got {}'')
      else Inr (fold (\<lambda>C agg. map2 (+) agg (coefficients C))
        (map snd (nd_received_commitments n)) (coefficients (nd_commitment n))))
     (\<lambda>aggregated_coeffs. Inr \<lparr>commits = aggregated_coeffs\<rparr>)"

definition combine_pub_poly_bytes ::
  "('f, 'g::ab_group_add) backend \<Rightarrow> bytes \<Rightarrow> bytes \<Rightarrow> bytes result" where
  "combine_pub_poly_bytes B a b =
    rbind (pub_poly_from_bytes B a) (\<lambda>poly_a.
    rbind (pub_poly_from_bytes B b) (\<lambda>poly_b.
      if length (commits poly_a) \<noteq> length (commits poly_b)
      then Inl (DKGError ''combine_pub_poly_bytes: length mismatch ({} vs {})'')
      else Inr (pub_poly_to_bytes B
        \<lparr>commits = map2 (+) (commits poly_a) (commits poly_b)\<rparr>)))"

end
