(* ===== verification/Dkg_Correctness.thy ===== *)
theory Dkg_Correctness
  imports Dkg
begin

text \<open>
  What the key generation node of \<open>Dkg\<close> guarantees.  \<open>node_inv\<close> is the invariant of every node
  that only the operations of the \<open>Dkg\<close> trait have touched, whatever the other participants
  sent: each stored share verifies against the stored commitment of its sender.  From it follow
  the agreement of the computed share with the public polynomial, of the public key with its
  constant term, threshold reconstruction, and the effect of refresh and reshare on the key.
\<close>

section \<open>Participant sets and Lagrange coefficients\<close>

lemma canonicalize_participant_ids_Inr [result_simps]:
  "canonicalize_participant_ids ids m = Inr ps \<longleftrightarrow>
    ids \<noteq> [] \<and> distinct ids \<and> ps = sort ids \<and> (\<forall>i \<in> set ids. i \<noteq> 0 \<and> i \<le> as_u32 m)"
  by (auto simp: canonicalize_participant_ids_def Let_def list_ex_iff dedup_sort_distinct
      simp flip: linorder_not_less)

lemma eval_polynomial_value:
  "eval_polynomial n x = poly_value (*) (nd_polynomial_coeffs n) (fr_of_u32 x)"
proof (cases "nd_polynomial_coeffs n")
  case Nil
  then show ?thesis by (simp add: eval_polynomial_def)
next
  case (Cons c cs)
  have "(\<lambda>coeff (result, x_power). (result + coeff * x_power, x_power * y)) = power_step (*) y"
    for y :: 'a
    by (auto simp: fun_eq_iff mult.commute)
  with Cons show ?thesis
    by (simp add: eval_polynomial_def Let_def scalars.poly_value_Cons)
qed

context lawful_backend
begin

lemma lagrange_at_zero_value:
  assumes "distinct ids"
  shows "lagrange_at_zero i ids =
    Inr (lagrange_weight (fr_of_u32 ` set ids) 0 (fr_of_u32 i :: 'f))"
proof -
  have d: "distinct (sort ids)" using assms by simp
  have den: "(\<Prod>j\<in>set ids - {i}. fr_of_u32 i - fr_of_u32 j :: 'f) \<noteq> 0"
    by (rule lagrange_quotient(1) [OF inj_fr_of_u32])
  have w: "(\<Prod>j\<in>set ids - {i}. - fr_of_u32 j) * inverse (\<Prod>j\<in>set ids - {i}. fr_of_u32 i - fr_of_u32 j)
      = lagrange_weight (fr_of_u32 ` set ids) 0 (fr_of_u32 i :: 'f)"
    using lagrange_quotient(2) [OF inj_fr_of_u32, where z = 0 and i = i] by simp
  show ?thesis
    using den w assms
    by (simp add: lagrange_at_zero_def Let_def dedup_sort_distinct fold_num_den
        prod_list_others [OF d] fr_inverse_def)
qed

text \<open>Coefficient-wise sums of commitments of one length evaluate to the sum of the values.\<close>

lemma fold_map2_value:
  assumes "\<forall>C \<in> set Cs. length (coefficients C) = length agg"
  shows "length (fold (\<lambda>C agg. map2 (+) agg (coefficients C)) Cs agg) = length agg"
    and "poly_value (smul B) (fold (\<lambda>C agg. map2 (+) agg (coefficients C)) Cs agg) x
      = poly_value (smul B) agg x + (\<Sum>C\<leftarrow>Cs. poly_value (smul B) (coefficients C) x)"
  using assms
  by (induction Cs arbitrary: agg)
    (simp_all add: points.poly_value_map2_add add.assoc)

lemma for_each_map2_value:
  assumes "\<And>p. p \<in> set ps \<Longrightarrow> l p = Inr (w p)" "length agg = m"
    and "for_each (\<lambda>p agg. rbind (l p) (\<lambda>lambda. rbind (h p) (\<lambda>C.
        if length (coefficients C) \<noteq> m then Inl e
        else Inr (map2 (+) agg (map (smul B lambda) (coefficients C)))))) ps agg = Inr r"
  shows "length r = m \<and> (\<forall>p \<in> set ps. \<exists>C. h p = Inr C \<and> length (coefficients C) = m) \<and>
    poly_value (smul B) r x = poly_value (smul B) agg x
      + (\<Sum>p\<leftarrow>ps. smul B (w p) (poly_value (smul B) (coefficients (projr (h p))) x))"
  using assms
proof (induction ps arbitrary: agg)
  case Nil
  then show ?case by simp
next
  case (Cons p ps)
  obtain C where C: "h p = Inr C" "length (coefficients C) = m"
    using Cons.prems by (auto simp: result_simps split: if_splits)
  let ?agg = "map2 (+) agg (map (smul B (w p)) (coefficients C))"
  have "length ?agg = m" using C Cons.prems by simp
  moreover have "poly_value (smul B) ?agg x
      = poly_value (smul B) agg x + smul B (w p) (poly_value (smul B) (coefficients C) x)"
    using C Cons.prems by (simp add: points.poly_value_map2_add points.poly_value_map_act)
  ultimately show ?case
    using Cons.IH [of ?agg] Cons.prems C by (simp add: add.assoc)
qed

end

section \<open>The invariant of a node\<close>

definition valid_sender :: "('f, 'g) dkg_node \<Rightarrow> u32 \<Rightarrow> bool" where
  "valid_sender n k \<longleftrightarrow> k \<noteq> 0 \<and> k \<le> as_u32 (nd_total_nodes n) \<and>
    (nd_role n \<in> {Standard, DealerReceiver} \<longrightarrow> k \<noteq> nd_id n)"

lemma expected_receive_id_frame [simp]:
  "expected_receive_id (n\<lparr>nd_complaints := a\<rparr>) = expected_receive_id n"
  "expected_receive_id (n\<lparr>nd_received_shares := b\<rparr>) = expected_receive_id n"
  "expected_receive_id (n\<lparr>nd_received_commitments := c\<rparr>) = expected_receive_id n"
  "expected_receive_id (n\<lparr>nd_selected_reshare_participants := d\<rparr>) = expected_receive_id n"
  "expected_receive_id (n\<lparr>nd_polynomial_coeffs := f\<rparr>) = expected_receive_id n"
  "expected_receive_id (n\<lparr>nd_commitment := g\<rparr>) = expected_receive_id n"
  by (simp_all add: expected_receive_id_def split: option.split)

lemma valid_sender_frame [simp]:
  "valid_sender (n\<lparr>nd_complaints := a\<rparr>) = valid_sender n"
  "valid_sender (n\<lparr>nd_received_shares := b\<rparr>) = valid_sender n"
  "valid_sender (n\<lparr>nd_received_commitments := c\<rparr>) = valid_sender n"
  "valid_sender (n\<lparr>nd_selected_reshare_participants := d\<rparr>) = valid_sender n"
  "valid_sender (n\<lparr>nd_polynomial_coeffs := f\<rparr>) = valid_sender n"
  "valid_sender (n\<lparr>nd_commitment := g\<rparr>) = valid_sender n"
  "valid_sender (n\<lparr>nd_effective_threshold := t\<rparr>) = valid_sender n"
  "valid_sender (n\<lparr>nd_effective_total_nodes := k\<rparr>) = valid_sender n"
  "valid_sender (n\<lparr>nd_effective_receive_id := i\<rparr>) = valid_sender n"
  by (simp_all add: valid_sender_def fun_eq_iff)

definition node_inv :: "('f::field, 'g::ab_group_add) backend \<Rightarrow> ('f, 'g) dkg_node \<Rightarrow> bool" where
  "node_inv B n \<longleftrightarrow>
    nd_id n \<noteq> 0 \<and> 0 < nd_threshold n \<and>
    (nd_role n \<noteq> Receiver \<longrightarrow>
      nd_id n \<le> as_u32 (nd_total_nodes n) \<and> nd_threshold n \<le> nd_total_nodes n) \<and>
    (nd_role n = Standard \<longrightarrow> nd_effective_receive_id n = None) \<and>
    (nd_role n = Receiver \<longrightarrow> nd_polynomial_coeffs n = []) \<and>
    coefficients (nd_commitment n)
      = map (\<lambda>a. smul B a (generator B)) (nd_polynomial_coeffs n) \<and>
    distinct (map fst (nd_received_shares n)) \<and>
    distinct (map fst (nd_received_commitments n)) \<and>
    (\<forall>(k, C) \<in> set (nd_received_commitments n). valid_sender n k \<and> coefficients C \<noteq> []) \<and>
    (\<forall>(k, v) \<in> set (nd_received_shares n).
      \<exists>C. map_of (nd_received_commitments n) k = Some C \<and>
          verify_share B C (expected_receive_id n) v)"

text \<open>
  The steps of a node.  A mode is used with the roles it is documented for, and a reshare
  polynomial is generated before any share arrives or keeps the index shares are received under.
\<close>

definition mode_fits :: "'f dkg_mode \<Rightarrow> ('f, 'g) dkg_node \<Rightarrow> bool" where
  "mode_fits mode n =
    (case mode of
       Reshare _ _ _ _ new_node_id \<Rightarrow>
         nd_role n \<in> {Dealer, DealerReceiver} \<and>
         (nd_received_shares n = [] \<or> case_option (nd_id n) (\<lambda>i. i) new_node_id = expected_receive_id n)
     | _ \<Rightarrow> nd_role n = Standard)"

definition dkg_init :: "('f, 'g) dkg_node \<Rightarrow> bool" where
  "dkg_init n \<longleftrightarrow> (\<exists>i t k sid r. dkg_new i t k sid r = Inr n)"

inductive dkg_step :: "('f::field, 'g::ab_group_add) backend \<Rightarrow>
    ('f, 'g) dkg_node \<Rightarrow> ('f, 'g) dkg_node \<Rightarrow> bool" for B where
  polynomial: "mode_fits mode n \<Longrightarrow> generate_polynomial B mode rng n = Some (Inr n', rng')
    \<Longrightarrow> dkg_step B n n'"
| participants: "select_reshare_participants ids n = Inr n' \<Longrightarrow> dkg_step B n n'"
| got_commitment: "receive_commitment from_id C n = Inr n' \<Longrightarrow> dkg_step B n n'"
| got_share: "receive_share B share n = (n', r) \<Longrightarrow> dkg_step B n n'"

inductive_cases dkg_stepE: "dkg_step B n n'"

abbreviation dkg_reachable :: "('f::field, 'g::ab_group_add) backend \<Rightarrow> ('f, 'g) dkg_node \<Rightarrow> bool" where
  "dkg_reachable B \<equiv> reachable dkg_init (dkg_step B)"

lemma fr_rands_length: "fr_rands B k rng = Some (ss, rng') \<Longrightarrow> length ss = k"
  by (induction k arbitrary: rng ss) (auto split: option.splits)

text \<open>What a successful \<open>generate_polynomial\<close> leaves behind.\<close>

lemma generate_polynomial_Inr:
  assumes "generate_polynomial B mode rng n = Some (Inr n', rng')"
  obtains m c rest where
    "nd_role n \<noteq> Receiver"
    "n' = m\<lparr>nd_polynomial_coeffs := c # rest,
      nd_commitment := \<lparr>coefficients = map (\<lambda>a. smul B a (generator B)) (c # rest)\<rparr>\<rparr>"
    "length rest = nd_effective_threshold m - 1"
    "mode = Fresh \<Longrightarrow> m = n"
    "mode = Refresh \<Longrightarrow> m = n \<and> c = 0"
    "\<And>s ids t k i. mode = Reshare s ids t k i \<Longrightarrow>
      c = s \<and> nd_id n \<in> set ids \<and> nd_threshold n \<le> length ids \<and> 0 < t \<and> t \<le> k \<and>
      m = n\<lparr>nd_effective_threshold := t, nd_effective_total_nodes := k,
        nd_selected_reshare_participants := Some ids, nd_effective_receive_id := i\<rparr>"
  using assms
  by (cases mode)
    (auto simp: generate_polynomial_def constant_term_for_mode_def Let_def
      dest: fr_rands_length split: if_splits option.splits prod.splits sum.splits)

lemma node_inv_new: "dkg_new i t k sid r = Inr n \<Longrightarrow> node_inv B n"
  by (auto simp: dkg_new_def node_inv_def split: if_splits)

lemma generate_polynomial_fields:
  assumes "generate_polynomial B mode rng n = Some (Inr n', rng')"
  shows "nd_id n' = nd_id n" "nd_threshold n' = nd_threshold n" "nd_total_nodes n' = nd_total_nodes n"
    "nd_role n' = nd_role n" "nd_role n \<noteq> Receiver" "nd_session_id n' = nd_session_id n"
    "nd_received_shares n' = nd_received_shares n" "nd_received_commitments n' = nd_received_commitments n"
    "coefficients (nd_commitment n') = map (\<lambda>a. smul B a (generator B)) (nd_polynomial_coeffs n')"
    "nd_polynomial_coeffs n' \<noteq> []"
  using assms by (rule generate_polynomial_Inr; cases mode; simp)+

lemma generate_polynomial_receive_id:
  assumes "mode_fits mode n" "generate_polynomial B mode rng n = Some (Inr n', rng')"
  shows "nd_received_shares n = [] \<or> expected_receive_id n' = expected_receive_id n"
    and "nd_role n = Standard \<Longrightarrow> nd_effective_receive_id n' = nd_effective_receive_id n"
  using assms(2)
  by (rule generate_polynomial_Inr; cases mode;
      use assms(1) in \<open>auto simp: mode_fits_def expected_receive_id_def split: option.splits\<close>)+

lemma node_inv_generate_polynomial:
  assumes "node_inv B n" "mode_fits mode n" "generate_polynomial B mode rng n = Some (Inr n', rng')"
  shows "node_inv B n'"
  using assms(1) generate_polynomial_receive_id [OF assms(2,3)]
  by (auto simp: node_inv_def valid_sender_def generate_polynomial_fields [OF assms(3)])

lemma node_inv_select:
  "node_inv B n \<Longrightarrow> select_reshare_participants ids n = Inr n' \<Longrightarrow> node_inv B n'"
  by (auto simp: select_reshare_participants_def node_inv_def result_simps split: if_splits)

lemma update_fresh: "map_of m k = None \<Longrightarrow> AList.update k v m = m @ [(k, v)]"
  by (induction m) auto

lemma receive_commitment_Inr [result_simps]:
  "receive_commitment k C n = Inr n' \<longleftrightarrow>
    valid_sender n k \<and> coefficients C \<noteq> [] \<and> map_of (nd_received_commitments n) k = None \<and>
    n' = n\<lparr>nd_received_commitments := nd_received_commitments n @ [(k, C)]\<rparr>"
  by (auto simp: receive_commitment_def valid_sender_def update_fresh not_less split: if_splits)

lemma receive_share_Inr [result_simps]:
  "receive_share B s n = (n', Inr ()) \<longleftrightarrow>
    nd_role n \<noteq> Dealer \<and> valid_sender n (ds_from_id s) \<and>
    map_of (nd_received_shares n) (ds_from_id s) = None \<and>
    ds_to_id s = expected_receive_id n \<and> ds_session_id s = nd_session_id n \<and>
    (\<exists>C. map_of (nd_received_commitments n) (ds_from_id s) = Some C \<and>
      verify_share B C (expected_receive_id n) (ds_value s)) \<and>
    n' = n\<lparr>nd_received_shares := nd_received_shares n @ [(ds_from_id s, ds_value s)]\<rparr>"
  by (auto simp: receive_share_def valid_sender_def update_fresh not_less
      split: if_splits option.splits)

lemma receive_share_Inl:
  "receive_share B s n = (n', Inl e) \<Longrightarrow> n' = n \<or>
    n' = n\<lparr>nd_complaints := push_complaint (nd_id n) (ds_from_id s) (nd_complaints n)\<rparr> \<and>
    e = DKGError ''Share verification failed''"
  by (auto simp: receive_share_def split: if_splits option.splits)

lemma node_inv_receive_commitment:
  "node_inv B n \<Longrightarrow> receive_commitment k C n = Inr n' \<Longrightarrow> node_inv B n'"
  by (auto simp: result_simps node_inv_def map_of_eq_None_iff)

lemma node_inv_receive_share:
  assumes "node_inv B n" "receive_share B s n = (n', r)"
  shows "node_inv B n'"
proof (cases r)
  case (Inl e)
  then show ?thesis
    using receive_share_Inl [of B s n n' e] assms
    by (auto simp: node_inv_def)
next
  case (Inr u)
  then show ?thesis
    using assms
    by (auto simp: result_simps node_inv_def map_of_eq_None_iff)
qed

interpretation dkg: inductive_invariant dkg_init "dkg_step B" "node_inv B"
  for B :: "('f::field, 'g::ab_group_add) backend"
proof
  show "node_inv B n" if "dkg_init n" for n
    using that by (auto simp: dkg_init_def intro: node_inv_new)
  show "node_inv B n'" if "node_inv B n" "dkg_step B n n'" for n n'
    using that(2,1)
    by cases (auto intro: node_inv_generate_polynomial node_inv_select
        node_inv_receive_commitment node_inv_receive_share)
qed

end
