(* ===== verification/Reference_Field.thy ===== *)
theory Reference_Field
  imports Backend
begin

text \<open>
  A concrete prime field in which every \<open>u32\<close> is a distinct scalar, as in the fields of both
  curves.  Its order \<open>3 * 2 ^ 36 + 1\<close> is a Proth prime, so that the kernel can check its
  primality by repeated squaring.  With the field acting on itself as a group of prime order it
  is the instance on which the laws of \<open>lawful_backend\<close> are shown to hold together and on which
  theorems about the protocols are run.
\<close>

definition ref_order :: int where
  "ref_order = 206158430209"

section \<open>Primality\<close>

lemma fermat_little:
  fixes q b :: int
  assumes "1 < q" and units: "\<And>x. 0 < x \<Longrightarrow> x < q \<Longrightarrow> coprime x q" and "coprime b q"
  shows "b ^ nat (q - 1) mod q = 1"
proof -
  let ?A = "{1..<q}"
  let ?f = "\<lambda>x. b * x mod q"
  have inj: "inj_on ?f ?A"
  proof (rule inj_onI)
    fix x y assume xy: "x \<in> ?A" "y \<in> ?A" "b * x mod q = b * y mod q"
    then have "x * b mod q = y * b mod q" by (simp add: mult.commute)
    then have "x mod q = y mod q"
      using assms(3) by (auto intro: mult_mod_cancel_right simp: coprime_commute)
    with xy show "x = y" by simp
  qed
  have into: "?f ` ?A \<subseteq> ?A"
  proof
    fix y assume "y \<in> ?f ` ?A"
    then obtain x where x: "x \<in> ?A" "y = b * x mod q" by blast
    have "coprime (b * x) q" using assms(3) units x(1) by simp
    then have "\<not> q dvd b * x"
      using \<open>1 < q\<close> by (meson coprime_common_divisor dvd_refl zdvd_not_zless zero_less_one)
    then have "y \<noteq> 0" using x(2) by (simp add: dvd_eq_mod_eq_0)
    then show "y \<in> ?A"
    proof -
      have "0 \<le> y" "y < q" using x(2) \<open>1 < q\<close> by simp_all
      with \<open>y \<noteq> 0\<close> show ?thesis by simp
    qed
  qed
  have "?f ` ?A = ?A" using inj into by (intro endo_inj_surj) auto
  then have "prod id ?A = prod ?f ?A"
    using prod.reindex [OF inj, of id] by (simp add: comp_def)
  then have "prod id ?A mod q = (\<Prod>x\<in>?A. b * x) mod q"
    by (simp add: mod_prod_eq)
  also have "(\<Prod>x\<in>?A. b * x) = b ^ nat (q - 1) * prod id ?A"
    by (simp add: prod.distrib)
  finally have "b ^ nat (q - 1) * prod id ?A mod q = 1 * prod id ?A mod q"
    by simp
  moreover have "coprime (prod id ?A) q"
    using units by (intro prod_coprime_left) auto
  ultimately have "b ^ nat (q - 1) mod q = 1 mod q"
    by (metis mult_mod_cancel_right coprime_commute)
  then show ?thesis using \<open>1 < q\<close> by simp
qed

lemma odd_part: "0 < n \<Longrightarrow> \<exists>j m. odd m \<and> n = 2 ^ j * (m::nat)"
proof (induction n rule: less_induct)
  case (less n)
  show ?case
  proof (cases "odd n")
    case True
    then show ?thesis by (intro exI [of _ 0] exI [of _ n]) simp
  next
    case False
    then obtain k where k: "n = 2 * k" by blast
    with less obtain j m where "odd m" "k = 2 ^ j * m" by (metis (no_types) less_irrefl
          mult_less_cancel2 mult_1 nat_0_less_mult_iff one_less_numeral_iff semiring_norm(76))
    with k show ?thesis by (intro exI [of _ "Suc j"] exI [of _ m]) simp
  qed
qed

lemma proth_divisor:
  fixes q b :: int
  assumes "2 < q" "b ^ (2 ^ n) mod q = q - 1" "b ^ N mod q = 1" "0 < N"
  shows "2 ^ Suc n dvd N"
proof -
  obtain j m where jm: "odd m" "N = 2 ^ j * m" using odd_part [OF assms(4)] by blast
  have "Suc n \<le> j"
  proof (rule ccontr)
    assume "\<not> Suc n \<le> j"
    then have "2 ^ n = 2 ^ j * (2 ^ (n - j) :: nat)" by (simp flip: power_add)
    then have e: "2 ^ n * m = N * 2 ^ (n - j)" using jm by simp
    have "b ^ (2 ^ n * m) mod q = (b ^ (2 ^ n) mod q) ^ m mod q"
      by (simp add: power_mult power_mod)
    also have "\<dots> = (- 1) ^ m mod q"
      unfolding assms(2) by (metis (no_types) diff_add_cancel minus_diff_eq mod_minus_eq
          mod_self power_mod minus_mod_self2 add.inverse_inverse diff_0 mod_diff_left_eq)
    also have "\<dots> = q - 1" using jm(1) assms(1) by (simp add: zmod_minus1)
    finally have "b ^ (2 ^ n * m) mod q = q - 1" .
    moreover have "b ^ (N * 2 ^ (n - j)) mod q = (b ^ N mod q) ^ (2 ^ (n - j)) mod q"
      by (simp add: power_mult power_mod)
    then have "b ^ (N * 2 ^ (n - j)) mod q = 1" using assms(1,3) by simp
    ultimately show False using e assms(1) by simp
  qed
  then have "2 ^ Suc n dvd (2 ^ j :: nat)" by (rule le_imp_power_dvd)
  then show ?thesis unfolding jm(2) by (rule dvd_mult2)
qed

text \<open>
  Repeated squaring modulo the order, with the quotients of the reductions supplied as a
  certificate: each step subtracts a multiple of the order, whatever the quotient.
\<close>

fun repeated_square :: "int list \<Rightarrow> int \<Rightarrow> int" where
  "repeated_square [] x = x"
| "repeated_square (k # ks) x = repeated_square ks (x * x - k * ref_order)"

lemma repeated_square_power:
  "repeated_square ks x mod ref_order = x ^ (2 ^ length ks) mod ref_order"
proof (induction ks arbitrary: x)
  case Nil
  then show ?case by simp
next
  case (Cons k ks)
  have "repeated_square (k # ks) x mod ref_order
      = (x * x - k * ref_order) ^ (2 ^ length ks) mod ref_order"
    using Cons by simp
  also have "\<dots> = ((x * x - k * ref_order) mod ref_order) ^ (2 ^ length ks) mod ref_order"
    by (simp only: power_mod)
  also have "\<dots> = (x * x) ^ (2 ^ length ks) mod ref_order"
  proof -
    have "(x * x - k * ref_order) mod ref_order = x * x mod ref_order"
      by (metis add_diff_cancel_right' diff_add_cancel mod_mult_self1)
    then show ?thesis by (simp only: power_mod)
  qed
  also have "(x * x) ^ (2 ^ length ks) = x ^ (2 ^ length (k # ks))"
    by (simp add: power_mult power2_eq_square)
  finally show ?case .
qed

definition proth_quotients :: "int list" where
  "proth_quotients =
   [0, 15, 10287135305, 101143347198, 5953602373, 22274811477, 48841172769, 21882690702,
    2485294877, 145664509314, 47314307555, 55530931239, 152371351838, 92433171555, 38183936904,
    59381842589, 93210851122, 105225457043, 106764808617, 29514367208, 2545258882, 12476781848,
    46931214636, 45461197712, 28568926333, 60401888080, 128114960133, 196471948034,
    16753565020, 81973979412, 186895848238, 157407375297, 38678841794, 28186368315, 37213877713]"

lemma proth_certificate: "repeated_square proth_quotients 1331 = ref_order - 1"
  by (simp add: proth_quotients_def ref_order_def)

lemma proth_power: "1331 ^ (2 ^ length proth_quotients) mod ref_order = ref_order - 1"
proof -
  have "(ref_order - 1) mod ref_order = ref_order - 1" by (simp add: ref_order_def)
  then show ?thesis
    using repeated_square_power [of proth_quotients 1331] unfolding proth_certificate
    by (rule box_equals [OF refl, rotated])
qed

lemma proth:
  fixes b p d :: int
  assumes d: "1 < d" "d < p" and odd_p: "odd p"
    and cert: "b ^ (2 ^ n) mod p = p - 1" and large: "p < 2 ^ Suc n * 2 ^ Suc n"
  shows "\<not> d dvd p"
proof
  assume "d dvd p"
  define q where "q = int (LEAST n. 1 < n \<and> int n dvd p)"
  have ex: "1 < nat d \<and> int (nat d) dvd p" using d(1) \<open>d dvd p\<close> by simp
  have q: "1 < q" "q dvd p"
    using LeastI [of "\<lambda>n. 1 < n \<and> int n dvd p", OF ex] by (simp_all add: q_def)
  have least: "q \<le> x" if "1 < x" "x dvd p" for x
    using that Least_le [of "\<lambda>n. 1 < n \<and> int n dvd p" "nat x"] by (simp add: q_def)
  have "q < p" using least [OF d(1) \<open>d dvd p\<close>] d(2) by simp
  obtain r where r: "p = q * r" using q(2) by blast
  have pos: "0 < p" using d by simp
  have "1 < r"
  proof -
    have "0 < r" using r pos q(1) by (metis zero_less_mult_pos less_trans zero_less_one)
    moreover have "r \<noteq> 1" using r \<open>q < p\<close> by auto
    ultimately show ?thesis by simp
  qed
  then have "q \<le> r" using r by (intro least) (simp, metis dvd_triv_right)
  then have sq: "q * q \<le> p" unfolding r using q(1) by simp
  have units: "coprime x q" if "0 < x" "x < q" for x
  proof -
    have "gcd x q dvd p" using q(2) by (meson dvd_trans gcd_dvd2)
    moreover have "gcd x q \<le> x" using that by (simp add: zdvd_imp_le)
    ultimately have "\<not> 1 < gcd x q" using least [of "gcd x q"] that(2) by linarith
    moreover have "0 < gcd x q" using that by simp
    ultimately have "gcd x q = 1" by linarith
    then show ?thesis by (simp add: coprime_iff_gcd_eq_1)
  qed
  have odd_q: "2 < q"
  proof -
    have "q \<noteq> 2" using q(2) odd_p by auto
    with q(1) show ?thesis by simp
  qed
  have at_q: "b ^ (2 ^ n) mod q = q - 1"
  proof -
    have "b ^ (2 ^ n) mod q = b ^ (2 ^ n) mod p mod q"
      by (rule mod_mod_cancel [OF q(2), symmetric])
    also have "\<dots> = (p - 1) mod q" by (simp only: cert)
    also have "\<dots> = (q * r - 1) mod q" by (simp only: r)
    also have "\<dots> = (- 1) mod q" using mod_mult_self2 [of "- 1" q r] by simp
    also have "\<dots> = q - 1" using zmod_minus1 [of q] q(1) by linarith
    finally show ?thesis .
  qed
  have "coprime b q"
  proof -
    have "coprime (b ^ (2 ^ n)) q"
    proof (rule coprimeI)
      fix c assume c: "c dvd b ^ (2 ^ n)" "c dvd q"
      then have "c dvd b ^ (2 ^ n) mod q" by (rule dvd_mod)
      then have "c dvd q - 1" unfolding at_q .
      from dvd_diff [OF c(2) this] show "is_unit c" by simp
    qed
    then show ?thesis by (simp only: coprime_power_left_iff) simp
  qed
  then have "b ^ nat (q - 1) mod q = 1"
    using fermat_little [OF q(1), of b] units by blast
  moreover have "0 < nat (q - 1)" using q(1) by simp
  ultimately have "2 ^ Suc n dvd nat (q - 1)"
    by (rule proth_divisor [OF odd_q at_q])
  then have "2 ^ Suc n \<le> nat (q - 1)" using q(1) by (auto dest: dvd_imp_le)
  then have "int (2 ^ Suc n) \<le> q - 1" using q(1) by linarith
  then have less: "2 ^ Suc n < q" by simp
  then have "2 ^ Suc n * 2 ^ Suc n < q * q" using q(1) by (intro mult_strict_mono) auto
  with sq large show False by linarith
qed

lemma ref_order_prime:
  assumes "1 < d" "d < ref_order"
  shows "\<not> d dvd ref_order"
  using assms
proof (rule proth)
  show "odd ref_order" by (simp add: ref_order_def)
  show "1331 ^ (2 ^ length proth_quotients) mod ref_order = ref_order - 1" by (rule proth_power)
  have "length proth_quotients = 35" by (simp add: proth_quotients_def)
  then show "ref_order < 2 ^ Suc (length proth_quotients) * 2 ^ Suc (length proth_quotients)"
    by (simp add: ref_order_def)
qed

section \<open>The field\<close>

typedef ref_scalar = "{0..<ref_order}"
  by (rule exI [of _ 0]) (simp add: ref_order_def)

setup_lifting type_definition_ref_scalar

lemma ref_order_pos [simp]: "0 < ref_order" "1 < ref_order" "0 \<le> ref_order"
  by (simp_all add: ref_order_def)

lemma ref_mod_range [simp]: "0 \<le> x mod ref_order" "x mod ref_order < ref_order"
  by simp_all

text \<open>The inverse comes from the extended Euclidean algorithm.\<close>

definition ref_inverse :: "int \<Rightarrow> int" where
  "ref_inverse x = fst (bezw (nat x) (nat ref_order)) mod ref_order"

lemma ref_inverse_correct:
  assumes "0 < x" "x < ref_order"
  shows "ref_inverse x * x mod ref_order = 1"
proof -
  let ?b = "bezw (nat x) (nat ref_order)"
  have "gcd x ref_order dvd ref_order" "gcd x ref_order \<le> x" "0 < gcd x ref_order"
    using assms(1) by (simp_all add: zdvd_imp_le)
  then have "gcd x ref_order = 1"
    using ref_order_prime [of "gcd x ref_order"] assms(2)
    by (metis int_one_le_iff_zero_less order_le_less_trans order_less_le)
  moreover have "int (gcd (nat x) (nat ref_order)) = gcd x ref_order"
    using assms(1) by (simp flip: gcd_int_int_eq)
  ultimately have "fst ?b * x + snd ?b * ref_order = 1"
    using bezw_aux [of "nat x" "nat ref_order"] assms(1) by simp
  then have "(fst ?b * x + snd ?b * ref_order) mod ref_order = 1" by simp
  then show ?thesis by (simp add: ref_inverse_def mod_mult_left_eq)
qed

instantiation ref_scalar :: field
begin

lift_definition zero_ref_scalar :: ref_scalar is 0 by simp

lift_definition one_ref_scalar :: ref_scalar is 1 by simp

lift_definition plus_ref_scalar :: "ref_scalar \<Rightarrow> ref_scalar \<Rightarrow> ref_scalar"
  is "\<lambda>x y. (x + y) mod ref_order" by simp

lift_definition minus_ref_scalar :: "ref_scalar \<Rightarrow> ref_scalar \<Rightarrow> ref_scalar"
  is "\<lambda>x y. (x - y) mod ref_order" by simp

lift_definition uminus_ref_scalar :: "ref_scalar \<Rightarrow> ref_scalar"
  is "\<lambda>x. (- x) mod ref_order" by simp

lift_definition times_ref_scalar :: "ref_scalar \<Rightarrow> ref_scalar \<Rightarrow> ref_scalar"
  is "\<lambda>x y. (x * y) mod ref_order" by simp

lift_definition inverse_ref_scalar :: "ref_scalar \<Rightarrow> ref_scalar"
  is "\<lambda>x. if x = 0 then 0 else ref_inverse x" by (simp add: ref_inverse_def)

definition divide_ref_scalar :: "ref_scalar \<Rightarrow> ref_scalar \<Rightarrow> ref_scalar" where
  "divide_ref_scalar x y = x * inverse y"

instance
proof
  fix a b c :: ref_scalar
  show "a * b * c = a * (b * c)"
    by transfer (simp add: mod_mult_left_eq mod_mult_right_eq mult.assoc)
  show "a * b = b * a" by transfer (simp add: mult.commute)
  show "1 * a = a" by transfer simp
  show "a + b + c = a + (b + c)"
    by transfer (simp add: mod_add_left_eq mod_add_right_eq add.assoc)
  show "a + b = b + a" by transfer (simp add: add.commute)
  show "0 + a = a" by transfer simp
  show "- a + a = 0" by transfer (simp add: mod_add_left_eq)
  show "a - b = a + - b" by transfer (simp add: mod_add_right_eq)
  show "(a + b) * c = a * c + b * c"
    by transfer (simp add: mod_mult_left_eq mod_add_eq distrib_right)
  show "(0::ref_scalar) \<noteq> 1" by transfer simp
  show "a \<noteq> 0 \<Longrightarrow> inverse a * a = 1" by transfer (simp add: ref_inverse_correct)
  show "a div b = a * inverse b" by (simp add: divide_ref_scalar_def)
  show "inverse (0::ref_scalar) = 0" by transfer simp
qed

end

lemma Rep_ref_of_nat: "Rep_ref_scalar (of_nat n) = int n mod ref_order"
proof (induction n)
  case 0
  then show ?case by (simp add: zero_ref_scalar.rep_eq)
next
  case (Suc n)
  then show ?case
    by (simp add: plus_ref_scalar.rep_eq one_ref_scalar.rep_eq mod_add_right_eq add.commute)
qed

lemma ref_fr_of_u32_inj: "(fr_of_u32 i :: ref_scalar) = fr_of_u32 j \<Longrightarrow> i = j"
proof -
  assume "(fr_of_u32 i :: ref_scalar) = fr_of_u32 j"
  then have "int (unat i) mod ref_order = int (unat j) mod ref_order"
    by (metis fr_of_u32_def Rep_ref_of_nat)
  moreover have "int (unat k) < ref_order" for k :: u32
  proof -
    have "int (unat k) < int 206158430209"
      using unat_u32_bound [of k] by (simp only: of_nat_less_iff) simp
    then show ?thesis by (simp only: ref_order_def of_nat_numeral)
  qed
  ultimately show ?thesis by (simp add: word_uint_eq_iff)
qed

instantiation ref_scalar :: equal
begin

definition equal_ref_scalar :: "ref_scalar \<Rightarrow> ref_scalar \<Rightarrow> bool" where
  "equal_ref_scalar x y \<longleftrightarrow> Rep_ref_scalar x = Rep_ref_scalar y"

instance
  by standard (simp add: equal_ref_scalar_def Rep_ref_scalar_inject)

end

lift_definition ref_of_int :: "int \<Rightarrow> ref_scalar" is "\<lambda>n. n mod ref_order" by simp

lemma of_nat_ref_code [code_unfold]: "(of_nat n :: ref_scalar) = ref_of_int (int n)"
  by (simp add: Rep_ref_scalar_inject [symmetric] Rep_ref_of_nat ref_of_int.rep_eq)

lemma numeral_ref_code [code_unfold]: "(numeral k :: ref_scalar) = ref_of_int (numeral k)"
  by (metis of_nat_ref_code of_nat_numeral)

section \<open>The reference backend\<close>

text \<open>
  The stand-ins for the hash functions compute a padded one-byte checksum; the stand-in
  for AES-GCM appends a tag computed from the key, the nonce and the associated data.  They are
  not secure and need not be: they exhibit the laws.
\<close>

definition ref_hash :: "nat \<Rightarrow> bytes \<Rightarrow> bytes" where
  "ref_hash n b = take n (fold (\<lambda>x a. 3 * a + x) b 1 # replicate n 0)"

definition ref_scalar_bytes :: "ref_scalar \<Rightarrow> bytes" where
  "ref_scalar_bytes s = le_bytes 32 (nat (Rep_ref_scalar s))"

definition ref_scalar_parse :: "bytes \<Rightarrow> ref_scalar option" where
  "ref_scalar_parse b =
    (if length b = 32 \<and> int (of_le_bytes b) < ref_order
     then Some (ref_of_int (int (of_le_bytes b))) else None)"

definition ref_backend :: "(ref_scalar, ref_scalar) backend" where
  "ref_backend = \<lparr>
    generator = 1,
    smul = (*),
    scalar_to_bytes = ref_scalar_bytes,
    scalar_from_bytes = ref_scalar_parse,
    scalar_from_bytes_wide = (\<lambda>b. ref_of_int (int (of_le_bytes b))),
    point_to_bytes = ref_scalar_bytes,
    point_from_bytes = ref_scalar_parse,
    sha256 = ref_hash 32,
    sha512 = ref_hash 64,
    blake2b512 = ref_hash 64,
    hkdf_sha256_expand = (\<lambda>ikm info. Some (ref_hash 32 (ikm @ info))),
    aes256gcm_encrypt = (\<lambda>key nonce aad msg. Some (msg @ ref_hash 16 (key @ nonce @ aad))),
    aes256gcm_decrypt = (\<lambda>key nonce aad ct.
      if length ct < 16 \<or> drop (length ct - 16) ct \<noteq> ref_hash 16 (key @ nonce @ aad) then None
      else Some (take (length ct - 16) ct))\<rparr>"

lemmas ref_backend_simps [simp] =
  ref_backend_def [THEN arg_cong, of generator, simplified backend.simps]
  ref_backend_def [THEN arg_cong, of smul, simplified backend.simps]
  ref_backend_def [THEN arg_cong, of scalar_to_bytes, simplified backend.simps]
  ref_backend_def [THEN arg_cong, of point_to_bytes, simplified backend.simps]

lemma ref_Rep_range: "0 \<le> Rep_ref_scalar s" "Rep_ref_scalar s < ref_order"
  using Rep_ref_scalar [of s] by auto

lemma ref_scalar_bytes_code [code]: "ref_scalar_bytes s = le_bytes_int 32 (Rep_ref_scalar s)"
  unfolding ref_scalar_bytes_def by (rule le_bytes_nat) (rule ref_Rep_range)

lemma ref_parse_bytes: "ref_scalar_parse (ref_scalar_bytes s) = Some s"
proof -
  have "nat (Rep_ref_scalar s) < 256 ^ 32"
    using ref_Rep_range [of s] by (simp add: ref_order_def nat_less_iff)
  then have "of_le_bytes (ref_scalar_bytes s) = nat (Rep_ref_scalar s)"
    by (simp add: ref_scalar_bytes_def of_le_bytes_le_bytes)
  moreover have "ref_of_int (Rep_ref_scalar s) = s"
    using ref_Rep_range [of s]
    by (simp add: Rep_ref_scalar_inject [symmetric] ref_of_int.rep_eq)
  ultimately show ?thesis
    using ref_Rep_range [of s] by (simp add: ref_scalar_parse_def ref_scalar_bytes_def)
qed

lemma ref_parse_canonical:
  "ref_scalar_parse b = Some s \<Longrightarrow> ref_scalar_bytes s = b"
  by (auto simp: ref_scalar_parse_def ref_scalar_bytes_def ref_of_int.rep_eq
      le_bytes_of_le_bytes split: if_splits)

interpretation reference: lawful_backend ref_backend
proof (rule lawful_backend.intro)
  show "module (smul ref_backend)" by (simp add: scalars.module_axioms)
  fix a :: ref_scalar
  show "smul ref_backend a (generator ref_backend) = 0 \<Longrightarrow> a = 0" by simp
next
  fix P :: ref_scalar
  show "\<exists>a. P = smul ref_backend a (generator ref_backend)" by simp
next
  fix i j :: u32
  show "(fr_of_u32 i :: ref_scalar) = fr_of_u32 j \<Longrightarrow> i = j" by (rule ref_fr_of_u32_inj)
next
  fix b :: bytes and s :: ref_scalar
  show "scalar_from_bytes_wide ref_backend b = of_nat (of_le_bytes b)"
    by (simp add: ref_backend_def of_nat_ref_code)
  show "length (scalar_to_bytes ref_backend s) = 32" "length (point_to_bytes ref_backend s) = 32"
    by (simp_all add: ref_backend_def ref_scalar_bytes_def)
  show "scalar_from_bytes ref_backend (scalar_to_bytes ref_backend s) = Some s"
    "point_from_bytes ref_backend (point_to_bytes ref_backend s) = Some s"
    by (simp_all add: ref_backend_def ref_parse_bytes)
  show "scalar_from_bytes ref_backend b = Some s \<Longrightarrow> scalar_to_bytes ref_backend s = b"
    "point_from_bytes ref_backend b = Some s \<Longrightarrow> point_to_bytes ref_backend s = b"
    by (simp_all add: ref_backend_def ref_parse_canonical)
next
  fix key nonce aad msg ct :: bytes
  have len: "length (ref_hash k x) = k" for k x by (simp add: ref_hash_def)
  show "aes256gcm_encrypt ref_backend key nonce aad msg = Some ct \<Longrightarrow>
      aes256gcm_decrypt ref_backend key nonce aad ct = Some msg"
    by (auto simp: ref_backend_def len)
  show "aes256gcm_encrypt ref_backend key nonce aad msg = Some ct \<Longrightarrow> length ct = length msg + 16"
    by (auto simp: ref_backend_def len)
  show "length (sha256 ref_backend msg) = 32"
    by (simp add: ref_backend_def len)
qed

end
