(* ===== verification/Dkg_Security.thy ===== *)
theory Dkg_Security
  imports Dkg_Correctness Reference_Field
begin

text \<open>
  The properties of distributed key generation: agreement of shares, public polynomial and
  public key, threshold reconstruction, completeness of dealing, complaints about bad shares,
  and the preservation of the key by refresh and reshare.  The witnesses run two nodes over the
  reference field of \<open>Reference_Field\<close>.
\<close>

lemma sort_eq_Nil [simp]: "sort xs = [] \<longleftrightarrow> xs = []"
  by (metis set_empty set_sort)

section \<open>Aggregation in a fresh or refresh session\<close>

context lawful_backend
begin

text \<open>
  Stored shares and stored commitments have the same senders once both are complete, so the
  sum of the shares is the discrete logarithm of the sum of the committed values.
\<close>

lemma stored_shares_sum:
  assumes inv: "node_inv B n"
    and len: "length (nd_received_shares n) = length (nd_received_commitments n)"
  shows "smul B (\<Sum>v\<leftarrow>map snd (nd_received_shares n). v) (generator B) =
    (\<Sum>C\<leftarrow>map snd (nd_received_commitments n).
      poly_value (smul B) (coefficients C) (fr_of_u32 (expected_receive_id n)))"
proof -
  let ?S = "nd_received_shares n" and ?C = "nd_received_commitments n"
  let ?x = "fr_of_u32 (expected_receive_id n) :: 'f"
  define ev where "ev k = poly_value (smul B) (coefficients (the (map_of ?C k))) ?x" for k
  have dS: "distinct (map fst ?S)" and dC: "distinct (map fst ?C)"
    and ver: "\<And>k v. (k, v) \<in> set ?S \<Longrightarrow>
      \<exists>C. map_of ?C k = Some C \<and> verify_share B C (expected_receive_id n) v"
    using inv by (auto simp: node_inv_def)
  have S_ev: "map (\<lambda>kv. smul B (snd kv) (generator B)) ?S = map (\<lambda>kv. ev (fst kv)) ?S"
    using ver by (fastforce simp: ev_def verify_share_iff)
  have C_ev: "map (\<lambda>kC. poly_value (smul B) (coefficients (snd kC)) ?x) ?C = map (\<lambda>kC. ev (fst kC)) ?C"
    using dC by (auto simp: ev_def map_of_eq_Some_iff)
  have "fst ` set ?S \<subseteq> fst ` set ?C"
    using ver by (force dest: map_of_SomeD)
  moreover have "card (fst ` set ?S) = length ?S" "card (fst ` set ?C) = length ?C"
    using distinct_card [OF dS] distinct_card [OF dC] by simp_all
  ultimately have keys: "set (map fst ?S) = set (map fst ?C)"
    using len by (simp add: card_subset_eq)
  have "smul B (\<Sum>v\<leftarrow>map snd ?S. v) (generator B) = (\<Sum>k\<leftarrow>map fst ?S. ev k)"
    using arg_cong [OF S_ev, of sum_list] by (simp add: smul_sum_list comp_def)
  also have "\<dots> = (\<Sum>k\<leftarrow>map fst ?C. ev k)"
    using keys dS dC by (simp only: sum.distinct_set_conv_list [symmetric])
  also have "\<dots> = (\<Sum>C\<leftarrow>map snd ?C. poly_value (smul B) (coefficients C) ?x)"
    using arg_cong [OF C_ev, of sum_list] by (simp add: comp_def)
  finally show ?thesis .
qed

lemma standard_public_polynomial:
  assumes "\<not> is_reshare_receiver n"
  shows "compute_public_polynomial B n = Inr P \<longleftrightarrow>
    length (nd_received_commitments n) = nd_total_nodes n - 1 \<and>
    coefficients (nd_commitment n) \<noteq> [] \<and>
    (\<forall>C \<in> set (map snd (nd_received_commitments n)).
      length (coefficients C) = length (coefficients (nd_commitment n))) \<and>
    P = \<lparr>commits = fold (\<lambda>C agg. map2 (+) agg (coefficients C))
      (map snd (nd_received_commitments n)) (coefficients (nd_commitment n))\<rparr>"
  using assms
  by (auto simp: compute_public_polynomial_def list_ex_iff result_simps split: if_splits)

lemma standard_public_polynomial_value:
  assumes "\<not> is_reshare_receiver n" "compute_public_polynomial B n = Inr P"
  shows "poly_value (smul B) (commits P) x = poly_value (smul B) (coefficients (nd_commitment n)) x
      + (\<Sum>C\<leftarrow>map snd (nd_received_commitments n). poly_value (smul B) (coefficients C) x)"
    and "length (commits P) = length (coefficients (nd_commitment n))"
  using assms(2) unfolding standard_public_polynomial [OF assms(1)]
  by (simp_all add: fold_map2_value)

lemma standard_share_matches:
  assumes "node_inv B n" "nd_role n = Standard"
    and "compute_secret_share n = Inr s" "compute_public_polynomial B n = Inr P"
  shows "smul B (pri_v s) (generator B) = pub_poly_eval B P (pri_i s)"
proof -
  have std: "\<not> is_reshare_receiver n" and ri: "expected_receive_id n = nd_id n"
    using assms(1,2) by (simp_all add: is_reshare_receiver_def node_inv_def expected_receive_id_def)
  have len: "length (nd_received_shares n) = length (nd_received_commitments n)"
    and s: "s = \<lparr>pri_i = nd_id n, pri_v = eval_polynomial n (nd_id n)
      + (\<Sum>v\<leftarrow>map snd (nd_received_shares n). v)\<rparr>"
    using assms(2,3,4) std
    by (auto simp: compute_secret_share_def standard_public_polynomial
        fold_sum_list [where f = "\<lambda>x. x"] split: if_splits)
  have own: "smul B (eval_polynomial n (nd_id n)) (generator B)
      = poly_value (smul B) (coefficients (nd_commitment n)) (fr_of_u32 (nd_id n))"
    using assms(1) by (simp add: node_inv_def poly_value_commit eval_polynomial_value)
  show ?thesis
    using stored_shares_sum [OF assms(1) len] standard_public_polynomial_value(1) [OF std assms(4)]
    by (simp add: s own ri points.scale_left_distrib pub_poly_eval_value)
qed

lemma standard_public_key:
  assumes "node_inv B n" "\<not> is_reshare_receiver n" "compute_public_polynomial B n = Inr P"
  shows "compute_aggregate_public_key B n = Inr (commits P ! 0) \<and> commits P \<noteq> []"
proof -
  note P = assms(3) [unfolded standard_public_polynomial [OF assms(2)]]
  have ne: "\<forall>C \<in> set (map snd (nd_received_commitments n)). coefficients C \<noteq> []"
    using assms(1) by (auto simp: node_inv_def)
  have nonempty: "commits P \<noteq> []"
    using standard_public_polynomial_value(2) [OF assms(2,3)] P by (metis length_0_conv)
  have "(\<Sum>C\<leftarrow>map snd (nd_received_commitments n). coefficients C ! 0)
      = (\<Sum>C\<leftarrow>map snd (nd_received_commitments n). poly_value (smul B) (coefficients C) 0)"
    using ne by (intro arg_cong [where f = sum_list] map_cong) (auto simp: points.poly_value_0)
  then have "commits P ! 0 = coefficients (nd_commitment n) ! 0
      + (\<Sum>C\<leftarrow>map snd (nd_received_commitments n). coefficients C ! 0)"
    using standard_public_polynomial_value(1) [OF assms(2,3), of 0] nonempty P
    by (simp add: points.poly_value_0)
  then show ?thesis
    using P nonempty assms(2)
    by (simp add: compute_aggregate_public_key_def fold_sum_list [where f = "\<lambda>C. coefficients C ! 0"])
qed

lemma reshare_participants_distinct: "reshare_participants n = Inr ps \<Longrightarrow> distinct ps \<and> ps \<noteq> []"
  by (auto simp: reshare_participants_def result_simps split: option.splits)

lemma participant_weight:
  "reshare_participants n = Inr ps \<Longrightarrow> lagrange_at_zero p ps = Inr (weight0 ps p :: 'f)"
  using reshare_participants_distinct by (blast intro: lagrange_at_zero_value)

lemma reshare_secret_share:
  fixes n :: "('f, 'g) dkg_node"
  assumes "is_reshare_receiver n" "reshare_participants n = Inr ps"
  shows "compute_secret_share n = Inr s \<longleftrightarrow>
    (\<forall>p \<in> set ps. \<exists>v. reshare_share_for n p = Inr v) \<and>
    s = \<lparr>pri_i = expected_receive_id n,
      pri_v = (\<Sum>p\<leftarrow>ps. weight0 ps p * projr (reshare_share_for n p))\<rparr>"
proof -
  note w = participant_weight [OF assms(2)]
  show ?thesis
    using assms
    by (auto simp: compute_secret_share_def is_reshare_receiver_def rbind_eq_Inr
        for_each_weighted [OF w])
qed

lemma reshare_public_key:
  assumes "is_reshare_receiver n" "reshare_participants n = Inr ps"
  shows "compute_aggregate_public_key B n = Inr pk \<longleftrightarrow>
    (\<forall>p \<in> set ps. \<exists>C. reshare_commitment_for n p = Inr C) \<and>
    pk = (\<Sum>p\<leftarrow>ps. smul B (weight0 ps p) (coefficients (projr (reshare_commitment_for n p)) ! 0))"
proof -
  note w = participant_weight [OF assms(2)]
  show ?thesis
    using assms
    by (simp add: compute_aggregate_public_key_def
        for_each_weighted [OF w, where act = "\<lambda>l C. smul B l (coefficients C ! 0)"])
qed

lemma reshare_public_polynomial:
  assumes "is_reshare_receiver n" "reshare_participants n = Inr ps"
    and "compute_public_polynomial B n = Inr P"
  obtains m where "length (commits P) = m"
    "\<And>p. p \<in> set ps \<Longrightarrow> \<exists>C. reshare_commitment_for n p = Inr C \<and> length (coefficients C) = m"
    "\<And>x. poly_value (smul B) (commits P) x = (\<Sum>p\<leftarrow>ps. smul B (weight0 ps p)
      (poly_value (smul B) (coefficients (projr (reshare_commitment_for n p))) x))"
proof -
  note w = participant_weight [OF assms(2)]
  obtain first where first: "reshare_commitment_for n (ps ! 0) = Inr first"
    using assms by (auto simp: compute_public_polynomial_def result_simps)
  define m where "m = length (coefficients first)"
  have loop: "for_each (\<lambda>p agg. rbind (lagrange_at_zero p ps) (\<lambda>lambda.
      rbind (reshare_commitment_for n p) (\<lambda>C. if length (coefficients C) \<noteq> m
        then Inl (DKGError ''Commitment from node {} has inconsistent length: expected {}, got {}'')
        else Inr (map2 (+) agg (map (smul B lambda) (coefficients C)))))) ps (replicate m 0)
      = Inr (commits P)"
    using assms first by (auto simp: compute_public_polynomial_def Let_def m_def rbind_eq_Inr)
  show ?thesis
  proof (rule that)
    show "length (commits P) = m"
      using for_each_map2_value [OF w _ loop] by simp
    show "\<exists>C. reshare_commitment_for n p = Inr C \<and> length (coefficients C) = m" if "p \<in> set ps" for p
      using for_each_map2_value [OF w _ loop] that by simp
    show "poly_value (smul B) (commits P) x = (\<Sum>p\<leftarrow>ps. smul B (weight0 ps p)
      (poly_value (smul B) (coefficients (projr (reshare_commitment_for n p))) x))" for x
      using for_each_map2_value [OF w _ loop, of x] by simp
  qed
qed

lemma reshare_share_verifies:
  assumes "node_inv B n" "reshare_share_for n p = Inr v" "reshare_commitment_for n p = Inr C"
  shows "smul B v (generator B)
    = poly_value (smul B) (coefficients C) (fr_of_u32 (expected_receive_id n))"
proof (cases "nd_role n = DealerReceiver \<and> p = nd_id n")
  case True
  then show ?thesis
    using assms
    by (auto simp: reshare_share_for_def reshare_commitment_for_def node_inv_def
        poly_value_commit eval_polynomial_value split: if_splits)
next
  case False
  then have "map_of (nd_received_shares n) p = Some v" "map_of (nd_received_commitments n) p = Some C"
    using assms by (auto simp: reshare_share_for_def reshare_commitment_for_def result_simps)
  then show ?thesis
    using assms(1) by (fastforce simp: node_inv_def verify_share_iff dest: map_of_SomeD)
qed

lemma reshare_commitment_nonempty:
  "node_inv B n \<Longrightarrow> reshare_commitment_for n p = Inr C \<Longrightarrow> coefficients C \<noteq> []"
  by (force simp: reshare_commitment_for_def node_inv_def result_simps
      dest: map_of_SomeD split: if_splits)

lemma reshare_share_matches:
  assumes "node_inv B n" "is_reshare_receiver n"
    and s: "compute_secret_share n = Inr s" and P: "compute_public_polynomial B n = Inr P"
  shows "smul B (pri_v s) (generator B) = pub_poly_eval B P (pri_i s)"
proof -
  obtain ps where ps: "reshare_participants n = Inr ps"
    using assms(2) P by (auto simp: compute_public_polynomial_def result_simps)
  obtain m where m: "length (commits P) = m"
    and C: "\<And>p. p \<in> set ps \<Longrightarrow> \<exists>C. reshare_commitment_for n p = Inr C \<and> length (coefficients C) = m"
    and val: "\<And>x. poly_value (smul B) (commits P) x = (\<Sum>p\<leftarrow>ps. smul B (weight0 ps p)
      (poly_value (smul B) (coefficients (projr (reshare_commitment_for n p))) x))"
    by (rule reshare_public_polynomial [OF assms(2) ps P]) blast
  note S = s [unfolded reshare_secret_share [OF assms(2) ps]]
  have each: "smul B (weight0 ps p * projr (reshare_share_for n p)) (generator B)
      = smul B (weight0 ps p) (poly_value (smul B) (coefficients (projr (reshare_commitment_for n p)))
          (fr_of_u32 (expected_receive_id n)))" if "p \<in> set ps" for p
    using S C [OF that] that reshare_share_verifies [OF assms(1)]
    by (auto simp flip: points.scale_scale)
  show ?thesis
    using S each by (simp add: smul_sum_list pub_poly_eval_value val cong: map_cong)
qed

lemma reshare_key_matches:
  assumes "node_inv B n" "is_reshare_receiver n" "compute_public_polynomial B n = Inr P"
  shows "compute_aggregate_public_key B n = Inr (commits P ! 0) \<and> commits P \<noteq> []"
proof -
  obtain ps where ps: "reshare_participants n = Inr ps"
    using assms by (auto simp: compute_public_polynomial_def result_simps)
  obtain m where m: "length (commits P) = m"
    and C: "\<And>p. p \<in> set ps \<Longrightarrow> \<exists>C. reshare_commitment_for n p = Inr C \<and> length (coefficients C) = m"
    and val: "\<And>x. poly_value (smul B) (commits P) x = (\<Sum>p\<leftarrow>ps. smul B (weight0 ps p)
      (poly_value (smul B) (coefficients (projr (reshare_commitment_for n p))) x))"
    by (rule reshare_public_polynomial [OF assms(2) ps assms(3)]) blast
  have ne: "coefficients (projr (reshare_commitment_for n p)) \<noteq> []" if "p \<in> set ps" for p
    using C [OF that] reshare_commitment_nonempty [OF assms(1)] by fastforce
  have "commits P \<noteq> []"
    using reshare_participants_distinct [OF ps] C [of "ps ! 0"] m
      reshare_commitment_nonempty [OF assms(1)] by fastforce
  moreover have "\<forall>p \<in> set ps. \<exists>C. reshare_commitment_for n p = Inr C" using C by blast
  ultimately show ?thesis
    using val [of 0] ne by (simp add: reshare_public_key [OF assms(2) ps] points.poly_value_0
        cong: map_cong)
qed

end

lemma share_on_polynomial:
  assumes "lawful_backend B" "dkg_reachable B n"
    and "compute_secret_share n = Inr s" "compute_public_polynomial B n = Inr P"
  shows "smul B (pri_v s) (generator B) = pub_poly_eval B P (pri_i s)"
proof -
  have inv: "node_inv B n" using assms(2) by (rule dkg.reachable_inv)
  have "nd_role n \<noteq> Dealer" using assms(3) by (auto simp: compute_secret_share_def)
  then consider "nd_role n = Standard" | "is_reshare_receiver n"
    by (cases "nd_role n") (auto simp: is_reshare_receiver_def)
  then show ?thesis
    using lawful_backend.standard_share_matches [OF assms(1) inv]
      lawful_backend.reshare_share_matches [OF assms(1) inv] assms(3,4) by cases blast+
qed

lemma key_of_polynomial:
  assumes "lawful_backend B" "dkg_reachable B n" "compute_public_polynomial B n = Inr P"
  shows "compute_aggregate_public_key B n = Inr (commits P ! 0)" "commits P \<noteq> []"
proof -
  have inv: "node_inv B n" using assms(2) by (rule dkg.reachable_inv)
  have "compute_aggregate_public_key B n = Inr (commits P ! 0) \<and> commits P \<noteq> []"
    using lawful_backend.standard_public_key [OF assms(1) inv _ assms(3)]
      lawful_backend.reshare_key_matches [OF assms(1) inv _ assms(3)] by blast
  then show "compute_aggregate_public_key B n = Inr (commits P ! 0)" "commits P \<noteq> []" by simp_all
qed

section \<open>Reconstruction and dealing\<close>

context lawful_backend
begin

lemma reconstruct:
  assumes "\<And>s. s \<in> set ss \<Longrightarrow> smul B (pri_v s) (generator B) = pub_poly_eval B P (pri_i s)"
    and "distinct (map pri_i ss)" "length (commits P) \<le> length ss" "commits P \<noteq> []"
  shows "\<exists>ws. traverse (\<lambda>s. lagrange_at_zero (pri_i s) (map pri_i ss)) ss = Inr ws \<and>
    smul B (\<Sum>(w, s)\<leftarrow>zip ws ss. w * pri_v s) (generator B) = commits P ! 0"
proof (intro exI conjI)
  let ?w = "\<lambda>s. weight0 (map pri_i ss) (pri_i s) :: 'f"
  show "traverse (\<lambda>s. lagrange_at_zero (pri_i s) (map pri_i ss)) ss = Inr (map ?w ss)"
    using assms(2) by (intro traverse_total) (simp add: lagrange_at_zero_value)
  have "smul B (\<Sum>(w, s)\<leftarrow>zip (map ?w ss) ss. w * pri_v s) (generator B)
      = (\<Sum>s\<leftarrow>ss. smul B (?w s) (smul B (pri_v s) (generator B)))"
    by (simp add: zip_map_self smul_sum_list comp_def)
  also have "\<dots> = (\<Sum>s\<leftarrow>ss. smul B (?w s) (poly_value (smul B) (commits P) (fr_of_u32 (pri_i s))))"
    using assms(1) by (simp add: pub_poly_eval_value cong: map_cong)
  also have "\<dots> = commits P ! 0"
    using interpolate_at_zero [of "map pri_i ss" "commits P"] assms(2-4) by (simp add: comp_def)
  finally show "smul B (\<Sum>(w, s)\<leftarrow>zip (map ?w ss) ss. w * pri_v s) (generator B) = commits P ! 0" .
qed

lemma combine_pub_polys:
  assumes "commits D \<noteq> []" "length (commits P) = length (commits D)" "length (commits P) < 2 ^ 32"
    and "commits D ! 0 = 0" "smul B v (generator B) = pub_poly_eval B P i"
    and "smul B d (generator B) = pub_poly_eval B D i"
  shows "\<exists>new P'. combine_pub_poly_bytes B (pub_poly_to_bytes B P) (pub_poly_to_bytes B D) = Inr new \<and>
    pub_poly_from_bytes B new = Inr P' \<and> commits P' ! 0 = commits P ! 0 \<and>
    smul B (v + d) (generator B) = pub_poly_eval B P' i"
proof (intro exI conjI)
  let ?P' = "\<lparr>commits = map2 (+) (commits P) (commits D)\<rparr>"
  show "combine_pub_poly_bytes B (pub_poly_to_bytes B P) (pub_poly_to_bytes B D)
      = Inr (pub_poly_to_bytes B ?P')"
    using assms(2,3)
    by (simp add: combine_pub_poly_bytes_def pub_poly_from_bytes_def pub_poly_to_bytes_def points_roundtrip)
  show "pub_poly_from_bytes B (pub_poly_to_bytes B ?P') = Inr ?P'"
    using assms(2,3) by (simp add: pub_poly_from_bytes_def pub_poly_to_bytes_def points_roundtrip)
  show "commits ?P' ! 0 = commits P ! 0"
    using assms(1,2,4) by simp
  show "smul B (v + d) (generator B) = pub_poly_eval B ?P' i"
    using assms(2,5,6)
    by (simp add: pub_poly_eval_value points.poly_value_map2_add points.scale_left_distrib)
qed

lemma identity_terms_key:
  assumes "node_inv B n" "nd_role n = Standard" "compute_public_polynomial B n = Inr D"
    and "constant_term_is_identity (nd_commitment n)"
    and "list_all (\<lambda>(k, C). constant_term_is_identity C) (nd_received_commitments n)"
  shows "commits D ! 0 = 0"
proof -
  have std: "\<not> is_reshare_receiver n" using assms(2) by (simp add: is_reshare_receiver_def)
  have zero: "poly_value (smul B) (coefficients C) 0 = 0" if "constant_term_is_identity C" for C
    using that by (auto simp: constant_term_is_identity_def points.poly_value_0 split: list.splits)
  have "(\<Sum>C\<leftarrow>map snd xs. poly_value (smul B) (coefficients C) 0) = 0"
    if "list_all (\<lambda>(k, C). constant_term_is_identity C) xs" for xs :: "(u32 \<times> 'g polynomial_commitment) list"
    using that zero by (induction xs) auto
  from this [OF assms(5)] show ?thesis
    using standard_public_polynomial_value(1) [OF std assms(3), of 0] zero [OF assms(4)]
      standard_public_key [OF assms(1) std assms(3)] by (simp add: points.poly_value_0)
qed

lemma own_share_verifies:
  "node_inv B n \<Longrightarrow> verify_share B (nd_commitment n) i (eval_polynomial n i)"
  by (simp add: node_inv_def verify_share_iff eval_polynomial_value poly_value_commit)

end

lemma deal_shares_Some:
  assumes "16 * length to_ids \<le> length rng"
  obtains shares rng' where "deal_shares n to_ids rng = Some (shares, rng')"
    "map ds_to_id shares = to_ids"
    "list_all (\<lambda>s. ds_from_id s = nd_id n \<and> ds_session_id s = nd_session_id n \<and>
      ds_value s = eval_polynomial n (ds_to_id s)) shares"
  using assms
proof (induction to_ids arbitrary: rng thesis)
  case Nil
  then show ?case by simp
next
  case (Cons i js)
  then have "16 * length js \<le> length (drop 16 rng)" by simp
  then obtain shares rng' where "deal_shares n js (drop 16 rng) = Some (shares, rng')"
    "map ds_to_id shares = js"
    "list_all (\<lambda>s. ds_from_id s = nd_id n \<and> ds_session_id s = nd_session_id n \<and>
      ds_value s = eval_polynomial n (ds_to_id s)) shares"
    using Cons.IH by blast
  with Cons.prems show ?case by (simp add: fill_bytes_def)
qed

lemma deal_shares_values:
  "deal_shares n to_ids rng = Some (shares, rng') \<Longrightarrow> s \<in> set shares \<Longrightarrow>
    ds_from_id s = nd_id n \<and> ds_session_id s = nd_session_id n \<and>
    ds_value s = eval_polynomial n (ds_to_id s)"
  by (induction n to_ids rng arbitrary: shares rng' rule: deal_shares.induct)
    (auto split: option.splits)

lemma generate_shares_values:
  assumes "generate_shares n rng = Some (Inr shares, rng')" "s \<in> set shares"
  shows "ds_from_id s = nd_id n \<and> ds_session_id s = nd_session_id n \<and>
    ds_value s = eval_polynomial n (ds_to_id s)"
  using assms
  by (auto simp: generate_shares_def split: if_splits option.splits dest: deal_shares_values)

section \<open>A run over the reference field\<close>

text \<open>
  Node 1 of a two-of-two committee: it generates its polynomial \<open>0 + 5x\<close> (refresh mode, one
  random scalar from the tape), stores the commitment of node 2 to \<open>3 + 7x\<close> and accepts node
  2's share.
\<close>

definition ex_tape :: bytes where
  "ex_tape = 5 # replicate 31 0"

definition ex_node0 :: "(ref_scalar, ref_scalar) dkg_node" where
  "ex_node0 = \<lparr>nd_id = 1, nd_threshold = 2, nd_total_nodes = 2, nd_role = Standard,
     nd_effective_total_nodes = 2, nd_effective_threshold = 2, nd_effective_receive_id = None,
     nd_polynomial_coeffs = [], nd_commitment = \<lparr>coefficients = []\<rparr>, nd_received_shares = [],
     nd_received_commitments = [], nd_selected_reshare_participants = None,
     nd_session_id = 9, nd_complaints = []\<rparr>"

definition ex_node1 :: "(ref_scalar, ref_scalar) dkg_node" where
  "ex_node1 = ex_node0\<lparr>nd_polynomial_coeffs := [0, 5], nd_commitment := \<lparr>coefficients = [0, 5]\<rparr>\<rparr>"

definition ex_node2 :: "(ref_scalar, ref_scalar) dkg_node" where
  "ex_node2 = ex_node1\<lparr>nd_received_commitments := [(2, \<lparr>coefficients = [3, 7]\<rparr>)]\<rparr>"

definition ex_share :: "ref_scalar distributed_share" where
  "ex_share = \<lparr>ds_from_id = 2, ds_to_id = 1, ds_value = 10, ds_nonce = replicate 16 0,
     ds_session_id = 9\<rparr>"

definition ex_node3 :: "(ref_scalar, ref_scalar) dkg_node" where
  "ex_node3 = ex_node2\<lparr>nd_received_shares := [(2, 10)]\<rparr>"

lemma ex_step0: "dkg_new 1 2 2 9 Standard = Inr ex_node0"
  by (simp add: dkg_new_def ex_node0_def as_u32_def)

lemma ex_step1: "generate_polynomial ref_backend Refresh ex_tape ex_node0 = Some (Inr ex_node1, [])"
  by code_simp

lemma ex_step2: "receive_commitment 2 \<lparr>coefficients = [3, 7]\<rparr> ex_node1 = Inr ex_node2"
  by code_simp

lemma ex_step3: "receive_share ref_backend ex_share ex_node2 = (ex_node3, Inr ())"
  by code_simp

lemma ex_reachable: "dkg_reachable ref_backend ex_node0" "dkg_reachable ref_backend ex_node1"
  "dkg_reachable ref_backend ex_node2" "dkg_reachable ref_backend ex_node3"
proof -
  show 0: "dkg_reachable ref_backend ex_node0"
    by (rule reachable.start) (use ex_step0 in \<open>unfold dkg_init_def, blast\<close>)
  show 1: "dkg_reachable ref_backend ex_node1"
    by (rule reachable.step [OF 0 dkg_step.polynomial [OF _ ex_step1]])
      (simp add: mode_fits_def ex_node0_def)
  show 2: "dkg_reachable ref_backend ex_node2"
    by (rule reachable.step [OF 1 dkg_step.got_commitment [OF ex_step2]])
  show "dkg_reachable ref_backend ex_node3"
    by (rule reachable.step [OF 2 dkg_step.got_share [OF ex_step3]])
qed

lemma ex_results:
  "compute_secret_share ex_node3 = Inr \<lparr>pri_i = 1, pri_v = 15\<rparr>"
  "compute_public_polynomial ref_backend ex_node3 = Inr \<lparr>commits = [3, 12]\<rparr>"
  by code_simp+

text \<open>The same node when node 2 also contributes a zero constant term.\<close>

definition ex_refresh :: "(ref_scalar, ref_scalar) dkg_node" where
  "ex_refresh = ex_node1\<lparr>nd_received_commitments := [(2, \<lparr>coefficients = [0, 7]\<rparr>)],
     nd_received_shares := [(2, 7)]\<rparr>"

lemma ex_refresh_steps:
  "receive_commitment 2 \<lparr>coefficients = [0, 7]\<rparr> ex_node1
    = Inr (ex_node1\<lparr>nd_received_commitments := [(2, \<lparr>coefficients = [0, 7]\<rparr>)]\<rparr>)"
  "receive_share ref_backend (ex_share\<lparr>ds_value := 7\<rparr>)
    (ex_node1\<lparr>nd_received_commitments := [(2, \<lparr>coefficients = [0, 7]\<rparr>)]\<rparr>) = (ex_refresh, Inr ())"
  by code_simp+

lemma ex_refresh_reachable: "dkg_reachable ref_backend ex_refresh"
  by (rule reachable.step [OF reachable.step [OF ex_reachable(2)
        dkg_step.got_commitment [OF ex_refresh_steps(1)]] dkg_step.got_share [OF ex_refresh_steps(2)]])

text \<open>A new committee member that selected the two old dealers, whose shares are 15 and 27.\<close>

definition ex_receiver :: "(ref_scalar, ref_scalar) dkg_node" where
  "ex_receiver = ex_node0\<lparr>nd_role := Receiver, nd_selected_reshare_participants := Some [2, 1],
     nd_received_commitments := [(1, \<lparr>coefficients = [15, 4]\<rparr>), (2, \<lparr>coefficients = [27, 1]\<rparr>)]\<rparr>"

text \<open>Node 2 of the same committee, in fresh mode, with the polynomial \<open>3 + 7x\<close>.\<close>

definition ex_peer0 :: "(ref_scalar, ref_scalar) dkg_node" where
  "ex_peer0 = ex_node0\<lparr>nd_id := 2\<rparr>"

definition ex_peer1 :: "(ref_scalar, ref_scalar) dkg_node" where
  "ex_peer1 = ex_peer0\<lparr>nd_polynomial_coeffs := [3, 7], nd_commitment := \<lparr>coefficients = [3, 7]\<rparr>\<rparr>"

definition ex_peer2 :: "(ref_scalar, ref_scalar) dkg_node" where
  "ex_peer2 = ex_peer1\<lparr>nd_received_commitments := [(1, \<lparr>coefficients = [0, 5]\<rparr>)]\<rparr>"

definition ex_peer3 :: "(ref_scalar, ref_scalar) dkg_node" where
  "ex_peer3 = ex_peer2\<lparr>nd_received_shares := [(1, 10)]\<rparr>"

lemma ex_peer_step0: "dkg_new 2 2 2 9 Standard = Inr ex_peer0"
  by (simp add: dkg_new_def ex_peer0_def ex_node0_def as_u32_def)

lemma ex_peer_step1:
  "generate_polynomial ref_backend Fresh (3 # replicate 31 0 @ 7 # replicate 31 0) ex_peer0
    = Some (Inr ex_peer1, [])"
  by code_simp

lemma ex_shares:
  "generate_shares ex_peer1 (replicate 32 0)
    = Some (Inr [ex_share, ex_share\<lparr>ds_to_id := 2, ds_value := 17\<rparr>], [])"
  by code_simp

lemma ex_peer_step2: "receive_commitment 1 \<lparr>coefficients = [0, 5]\<rparr> ex_peer1 = Inr ex_peer2"
  by code_simp

lemma ex_peer_step3:
  "receive_share ref_backend (ex_share\<lparr>ds_from_id := 1, ds_to_id := 2\<rparr>) ex_peer2
    = (ex_peer3, Inr ())"
  by code_simp

lemma ex_peer_reachable: "dkg_reachable ref_backend ex_peer1" "dkg_reachable ref_backend ex_peer3"
proof -
  have 0: "dkg_reachable ref_backend ex_peer0"
    by (rule reachable.start) (use ex_peer_step0 in \<open>unfold dkg_init_def, blast\<close>)
  show 1: "dkg_reachable ref_backend ex_peer1"
    by (rule reachable.step [OF 0 dkg_step.polynomial [OF _ ex_peer_step1]])
      (simp add: mode_fits_def ex_peer0_def ex_node0_def)
  have 2: "dkg_reachable ref_backend ex_peer2"
    by (rule reachable.step [OF 1 dkg_step.got_commitment [OF ex_peer_step2]])
  show "dkg_reachable ref_backend ex_peer3"
    by (rule reachable.step [OF 2 dkg_step.got_share [OF ex_peer_step3]])
qed

lemma ex_peer_results:
  "compute_secret_share ex_peer3 = Inr \<lparr>pri_i = 2, pri_v = 27\<rparr>"
  "compute_public_polynomial ref_backend ex_peer3 = Inr \<lparr>commits = [3, 12]\<rparr>"
  by code_simp+

section \<open>Agreement of shares, public polynomial and public key\<close>

text \<open>
  C1: whatever the other participants sent, a node that computes both a secret share and a public
  polynomial holds a share that lies on that polynomial.  This covers fresh, refresh and reshare
  sessions and all roles.
\<close>

theorem secret_share_on_public_polynomial:
  assumes "lawful_backend B" "dkg_reachable B n"
    and "compute_secret_share n = Inr s" "compute_public_polynomial B n = Inr P"
  shows "smul B (pri_v s) (generator B) = pub_poly_eval B P (pri_i s)"
  using assms by (rule share_on_polynomial)

theorem secret_share_on_public_polynomial_witness:
  "smul ref_backend 15 (generator ref_backend) = pub_poly_eval ref_backend \<lparr>commits = [3, 12]\<rparr> 1"
  using secret_share_on_public_polynomial
    [OF reference.lawful_backend_axioms ex_reachable(4) ex_results] by simp

text \<open>
  The public key a node reports is the constant term of the public polynomial it reports,
  which is the value of that polynomial at zero.
\<close>

theorem public_key_is_constant_term:
  assumes "lawful_backend B" "dkg_reachable B n" "compute_public_polynomial B n = Inr P"
  shows "compute_aggregate_public_key B n = Inr (pub_poly_eval B P 0) \<and>
    pub_poly_eval B P 0 = commits P ! 0"
  using key_of_polynomial [OF assms] by (simp add: lawful_backend.pub_poly_eval_0 [OF assms(1)])

theorem public_key_is_constant_term_witness:
  "compute_aggregate_public_key ref_backend ex_node3 = Inr 3"
  using public_key_is_constant_term
    [OF reference.lawful_backend_axioms ex_reachable(4) ex_results(2)] by simp

text \<open>
  C2: threshold reconstruction.  Take nodes that agree on the public polynomial, at least as many
  as it has coefficients, with distinct indices.  The Lagrange coefficients the code computes
  for their indices exist, and the weighted sum of their secret shares is the discrete
  logarithm of the public key.
\<close>

theorem threshold_reconstruction:
  assumes B: "lawful_backend B"
    and nodes: "list_all2 (\<lambda>n s. dkg_reachable B n \<and> compute_secret_share n = Inr s \<and>
      compute_public_polynomial B n = Inr P) ns ss"
    and idx: "distinct (map pri_i ss)" and enough: "length (commits P) \<le> length ss"
    and P: "commits P \<noteq> []"
  shows "\<exists>ws. traverse (\<lambda>s. lagrange_at_zero (pri_i s) (map pri_i ss)) ss = Inr ws \<and>
    smul B (\<Sum>(w, s)\<leftarrow>zip ws ss. w * pri_v s) (generator B) = commits P ! 0"
proof -
  have shares: "smul B (pri_v s) (generator B) = pub_poly_eval B P (pri_i s)" if "s \<in> set ss" for s
    using that nodes by (auto simp: list_all2_conv_all_nth in_set_conv_nth
        intro: share_on_polynomial [OF B])
  show ?thesis
    by (rule lawful_backend.reconstruct [OF B shares idx enough P])
qed

theorem threshold_reconstruction_witness:
  "\<exists>ws. traverse (\<lambda>s. lagrange_at_zero (pri_i s) [1, 2])
      [\<lparr>pri_i = 1, pri_v = 15\<rparr>, \<lparr>pri_i = 2, pri_v = 27 :: ref_scalar\<rparr>] = Inr ws \<and>
    (\<Sum>(w, s)\<leftarrow>zip ws [\<lparr>pri_i = 1, pri_v = 15\<rparr>, \<lparr>pri_i = 2, pri_v = 27\<rparr>]. w * pri_v s) = (3 :: ref_scalar)"
  using threshold_reconstruction [where ns = "[ex_node3, ex_peer3]" and P = "\<lparr>commits = [3, 12]\<rparr>"
      and ss = "[\<lparr>pri_i = 1, pri_v = 15\<rparr>, \<lparr>pri_i = 2, pri_v = 27\<rparr>]",
      OF reference.lawful_backend_axioms]
    ex_reachable(4) ex_peer_reachable(2) ex_results ex_peer_results by simp

section \<open>Dealing\<close>

text \<open>
  dealing.  With enough random bytes for the nonces, a dealer that has generated its
  polynomial returns exactly one share for each recipient index from 1 to the effective
  committee size, in order, and each of them verifies against the commitment it broadcasts.
\<close>

theorem generate_shares_complete:
  assumes "lawful_backend B" "dkg_reachable B n" "nd_polynomial_coeffs n \<noteq> []"
    and "16 * unat (as_u32 (nd_effective_total_nodes n)) \<le> length rng"
  shows "\<exists>shares rng'. generate_shares n rng = Some (Inr shares, rng') \<and>
    map ds_to_id shares = map of_nat [1..<Suc (unat (as_u32 (nd_effective_total_nodes n)))] \<and>
    list_all (\<lambda>s. ds_from_id s = nd_id n \<and> ds_session_id s = nd_session_id n \<and>
      verify_share B (nd_commitment n) (ds_to_id s) (ds_value s)) shares"
proof -
  let ?ids = "map of_nat [1..<Suc (unat (as_u32 (nd_effective_total_nodes n)))] :: u32 list"
  have inv: "node_inv B n" using assms(2) by (rule dkg.reachable_inv)
  then have role: "nd_role n \<noteq> Receiver" using assms(3) by (auto simp: node_inv_def)
  obtain shares rng' where deal: "deal_shares n ?ids rng = Some (shares, rng')"
    and ids: "map ds_to_id shares = ?ids"
    and vals: "list_all (\<lambda>s. ds_from_id s = nd_id n \<and> ds_session_id s = nd_session_id n \<and>
      ds_value s = eval_polynomial n (ds_to_id s)) shares"
    by (rule deal_shares_Some [of ?ids rng n]) (use assms(4) in simp_all)
  show ?thesis
    using deal ids vals assms(3) role lawful_backend.own_share_verifies [OF assms(1) inv]
    by (auto simp: generate_shares_def list_all_iff)
qed

theorem generate_shares_complete_witness:
  "\<exists>shares rng'. generate_shares ex_peer1 (replicate 32 0) = Some (Inr shares, rng') \<and>
    map ds_to_id shares = [1, 2] \<and>
    list_all (\<lambda>s. verify_share ref_backend \<lparr>coefficients = [3, 7]\<rparr> (ds_to_id s) (ds_value s)) shares"
proof -
  have size: "unat (as_u32 (nd_effective_total_nodes ex_peer1)) = 2"
    "nd_polynomial_coeffs ex_peer1 \<noteq> []" "nd_commitment ex_peer1 = \<lparr>coefficients = [3, 7]\<rparr>"
    by (simp_all add: ex_peer1_def ex_peer0_def ex_node0_def as_u32_small)
  then show ?thesis
    using generate_shares_complete [OF reference.lawful_backend_axioms ex_peer_reachable(1),
        of "replicate 32 0"]
    by (auto simp: size upt_rec list_all_iff)
qed

text \<open>
  C9: completeness of delivery.  A share that an honest dealer generated for a node is accepted
  by that node and stored, provided the node holds the dealer's commitment, is in the same
  session, has no share from that dealer yet, and the dealer is a possible sender.
\<close>

theorem honest_share_accepted:
  assumes "lawful_backend B" "dkg_reachable B d" "generate_shares d rng = Some (Inr shares, rng')"
    and "s \<in> set shares" "nd_role n \<noteq> Dealer" "valid_sender n (nd_id d)"
    and "map_of (nd_received_commitments n) (nd_id d) = Some (nd_commitment d)"
    and "map_of (nd_received_shares n) (nd_id d) = None"
    and "nd_session_id n = nd_session_id d" "ds_to_id s = expected_receive_id n"
  shows "receive_share B s n = (n\<lparr>nd_received_shares :=
      nd_received_shares n @ [(nd_id d, eval_polynomial d (expected_receive_id n))]\<rparr>, Inr ())"
proof -
  have inv: "node_inv B d" using assms(2) by (rule dkg.reachable_inv)
  show ?thesis
    using generate_shares_values [OF assms(3,4)] assms(5-)
      lawful_backend.own_share_verifies [OF assms(1) inv, of "expected_receive_id n"]
    by (simp add: receive_share_Inr)
qed

theorem honest_share_accepted_witness:
  "\<exists>s. receive_share ref_backend s ex_node2 =
    (ex_node2\<lparr>nd_received_shares := [(2, 10)]\<rparr>, Inr ())"
proof -
  have "valid_sender ex_node2 (nd_id ex_peer1)" "nd_id ex_peer1 = 2" "nd_role ex_node2 \<noteq> Dealer"
    "map_of (nd_received_commitments ex_node2) (nd_id ex_peer1) = Some (nd_commitment ex_peer1)"
    "nd_received_shares ex_node2 = []" "nd_session_id ex_node2 = nd_session_id ex_peer1"
    "ds_to_id ex_share = expected_receive_id ex_node2"
    "eval_polynomial ex_peer1 (expected_receive_id ex_node2) = 10"
    by code_simp+
  then show ?thesis
    using honest_share_accepted [OF reference.lawful_backend_axioms ex_peer_reachable(1) ex_shares,
        of ex_share ex_node2] by auto
qed

text \<open>
  C10: a share that passes every guard but does not lie on the sender's committed polynomial is
  rejected, stored nowhere, and recorded as a complaint about its sender.
\<close>

theorem bad_share_complaint:
  assumes "nd_role n \<noteq> Dealer" "valid_sender n (ds_from_id s)"
    and "map_of (nd_received_shares n) (ds_from_id s) = None"
    and "ds_to_id s = expected_receive_id n" "ds_session_id s = nd_session_id n"
    and "map_of (nd_received_commitments n) (ds_from_id s) = Some C"
    and "commitment_eval B C (expected_receive_id n) \<noteq> smul B (ds_value s) (generator B)"
  shows "\<exists>n'. receive_share B s n = (n', Inl (DKGError ''Share verification failed'')) \<and>
    (\<exists>l. map_of (nd_complaints n') (nd_id n) = Some l \<and> ds_from_id s \<in> set l) \<and>
    nd_received_shares n' = nd_received_shares n"
  using assms
  by (auto simp: receive_share_def valid_sender_def verify_share_def push_complaint_def
      update_conv' not_less)

theorem bad_share_complaint_witness:
  "\<exists>n'. receive_share ref_backend (ex_share\<lparr>ds_value := 11\<rparr>) ex_node2
      = (n', Inl (DKGError ''Share verification failed'')) \<and>
    (\<exists>l. map_of (nd_complaints n') 1 = Some l \<and> 2 \<in> set l) \<and> nd_received_shares n' = []"
proof -
  let ?s = "ex_share\<lparr>ds_value := 11\<rparr>"
  have "nd_role ex_node2 \<noteq> Dealer" "valid_sender ex_node2 (ds_from_id ?s)"
    "map_of (nd_received_shares ex_node2) (ds_from_id ?s) = None"
    "ds_to_id ?s = expected_receive_id ex_node2" "ds_session_id ?s = nd_session_id ex_node2"
    "map_of (nd_received_commitments ex_node2) (ds_from_id ?s) = Some \<lparr>coefficients = [3, 7]\<rparr>"
    "commitment_eval ref_backend \<lparr>coefficients = [3, 7]\<rparr> (expected_receive_id ex_node2)
      \<noteq> smul ref_backend (ds_value ?s) (generator ref_backend)"
    by code_simp+
  note bad_share_complaint [OF this]
  moreover have "nd_id ex_node2 = 1" "ds_from_id ?s = 2" "nd_received_shares ex_node2 = []"
    by code_simp+
  ultimately show ?thesis by simp
qed

text \<open>
  the share accepted from a sender is final: no later delivery changes it, and a second share
  from that sender is rejected without any effect.
\<close>

theorem accepted_share_is_final:
  assumes "map_of (nd_received_shares n) k = Some v" "receive_share B s n = (n', r)"
  shows "map_of (nd_received_shares n') k = Some v \<and>
    (ds_from_id s = k \<longrightarrow> n' = n \<and> r \<noteq> Inr ())"
proof (cases r)
  case (Inl e)
  then show ?thesis
    using assms by (auto simp: receive_share_def split: if_splits option.splits)
next
  case (Inr u)
  then show ?thesis using assms by (auto simp: receive_share_Inr)
qed

theorem accepted_share_is_final_witness:
  "map_of (nd_received_shares (fst (receive_share ref_backend ex_share ex_node3))) 2 = Some 10 \<and>
    fst (receive_share ref_backend ex_share ex_node3) = ex_node3 \<and>
    snd (receive_share ref_backend ex_share ex_node3) \<noteq> Inr ()"
proof -
  have "map_of (nd_received_shares ex_node3) 2 = Some 10" "ds_from_id ex_share = 2" by code_simp+
  then show ?thesis
    using accepted_share_is_final [of ex_node3 2 10 ref_backend ex_share, OF _ surjective_pairing]
    by simp
qed

section \<open>Refresh and reshare\<close>

text \<open>
  C4: refresh.  When every commitment of a refresh session has the identity as constant term, the
  polynomial combined from the old public polynomial and the refresh delta decodes, has the old
  public key, and the node's old share plus its computed delta lies on it.
\<close>

theorem refresh_preserves_key:
  assumes "lawful_backend B" "dkg_reachable B n" "nd_role n = Standard"
    and "compute_secret_share n = Inr delta" "compute_public_polynomial B n = Inr D"
    and "constant_term_is_identity (nd_commitment n)"
    and "list_all (\<lambda>(k, C). constant_term_is_identity C) (nd_received_commitments n)"
    and "smul B old_share (generator B) = pub_poly_eval B P (nd_id n)"
    and "length (commits P) = length (commits D)" "length (commits P) < 2 ^ 32"
  shows "\<exists>new P'.
    combine_pub_poly_bytes B (pub_poly_to_bytes B P) (pub_poly_to_bytes B D) = Inr new \<and>
    pub_poly_from_bytes B new = Inr P' \<and> commits P' ! 0 = commits P ! 0 \<and>
    smul B (old_share + pri_v delta) (generator B) = pub_poly_eval B P' (nd_id n)"
proof -
  have inv: "node_inv B n" using assms(2) by (rule dkg.reachable_inv)
  have i: "pri_i delta = nd_id n"
    using assms(3,4) by (auto simp: compute_secret_share_def is_reshare_receiver_def split: if_splits)
  show ?thesis
    by (rule lawful_backend.combine_pub_polys [OF assms(1) key_of_polynomial(2) [OF assms(1,2,5)]
        assms(9,10) lawful_backend.identity_terms_key [OF assms(1) inv assms(3,5-7)] assms(8)
        share_on_polynomial [OF assms(1,2,4,5), unfolded i]])
qed

theorem refresh_preserves_key_witness:
  "\<exists>new P'.
    combine_pub_poly_bytes ref_backend (pub_poly_to_bytes ref_backend \<lparr>commits = [4, 1]\<rparr>)
      (pub_poly_to_bytes ref_backend \<lparr>commits = [0, 12]\<rparr>) = Inr new \<and>
    pub_poly_from_bytes ref_backend new = Inr P' \<and> commits P' ! 0 = 4 \<and>
    5 + 12 = pub_poly_eval ref_backend P' 1"
proof -
  have "nd_role ex_refresh = Standard" "nd_id ex_refresh = 1"
    "compute_secret_share ex_refresh = Inr \<lparr>pri_i = 1, pri_v = 12\<rparr>"
    "compute_public_polynomial ref_backend ex_refresh = Inr \<lparr>commits = [0, 12]\<rparr>"
    "constant_term_is_identity (nd_commitment ex_refresh)"
    "list_all (\<lambda>(k, C). constant_term_is_identity C) (nd_received_commitments ex_refresh)"
    "smul ref_backend 5 (generator ref_backend) = pub_poly_eval ref_backend \<lparr>commits = [4, 1]\<rparr> 1"
    by code_simp+
  then show ?thesis
    using refresh_preserves_key [OF reference.lawful_backend_axioms ex_refresh_reachable,
        where delta = "\<lparr>pri_i = 1, pri_v = 12\<rparr>" and D = "\<lparr>commits = [0, 12]\<rparr>"
          and P = "\<lparr>commits = [4, 1]\<rparr>" and old_share = 5] by simp
qed

text \<open>
  C3: reshare.  Let the selected dealers number at least the coefficients of the old public
  polynomial, and let each dealer's commitment have the dealer's old public share as constant
  term.  Then the new committee's public key is the old one, whatever the dealers' other
  coefficients.
\<close>

theorem reshare_preserves_key:
  assumes "lawful_backend B" "is_reshare_receiver n" "reshare_participants n = Inr ps"
    and "commits P \<noteq> []" "length (commits P) \<le> length ps"
    and "list_all (\<lambda>p. \<exists>C. reshare_commitment_for n p = Inr C \<and>
      coefficients C ! 0 = pub_poly_eval B P p) ps"
  shows "compute_aggregate_public_key B n = Inr (commits P ! 0)"
proof -
  have each: "\<exists>C. reshare_commitment_for n p = Inr C"
    "coefficients (projr (reshare_commitment_for n p)) ! 0 = poly_value (smul B) (commits P) (fr_of_u32 p)"
    if "p \<in> set ps" for p
    using that assms(6) by (auto simp: list_all_iff lawful_backend.pub_poly_eval_value [OF assms(1)])
  have "distinct ps"
    using lawful_backend.reshare_participants_distinct [OF assms(1,3)] by simp
  then show ?thesis
    using each lawful_backend.interpolate_at_zero [OF assms(1) _ assms(5,4)]
    by (simp add: lawful_backend.reshare_public_key [OF assms(1-3)] cong: map_cong)
qed

theorem reshare_preserves_key_witness:
  "compute_aggregate_public_key ref_backend ex_receiver = Inr 3"
proof -
  have "is_reshare_receiver ex_receiver" "reshare_participants ex_receiver = Inr [1, 2]"
    "reshare_commitment_for ex_receiver 1 = Inr \<lparr>coefficients = [15, 4]\<rparr>"
    "reshare_commitment_for ex_receiver 2 = Inr \<lparr>coefficients = [27, 1]\<rparr>"
    "pub_poly_eval ref_backend \<lparr>commits = [3, 12]\<rparr> 1 = 15"
    "pub_poly_eval ref_backend \<lparr>commits = [3, 12]\<rparr> 2 = 27"
    by code_simp+
  then show ?thesis
    using reshare_preserves_key [OF reference.lawful_backend_axioms, of ex_receiver "[1, 2]"
        "\<lparr>commits = [3, 12]\<rparr>"] by simp
qed

end
