(* ===== verification/Context.thy ===== *)
theory Context
  imports Backend Reference_Field
begin

text \<open>
  The canonical encodings and digests of \<open>context.rs\<close> and \<open>pet_context.rs\<close>, which bind a
  ciphertext, a reader authorization and a PET tag to everything they are valid for.  Rust
  appends to a vector; here each \<open>put\<close> function returns what it appends.  The locale
  \<open>prefix_free\<close> is the contract of these functions: an encoding followed by anything
  determines both the value and what follows, as long as lengths fit the 32-bit prefix.
\<close>

record pet_tag_binding =
  ptb_ring_id :: string
  ptb_pet_pk :: bytes
  ptb_ephemeral_point :: bytes
  ptb_masked_fingerprint :: bytes

record ciphertext_context =
  cc_ring_pk :: bytes
  cc_policy_id :: string
  cc_resource :: string
  cc_permission :: string
  cc_tier :: "string option"
  cc_timestamp :: "u64 option"
  cc_salt :: "string option"
  cc_pet_tag :: "pet_tag_binding option"

record valid_window_binding =
  vw_start :: u64
  vw_end :: u64

record reader_authorization_context =
  rac_chain_id :: string
  rac_ring_pk :: bytes
  rac_jwt_issuer :: string
  rac_jwt_subject :: "string option"
  rac_resolved_actor :: string
  rac_jwt_id :: string
  rac_jwt_issued_time :: u64
  rac_jwt_expiration_time :: u64
  rac_jwt_not_before :: "u64 option"
  rac_object_id :: string
  rac_recipient_pk :: bytes
  rac_derivation :: "bytes option"
  rac_salt :: "string option"
  rac_valid_window :: "valid_window_binding option"
  rac_audit_target_object_id :: "string option"

text \<open>The stored secret and the encryption proof of \<open>trait/types.rs\<close>.\<close>

record secret =
  sec_enc_cmt :: bytes
  sec_encrypted_data :: bytes
  sec_nonce :: bytes

record encryption_proof =
  ep_challenge :: bytes
  ep_response :: bytes

section \<open>Encoders\<close>

definition put_bytes :: "bytes \<Rightarrow> bytes" where
  "put_bytes b = be_bytes 4 (unat (as_u32 (length b))) @ b"

definition put_u64 :: "u64 \<Rightarrow> bytes" where
  "put_u64 n = be_bytes 8 (unat n)"

text \<open>The presence tag shared by the optional encoders.\<close>

definition put_opt :: "('a \<Rightarrow> bytes) \<Rightarrow> 'a option \<Rightarrow> bytes" where
  "put_opt put v = (case v of None \<Rightarrow> [0] | Some x \<Rightarrow> 1 # put x)"

definition put_opt_str :: "string option \<Rightarrow> bytes" where
  "put_opt_str = put_opt (\<lambda>s. put_bytes (as_bytes s))"

definition put_opt_u64 :: "u64 option \<Rightarrow> bytes" where
  "put_opt_u64 = put_opt put_u64"

definition put_opt_bytes :: "bytes option \<Rightarrow> bytes" where
  "put_opt_bytes = put_opt put_bytes"

definition put_opt_pet_tag :: "pet_tag_binding option \<Rightarrow> bytes" where
  "put_opt_pet_tag = put_opt (\<lambda>t. put_bytes (as_bytes (ptb_ring_id t)) @ put_bytes (ptb_pet_pk t)
     @ put_bytes (ptb_ephemeral_point t) @ put_bytes (ptb_masked_fingerprint t))"

definition canonical_encode :: "ciphertext_context \<Rightarrow> bytes" where
  "canonical_encode c =
    put_bytes (cc_ring_pk c) @ put_bytes (as_bytes (cc_policy_id c))
    @ put_bytes (as_bytes (cc_resource c)) @ put_bytes (as_bytes (cc_permission c))
    @ put_opt_str (cc_tier c) @ put_opt_u64 (cc_timestamp c) @ put_opt_str (cc_salt c)
    @ put_opt_pet_tag (cc_pet_tag c)"

definition put_opt_valid_window :: "valid_window_binding option \<Rightarrow> bytes" where
  "put_opt_valid_window = put_opt (\<lambda>w. put_u64 (vw_start w) @ put_u64 (vw_end w))"

definition canonical_encode_reader_authorization :: "reader_authorization_context \<Rightarrow> bytes" where
  "canonical_encode_reader_authorization c =
    put_bytes (as_bytes (rac_chain_id c)) @ put_bytes (rac_ring_pk c)
    @ put_bytes (as_bytes (rac_jwt_issuer c)) @ put_opt_str (rac_jwt_subject c)
    @ put_bytes (as_bytes (rac_resolved_actor c)) @ put_bytes (as_bytes (rac_jwt_id c))
    @ put_u64 (rac_jwt_issued_time c) @ put_u64 (rac_jwt_expiration_time c)
    @ put_opt_u64 (rac_jwt_not_before c) @ put_bytes (as_bytes (rac_object_id c))
    @ put_bytes (rac_recipient_pk c) @ put_opt_bytes (rac_derivation c)
    @ put_opt_str (rac_salt c) @ put_opt_valid_window (rac_valid_window c)
    @ put_opt_str (rac_audit_target_object_id c)"

section \<open>Digests\<close>

text \<open>For each digest, the bytes fed to the hasher and the digest itself.\<close>

definition CONTEXT_DIGEST_DOMAIN :: bytes where
  "CONTEXT_DIGEST_DOMAIN = as_bytes ''orbis-context-v1''"

definition CIPHERTEXT_DIGEST_DOMAIN :: bytes where
  "CIPHERTEXT_DIGEST_DOMAIN = as_bytes ''orbis-ciphertext-v1''"

definition READER_AUTHORIZATION_CONTEXT_DIGEST_DOMAIN :: bytes where
  "READER_AUTHORIZATION_CONTEXT_DIGEST_DOMAIN = as_bytes ''orbis-reader-authorization-context-v1''"

definition TAG_PROOF_DIGEST_DOMAIN :: bytes where
  "TAG_PROOF_DIGEST_DOMAIN = as_bytes ''orbis-pet-tag-proof-v1''"

definition context_preimage :: "ciphertext_context \<Rightarrow> bytes \<Rightarrow> bytes" where
  "context_preimage c enc_cmt = CONTEXT_DIGEST_DOMAIN @ canonical_encode c @ put_bytes enc_cmt"

definition context_digest :: "('f, 'g) backend \<Rightarrow> ciphertext_context \<Rightarrow> bytes \<Rightarrow> bytes" where
  "context_digest B c enc_cmt = sha256 B (context_preimage c enc_cmt)"

definition ciphertext_preimage :: "bytes \<Rightarrow> bytes \<Rightarrow> bytes" where
  "ciphertext_preimage nonce encrypted_data = CIPHERTEXT_DIGEST_DOMAIN @ nonce @ encrypted_data"

definition ciphertext_digest :: "('f, 'g) backend \<Rightarrow> bytes \<Rightarrow> bytes \<Rightarrow> bytes" where
  "ciphertext_digest B nonce encrypted_data = sha256 B (ciphertext_preimage nonce encrypted_data)"

definition reader_authorization_preimage :: "reader_authorization_context \<Rightarrow> bytes" where
  "reader_authorization_preimage c =
    READER_AUTHORIZATION_CONTEXT_DIGEST_DOMAIN @ canonical_encode_reader_authorization c"

definition reader_authorization_context_digest ::
  "('f, 'g) backend \<Rightarrow> reader_authorization_context \<Rightarrow> bytes" where
  "reader_authorization_context_digest B c = sha256 B (reader_authorization_preimage c)"

definition tag_proof_preimage :: "bytes \<Rightarrow> bytes \<Rightarrow> bytes \<Rightarrow> string \<Rightarrow> ciphertext_context \<Rightarrow> secret
    \<Rightarrow> encryption_proof \<Rightarrow> bytes" where
  "tag_proof_preimage ephemeral_point masked_fingerprint pet_pk ring_id c s p =
    TAG_PROOF_DIGEST_DOMAIN @ put_bytes ephemeral_point @ put_bytes masked_fingerprint
    @ put_bytes pet_pk @ put_bytes (as_bytes ring_id) @ put_bytes (canonical_encode c)
    @ put_bytes (sec_enc_cmt s) @ put_bytes (sec_nonce s) @ put_bytes (sec_encrypted_data s)
    @ put_bytes (ep_challenge p) @ put_bytes (ep_response p)"

definition tag_proof_digest :: "('f, 'g) backend \<Rightarrow> bytes \<Rightarrow> bytes \<Rightarrow> bytes \<Rightarrow> string
    \<Rightarrow> ciphertext_context \<Rightarrow> secret \<Rightarrow> encryption_proof \<Rightarrow> bytes" where
  "tag_proof_digest B ephemeral_point masked_fingerprint pet_pk ring_id c s p =
    sha256 B (tag_proof_preimage ephemeral_point masked_fingerprint pet_pk ring_id c s p)"

section \<open>Prefix-free encoders\<close>

locale prefix_free =
  fixes enc :: "'a \<Rightarrow> bytes" and fits :: "'a \<Rightarrow> bool"
  assumes cancel: "fits x \<Longrightarrow> fits y \<Longrightarrow> enc x @ u = enc y @ v \<Longrightarrow> x = y \<and> u = v"
begin

lemma enc_append_eq_iff: "fits x \<Longrightarrow> fits y \<Longrightarrow> enc x @ u = enc y @ v \<longleftrightarrow> x = y \<and> u = v"
  using cancel by blast

lemma enc_eq_iff: "fits x \<Longrightarrow> fits y \<Longrightarrow> enc x = enc y \<longleftrightarrow> x = y"
  using cancel [of x y "[]" "[]"] by auto

lemma put_opt_cancel:
  assumes "pred_option fits x" "pred_option fits y" "put_opt enc x @ u = put_opt enc y @ v"
  shows "x = y \<and> u = v"
proof (cases x; cases y)
  fix a b assume "x = Some a" "y = Some b"
  then show ?thesis using assms cancel [of a b u v] by (simp add: put_opt_def)
qed (use assms(3) in \<open>simp_all add: put_opt_def\<close>)

end

text \<open>A length that the 32-bit prefix can hold.\<close>

abbreviation short :: "'a list \<Rightarrow> bool" where
  "short xs \<equiv> length xs < 2 ^ 32"

lemma append_same_length: "length a = length b \<Longrightarrow> a @ u = b @ v \<longleftrightarrow> a = b \<and> u = v"
  by simp

interpretation pf_bytes: prefix_free put_bytes short
proof
  fix x y u v
  assume short: "short x" "short y" and eq: "put_bytes x @ u = put_bytes y @ v"
  let ?p = "\<lambda>z. be_bytes 4 (unat (as_u32 (length z)))"
  have split: "?p x = ?p y" "x @ u = y @ v"
    using eq append_same_length [of "?p x" "?p y"] by (simp_all add: put_bytes_def)
  have "length x = length y"
    using be_bytes_inj [OF split(1)] short by (simp add: as_u32_small)
  with split(2) show "x = y \<and> u = v" by simp
qed

interpretation pf_str: prefix_free "\<lambda>s. put_bytes (as_bytes s)" short
proof
  fix x y :: string and u v
  assume "short x" "short y" "put_bytes (as_bytes x) @ u = put_bytes (as_bytes y) @ v"
  then show "x = y \<and> u = v"
    using pf_bytes.cancel [of "as_bytes x" "as_bytes y" u v] by simp
qed

interpretation pf_u64: prefix_free put_u64 "\<lambda>_. True"
proof
  fix x y :: u64 and u v
  assume "put_u64 x @ u = put_u64 y @ v"
  then have "be_bytes 8 (unat x) = be_bytes 8 (unat y)" "u = v"
    by (simp_all add: put_u64_def)
  then show "x = y \<and> u = v"
    using be_bytes_inj [of 8 "unat x" "unat y"] unat_u64_bound [of x] unat_u64_bound [of y]
    by (simp add: word_unat_eq_iff)
qed

interpretation pf_opt_str: prefix_free put_opt_str "pred_option short"
  unfolding put_opt_str_def by unfold_locales (rule pf_str.put_opt_cancel)

interpretation pf_opt_bytes: prefix_free put_opt_bytes "pred_option short"
  unfolding put_opt_bytes_def by unfold_locales (rule pf_bytes.put_opt_cancel)

interpretation pf_opt_u64: prefix_free put_opt_u64 "\<lambda>_. True"
  unfolding put_opt_u64_def
  by unfold_locales (rule pf_u64.put_opt_cancel; simp add: option.pred_True)

lemmas put_cancel = pf_bytes.enc_append_eq_iff pf_str.enc_append_eq_iff pf_u64.enc_append_eq_iff
  pf_opt_str.enc_append_eq_iff pf_opt_bytes.enc_append_eq_iff pf_opt_u64.enc_append_eq_iff

definition tag_fits :: "pet_tag_binding \<Rightarrow> bool" where
  "tag_fits t \<longleftrightarrow> short (ptb_ring_id t) \<and> short (ptb_pet_pk t) \<and>
    short (ptb_ephemeral_point t) \<and> short (ptb_masked_fingerprint t)"

interpretation pf_tag: prefix_free "\<lambda>t. put_bytes (as_bytes (ptb_ring_id t)) @ put_bytes (ptb_pet_pk t)
     @ put_bytes (ptb_ephemeral_point t) @ put_bytes (ptb_masked_fingerprint t)" tag_fits
proof
  fix x y :: pet_tag_binding and u v
  let ?e = "\<lambda>t. put_bytes (as_bytes (ptb_ring_id t)) @ put_bytes (ptb_pet_pk t)
     @ put_bytes (ptb_ephemeral_point t) @ put_bytes (ptb_masked_fingerprint t)"
  assume "tag_fits x" "tag_fits y" "?e x @ u = ?e y @ v"
  then show "x = y \<and> u = v"
    by (simp add: tag_fits_def put_cancel pet_tag_binding.equality)
qed

interpretation pf_opt_tag: prefix_free put_opt_pet_tag "pred_option tag_fits"
  unfolding put_opt_pet_tag_def by unfold_locales (rule pf_tag.put_opt_cancel)

interpretation pf_window: prefix_free "\<lambda>w :: valid_window_binding. put_u64 (vw_start w) @ put_u64 (vw_end w)"
    "\<lambda>_. True"
  by unfold_locales (simp add: put_cancel valid_window_binding.equality)

interpretation pf_opt_window: prefix_free put_opt_valid_window "\<lambda>_. True"
  unfolding put_opt_valid_window_def
  by unfold_locales (rule pf_window.put_opt_cancel; simp add: option.pred_True)

definition context_fits :: "ciphertext_context \<Rightarrow> bool" where
  "context_fits c \<longleftrightarrow> short (cc_ring_pk c) \<and> short (cc_policy_id c) \<and> short (cc_resource c) \<and>
    short (cc_permission c) \<and> pred_option short (cc_tier c) \<and> pred_option short (cc_salt c) \<and>
    pred_option tag_fits (cc_pet_tag c)"

definition reader_context_fits :: "reader_authorization_context \<Rightarrow> bool" where
  "reader_context_fits c \<longleftrightarrow> short (rac_chain_id c) \<and> short (rac_ring_pk c) \<and>
    short (rac_jwt_issuer c) \<and> pred_option short (rac_jwt_subject c) \<and>
    short (rac_resolved_actor c) \<and> short (rac_jwt_id c) \<and> short (rac_object_id c) \<and>
    short (rac_recipient_pk c) \<and> pred_option short (rac_derivation c) \<and>
    pred_option short (rac_salt c) \<and> pred_option short (rac_audit_target_object_id c)"

interpretation pf_context: prefix_free canonical_encode context_fits
proof
  fix x y u v
  assume "context_fits x" "context_fits y" "canonical_encode x @ u = canonical_encode y @ v"
  then show "x = y \<and> u = v"
    by (simp add: canonical_encode_def context_fits_def put_cancel pf_opt_tag.enc_append_eq_iff
        ciphertext_context.equality)
qed

interpretation pf_reader: prefix_free canonical_encode_reader_authorization reader_context_fits
proof
  fix x y u v
  assume "reader_context_fits x" "reader_context_fits y"
    "canonical_encode_reader_authorization x @ u = canonical_encode_reader_authorization y @ v"
  then show "x = y \<and> u = v"
    by (simp add: canonical_encode_reader_authorization_def reader_context_fits_def put_cancel
        pf_opt_window.enc_append_eq_iff reader_authorization_context.equality)
qed

section \<open>What the digests bind\<close>

lemma hash_eq_iff_collision:
  assumes "x = y \<longleftrightarrow> P"
  shows "h x = h y \<longleftrightarrow> P \<or> (x \<noteq> y \<and> h x = h y)"
  using assms by auto

lemma context_preimage_inject:
  assumes "context_fits c" "context_fits c'" "short u" "short u'"
  shows "context_preimage c u = context_preimage c' u' \<longleftrightarrow> c = c' \<and> u = u'"
  using assms by (auto simp: context_preimage_def pf_context.enc_append_eq_iff pf_bytes.enc_eq_iff)

lemma reader_authorization_preimage_inject:
  assumes "reader_context_fits c" "reader_context_fits c'"
  shows "reader_authorization_preimage c = reader_authorization_preimage c' \<longleftrightarrow> c = c'"
  using assms by (auto simp: reader_authorization_preimage_def pf_reader.enc_eq_iff)

definition envelope_fits :: "ciphertext_context \<Rightarrow> secret \<Rightarrow> encryption_proof \<Rightarrow> bool" where
  "envelope_fits c s p \<longleftrightarrow> context_fits c \<and> short (canonical_encode c) \<and> short (sec_enc_cmt s) \<and>
    short (sec_nonce s) \<and> short (sec_encrypted_data s) \<and> short (ep_challenge p) \<and>
    short (ep_response p)"

lemma tag_proof_preimage_inject:
  assumes "short r" "short r'" "short t" "short t'" "short k" "short k'" "short i" "short i'"
    and "envelope_fits c s p" "envelope_fits c' s' p'"
  shows "tag_proof_preimage r t k i c s p = tag_proof_preimage r' t' k' i' c' s' p' \<longleftrightarrow>
    r = r' \<and> t = t' \<and> k = k' \<and> i = i' \<and> c = c' \<and> s = s' \<and> p = p'"
  using assms
  by (simp add: tag_proof_preimage_def envelope_fits_def put_cancel pf_bytes.enc_eq_iff
      pf_context.enc_eq_iff) (auto intro: secret.equality encryption_proof.equality)

text \<open>
  the context digest binds every field of the ciphertext context and the encryption
  commitment: two pairs have the same digest exactly when they are equal or their encodings are
  a SHA-256 collision.
\<close>

theorem context_digest_binding:
  assumes "context_fits c" "context_fits c'" "short u" "short u'"
  shows "context_digest B c u = context_digest B c' u' \<longleftrightarrow>
    (c = c' \<and> u = u') \<or>
    (context_preimage c u \<noteq> context_preimage c' u' \<and>
     sha256 B (context_preimage c u) = sha256 B (context_preimage c' u'))"
  unfolding context_digest_def
  by (rule hash_eq_iff_collision) (rule context_preimage_inject [OF assms])

definition ex_context :: ciphertext_context where
  "ex_context = \<lparr>cc_ring_pk = [9, 9], cc_policy_id = ''policy'', cc_resource = ''resource'',
     cc_permission = ''read'', cc_tier = Some ''gold'', cc_timestamp = Some 7, cc_salt = None,
     cc_pet_tag = Some \<lparr>ptb_ring_id = ''ring'', ptb_pet_pk = [1], ptb_ephemeral_point = [2],
       ptb_masked_fingerprint = [3]\<rparr>\<rparr>"

lemma ex_context_fits [simp]: "context_fits ex_context" "context_fits (ex_context\<lparr>cc_salt := Some ''x''\<rparr>)"
  by (simp_all add: context_fits_def tag_fits_def ex_context_def)

theorem context_digest_binding_witness:
  "context_digest ref_backend ex_context [1, 2]
      = context_digest ref_backend (ex_context\<lparr>cc_salt := Some ''x''\<rparr>) [1, 2] \<longleftrightarrow>
    context_preimage ex_context [1, 2] \<noteq> context_preimage (ex_context\<lparr>cc_salt := Some ''x''\<rparr>) [1, 2] \<and>
    sha256 ref_backend (context_preimage ex_context [1, 2])
      = sha256 ref_backend (context_preimage (ex_context\<lparr>cc_salt := Some ''x''\<rparr>) [1, 2])"
proof -
  have "ex_context \<noteq> ex_context\<lparr>cc_salt := Some ''x''\<rparr>"
    by (simp add: ex_context_def)
  then show ?thesis
    using context_digest_binding [of ex_context "ex_context\<lparr>cc_salt := Some ''x''\<rparr>" "[1, 2]" "[1, 2]"
        ref_backend] by simp
qed

text \<open>
  the reader authorization digest binds every field of the request it authorizes, the object
  and the recipient key among them, up to a SHA-256 collision.
\<close>

theorem reader_authorization_digest_binding:
  assumes "reader_context_fits c" "reader_context_fits c'"
  shows "reader_authorization_context_digest B c = reader_authorization_context_digest B c' \<longleftrightarrow>
    c = c' \<or>
    (reader_authorization_preimage c \<noteq> reader_authorization_preimage c' \<and>
     sha256 B (reader_authorization_preimage c) = sha256 B (reader_authorization_preimage c'))"
  unfolding reader_authorization_context_digest_def
  by (rule hash_eq_iff_collision) (rule reader_authorization_preimage_inject [OF assms])

definition ex_reader_context :: reader_authorization_context where
  "ex_reader_context = \<lparr>rac_chain_id = ''vera'', rac_ring_pk = [9], rac_jwt_issuer = ''iss'',
     rac_jwt_subject = Some ''sub'', rac_resolved_actor = ''sub'', rac_jwt_id = ''jti'',
     rac_jwt_issued_time = 1, rac_jwt_expiration_time = 2, rac_jwt_not_before = None,
     rac_object_id = ''doc'', rac_recipient_pk = [4], rac_derivation = Some [5], rac_salt = None,
     rac_valid_window = Some \<lparr>vw_start = 1, vw_end = 2\<rparr>, rac_audit_target_object_id = None\<rparr>"

theorem reader_authorization_digest_binding_witness:
  "reader_authorization_context_digest ref_backend ex_reader_context
      = reader_authorization_context_digest ref_backend (ex_reader_context\<lparr>rac_object_id := ''dox''\<rparr>) \<longleftrightarrow>
    reader_authorization_preimage ex_reader_context
      \<noteq> reader_authorization_preimage (ex_reader_context\<lparr>rac_object_id := ''dox''\<rparr>) \<and>
    sha256 ref_backend (reader_authorization_preimage ex_reader_context)
      = sha256 ref_backend (reader_authorization_preimage (ex_reader_context\<lparr>rac_object_id := ''dox''\<rparr>))"
proof -
  let ?c = "ex_reader_context\<lparr>rac_object_id := ''dox''\<rparr>"
  have "ex_reader_context \<noteq> ?c" "reader_context_fits ex_reader_context" "reader_context_fits ?c"
    by (simp_all add: ex_reader_context_def reader_context_fits_def)
  then show ?thesis
    using reader_authorization_digest_binding [of ex_reader_context ?c ref_backend] by simp
qed

text \<open>
  C27: the tag proof digest binds both tag components, the PET key, the ring and the complete
  payload envelope, up to a SHA-256 collision.
\<close>

theorem tag_proof_digest_binding:
  assumes "short r" "short r'" "short t" "short t'" "short k" "short k'" "short i" "short i'"
    and "envelope_fits c s p" "envelope_fits c' s' p'"
  shows "tag_proof_digest B r t k i c s p = tag_proof_digest B r' t' k' i' c' s' p' \<longleftrightarrow>
    (r = r' \<and> t = t' \<and> k = k' \<and> i = i' \<and> c = c' \<and> s = s' \<and> p = p') \<or>
    (tag_proof_preimage r t k i c s p \<noteq> tag_proof_preimage r' t' k' i' c' s' p' \<and>
     sha256 B (tag_proof_preimage r t k i c s p) = sha256 B (tag_proof_preimage r' t' k' i' c' s' p'))"
  unfolding tag_proof_digest_def
  by (rule hash_eq_iff_collision) (rule tag_proof_preimage_inject [OF assms])

definition ex_secret :: secret where
  "ex_secret = \<lparr>sec_enc_cmt = [1], sec_encrypted_data = [2], sec_nonce = [3]\<rparr>"

definition ex_proof :: encryption_proof where
  "ex_proof = \<lparr>ep_challenge = [4], ep_response = [5]\<rparr>"

theorem tag_proof_digest_binding_witness:
  "tag_proof_digest ref_backend [1] [2] [3] ''r'' ex_context ex_secret ex_proof
      = tag_proof_digest ref_backend [1] [8] [3] ''r'' ex_context ex_secret ex_proof \<longleftrightarrow>
    tag_proof_preimage [1] [2] [3] ''r'' ex_context ex_secret ex_proof
      \<noteq> tag_proof_preimage [1] [8] [3] ''r'' ex_context ex_secret ex_proof \<and>
    sha256 ref_backend (tag_proof_preimage [1] [2] [3] ''r'' ex_context ex_secret ex_proof)
      = sha256 ref_backend (tag_proof_preimage [1] [8] [3] ''r'' ex_context ex_secret ex_proof)"
proof -
  have "length (canonical_encode ex_context) < 2 ^ 32"
    by (simp add: canonical_encode_def ex_context_def put_bytes_def put_opt_str_def put_opt_u64_def
        put_opt_pet_tag_def put_opt_def put_u64_def)
  then have "envelope_fits ex_context ex_secret ex_proof"
    by (simp add: envelope_fits_def ex_secret_def ex_proof_def)
  then show ?thesis
    using tag_proof_digest_binding [of "[1]" "[1]" "[2]" "[8]" "[3]" "[3]" "''r''" "''r''"
        ex_context ex_secret ex_proof ex_context ex_secret ex_proof ref_backend] by simp
qed

text \<open>
  the four digests are domain separated: no two inputs of different digests are hashed from
  the same bytes.
\<close>

theorem digest_domain_separation:
  "context_preimage c u \<noteq> ciphertext_preimage n d \<and>
   context_preimage c u \<noteq> reader_authorization_preimage a \<and>
   context_preimage c u \<noteq> tag_proof_preimage r t k i c' s p \<and>
   ciphertext_preimage n d \<noteq> reader_authorization_preimage a \<and>
   ciphertext_preimage n d \<noteq> tag_proof_preimage r t k i c' s p \<and>
   reader_authorization_preimage a \<noteq> tag_proof_preimage r t k i c' s p"
proof -
  have prefix: "take 8 (context_preimage c u) = as_bytes ''orbis-co''"
    "take 8 (ciphertext_preimage n d) = as_bytes ''orbis-ci''"
    "take 8 (reader_authorization_preimage a) = as_bytes ''orbis-re''"
    "take 8 (tag_proof_preimage r t k i c' s p) = as_bytes ''orbis-pe''"
    by (simp_all add: context_preimage_def ciphertext_preimage_def reader_authorization_preimage_def
        tag_proof_preimage_def CONTEXT_DIGEST_DOMAIN_def CIPHERTEXT_DIGEST_DOMAIN_def
        READER_AUTHORIZATION_CONTEXT_DIGEST_DOMAIN_def TAG_PROOF_DIGEST_DOMAIN_def as_bytes_def)
  have "as_bytes ''orbis-co'' \<noteq> as_bytes ''orbis-ci''" "as_bytes ''orbis-co'' \<noteq> as_bytes ''orbis-re''"
    "as_bytes ''orbis-co'' \<noteq> as_bytes ''orbis-pe''" "as_bytes ''orbis-ci'' \<noteq> as_bytes ''orbis-re''"
    "as_bytes ''orbis-ci'' \<noteq> as_bytes ''orbis-pe''" "as_bytes ''orbis-re'' \<noteq> as_bytes ''orbis-pe''"
    by simp_all
  then show ?thesis by (metis prefix)
qed

text \<open>
  The bound on field lengths is needed: a length that wraps in the 32-bit prefix lets one field
  absorb its neighbour, so contexts with fields of \<open>2 ^ 32\<close> bytes can share an encoding.
\<close>

lemma canonical_encode_wrapped_length:
  assumes "as_u32 n = 0" "n \<noteq> 0"
  shows "canonical_encode (c\<lparr>cc_ring_pk := replicate n 0, cc_policy_id := []\<rparr>)
      = canonical_encode (c\<lparr>cc_ring_pk := [], cc_policy_id := replicate n (CHR 0x00)\<rparr>)"
    and "c\<lparr>cc_ring_pk := replicate n 0, cc_policy_id := []\<rparr>
      \<noteq> c\<lparr>cc_ring_pk := [], cc_policy_id := replicate n (CHR 0x00)\<rparr>"
proof -
  have four: "be_bytes 4 0 = replicate 4 0" by code_simp
  have zero: "as_bytes (replicate n (CHR 0x00)) = replicate n 0" "as_bytes [] = []"
    by (simp_all add: as_bytes_def)
  have enc: "put_bytes (replicate n 0) = replicate 4 0 @ replicate n 0" "put_bytes [] = replicate 4 0"
    using assms(1) four by (simp_all add: put_bytes_def as_u32_def)
  have "(replicate 4 0 @ replicate n 0) @ replicate 4 0
      = replicate 4 (0 :: u8) @ replicate 4 0 @ replicate n 0"
    by (simp only: append_assoc replicate_add [symmetric] add.commute)
  then show "canonical_encode (c\<lparr>cc_ring_pk := replicate n 0, cc_policy_id := []\<rparr>)
      = canonical_encode (c\<lparr>cc_ring_pk := [], cc_policy_id := replicate n (CHR 0x00)\<rparr>)"
    by (simp add: canonical_encode_def zero enc flip: append_assoc)
  have "replicate n (0 :: u8) \<noteq> []" using assms(2) by simp
  then show "c\<lparr>cc_ring_pk := replicate n 0, cc_policy_id := []\<rparr>
      \<noteq> c\<lparr>cc_ring_pk := [], cc_policy_id := replicate n (CHR 0x00)\<rparr>"
    by (metis ciphertext_context.select_convs(1) ciphertext_context.surjective
        ciphertext_context.update_convs(1,2))
qed

lemma canonical_encode_long_fields_collide:
  "\<exists>c c'. c \<noteq> c' \<and> canonical_encode c = canonical_encode c'"
proof -
  have "as_u32 (2 ^ 32) = 0" by (simp add: as_u32_def)
  from canonical_encode_wrapped_length [OF this] show ?thesis by (metis power_not_zero zero_neq_numeral)
qed

end
