(* ===== verification/Pre.thy ===== *)
theory Pre
  imports Threshold Context
begin

text \<open>
  Threshold proxy re-encryption of \<open>jubjub/pre.rs\<close>: hybrid encryption under the ring key with a
  Schnorr proof bound to context and ciphertext, the reader's authorization signature, the
  re-encryption share of one node with its Chaum-Pedersen proof, recovery of the re-encrypted
  commitment from a threshold of shares, and decryption by the reader.  A function that draws
  random bytes takes the tape and returns what is left of it.
\<close>

section \<open>Domains and derivation\<close>

definition PRE_PROTOCOL :: bytes where
  "PRE_PROTOCOL = as_bytes ''elgamal-jubjub-reencrypt-challenge-v1''"

definition DERIVATION_DOMAIN :: bytes where
  "DERIVATION_DOMAIN = as_bytes ''elgamal-jubjub-derivation-v1''"

definition POLICY_BINDING_PROOF_DOMAIN :: bytes where
  "POLICY_BINDING_PROOF_DOMAIN = as_bytes ''orbis-jubjub-policy-binding-proof-v1''"

definition READER_AUTHORIZATION_DOMAIN :: bytes where
  "READER_AUTHORIZATION_DOMAIN = as_bytes ''orbis-jubjub-reader-authorization-v1''"

record reader_authorization_signature =
  ras_challenge :: bytes
  ras_response :: bytes

definition derive_capability_scalar :: "('f::field, 'g) backend \<Rightarrow> bytes \<Rightarrow> 'f" where
  "derive_capability_scalar B derivation =
    from_le_bytes_mod_order B (sha512 B (DERIVATION_DOMAIN @ derivation))"

definition pre_derive_public_key :: "('f::field, 'g) backend \<Rightarrow> 'g \<Rightarrow> bytes \<Rightarrow> 'g result" where
  "pre_derive_public_key B dkg_pk derivation =
    Inr (smul B (derive_capability_scalar B derivation) dkg_pk)"

definition derive_key_from_point :: "('f, 'g) backend \<Rightarrow> 'g \<Rightarrow> bytes result" where
  "derive_key_from_point B point =
    ok_or (ElGamalError ''HKDF expansion failed'')
      (hkdf_sha256_expand B (point_to_bytes B point) (as_bytes ''elgamal-jubjub-aes-key-v1''))"

section \<open>Encryption and its proof\<close>

definition encryption_proof_preimage ::
  "('f, 'g) backend \<Rightarrow> 'g \<Rightarrow> 'g \<Rightarrow> bytes \<Rightarrow> bytes \<Rightarrow> bytes" where
  "encryption_proof_preimage B enc_cmt r1 cd ctd =
    POLICY_BINDING_PROOF_DOMAIN @ point_to_bytes B enc_cmt @ point_to_bytes B r1 @ cd @ ctd"

definition encryption_proof_challenge ::
  "('f::field, 'g) backend \<Rightarrow> 'g \<Rightarrow> 'g \<Rightarrow> bytes \<Rightarrow> bytes \<Rightarrow> 'f" where
  "encryption_proof_challenge B enc_cmt r1 cd ctd =
    from_le_bytes_mod_order B (sha512 B (encryption_proof_preimage B enc_cmt r1 cd ctd))"

definition generate_encryption_proof ::
  "('f::field, 'g) backend \<Rightarrow> 'f \<Rightarrow> 'g \<Rightarrow> bytes \<Rightarrow> bytes \<Rightarrow> bytes \<Rightarrow> (('f \<times> 'f) \<times> bytes) option" where
  "generate_encryption_proof B r enc_cmt cd ctd rng =
    (case fr_rand_nonzero B rng of
       None \<Rightarrow> None
     | Some (k, rng') \<Rightarrow>
         let r1 = smul B k (generator B);
             c = encryption_proof_challenge B enc_cmt r1 cd ctd;
             z = k + c * r
         in Some ((c, z), rng'))"

text \<open>The public key to encrypt to, after the optional derivation.\<close>

definition encryption_public_key ::
  "('f::field, 'g::zero) backend \<Rightarrow> 'g \<Rightarrow> bytes option \<Rightarrow> 'g result" where
  "encryption_public_key B dkg_pk derivation =
    (case derivation of
       None \<Rightarrow> Inr dkg_pk
     | Some deriv_bytes \<Rightarrow>
         let d = derive_capability_scalar B deriv_bytes
         in if d = 0
            then Inl (ElGamalError ''Derivation produced zero scalar: use different derivation bytes'')
            else
              let derived_pk = smul B d dkg_pk
              in if derived_pk = 0
                 then Inl (ElGamalError ''Derived public key is the identity element'')
                 else Inr derived_pk)"

definition encrypt_secret ::
  "('f::field, 'g::zero) backend \<Rightarrow> 'g \<Rightarrow> bytes \<Rightarrow> bytes option \<Rightarrow> ciphertext_context \<Rightarrow> bytes
    \<Rightarrow> (('g \<times> secret \<times> encryption_proof) result \<times> bytes) option" where
  "encrypt_secret B dkg_pk data derivation ctx rng =
    (if dkg_pk = 0
     then Some (Inl (ElGamalError ''Invalid dkg_pk: cannot be the identity element''), rng)
     else
       case fr_rand_nonzero B rng of
         None \<Rightarrow> None
       | Some (r, rng1) \<Rightarrow>
           let enc_cmt = smul B r (generator B)
           in (case rbind (encryption_public_key B dkg_pk derivation) (\<lambda>effective_pk.
                      derive_key_from_point B (smul B r effective_pk)) of
                 Inl e \<Rightarrow> Some (Inl e, rng1)
               | Inr aes_key \<Rightarrow>
                   let enc_cmt_bytes = point_to_bytes B enc_cmt;
                       cd = context_digest B ctx enc_cmt_bytes
                   in (case fill_bytes 12 rng1 of
                         None \<Rightarrow> None
                       | Some (nonce, rng2) \<Rightarrow>
                           (case aes256gcm_encrypt B aes_key nonce cd data of
                              None \<Rightarrow> Some (Inl (ElGamalError ''Encryption failed''), rng2)
                            | Some ciphertext \<Rightarrow>
                                (case generate_encryption_proof B r enc_cmt cd
                                        (ciphertext_digest B nonce ciphertext) rng2 of
                                   None \<Rightarrow> None
                                 | Some ((c, z), rng3) \<Rightarrow>
                                     Some (Inr (enc_cmt,
                                       \<lparr>sec_enc_cmt = enc_cmt_bytes, sec_encrypted_data = ciphertext,
                                        sec_nonce = nonce\<rparr>,
                                       \<lparr>ep_challenge = scalar_to_bytes B c,
                                        ep_response = scalar_to_bytes B z\<rparr>), rng3))))))"

definition verify_encryption ::
  "('f::field, 'g::ab_group_add) backend \<Rightarrow> encryption_proof \<Rightarrow> ciphertext_context \<Rightarrow> secret
    \<Rightarrow> unit result" where
  "verify_encryption B p ctx s =
    (if length (sec_enc_cmt s) \<noteq> 32
     then Inl (ElGamalError ''Invalid enc_cmt length: expected {}, got {}'')
     else rbind (map_err (ElGamalError ''Failed to deserialize enc_cmt: {:?}'')
                  (element_from_bytes B (sec_enc_cmt s))) (\<lambda>enc_cmt.
       if enc_cmt = 0
       then Inl (ElGamalError ''Invalid enc_cmt: cannot be the identity element'')
       else if length (sec_nonce s) \<noteq> 12
       then Inl (ElGamalError ''Invalid nonce length: must be exactly 12 bytes'')
       else if sec_encrypted_data s = []
       then Inl (ElGamalError ''Empty encrypted data'')
       else if length (ep_challenge p) \<noteq> 32
       then Inl (ElGamalError ''Invalid challenge length: expected {}, got {}'')
       else rbind (map_err (ElGamalError ''Failed to deserialize challenge: {:?}'')
                    (fr_from_bytes B (ep_challenge p))) (\<lambda>challenge.
         if length (ep_response p) \<noteq> 32
         then Inl (ElGamalError ''Invalid response length: expected {}, got {}'')
         else rbind (map_err (ElGamalError ''Failed to deserialize response: {:?}'')
                      (fr_from_bytes B (ep_response p))) (\<lambda>response.
           let r1_prime = smul B response (generator B) - smul B challenge enc_cmt;
               recomputed_challenge = encryption_proof_challenge B enc_cmt r1_prime
                 (context_digest B ctx (sec_enc_cmt s))
                 (ciphertext_digest B (sec_nonce s) (sec_encrypted_data s))
           in if scalar_to_bytes B challenge \<noteq> scalar_to_bytes B recomputed_challenge
              then Inl (ElGamalError ''Encryption proof verification failed'')
              else Inr ()))))"

definition decrypt_secret ::
  "('f::field, 'g::ab_group_add) backend \<Rightarrow> 'g \<Rightarrow> 'g \<Rightarrow> 'f \<Rightarrow> secret \<Rightarrow> ciphertext_context
    \<Rightarrow> bytes result" where
  "decrypt_secret B effective_pk xnc_cmt rdr_sk s ctx =
    (if length (sec_nonce s) \<noteq> 12
     then Inl (ElGamalError ''Invalid nonce length: must be exactly 12 bytes'')
     else if sec_encrypted_data s = [] then Inl (ElGamalError ''Empty encrypted data'')
     else if sec_enc_cmt s = [] then Inl (ElGamalError ''Empty commitment'')
     else
       let xs_g = smul B rdr_sk effective_pk;
           shared_point = xnc_cmt - xs_g
       in rbind (derive_key_from_point B shared_point) (\<lambda>aes_key.
            ok_or (ElGamalError ''Decryption failed - authentication failed'')
              (aes256gcm_decrypt B aes_key (sec_nonce s)
                (context_digest B ctx (sec_enc_cmt s)) (sec_encrypted_data s))))"

section \<open>Reader authorization\<close>

definition reader_authorization_challenge_preimage ::
  "('f, 'g) backend \<Rightarrow> 'g \<Rightarrow> 'g \<Rightarrow> bytes \<Rightarrow> bytes" where
  "reader_authorization_challenge_preimage B rdr_pk r1 digest =
    READER_AUTHORIZATION_DOMAIN @ point_to_bytes B rdr_pk @ point_to_bytes B r1 @ digest"

definition reader_authorization_challenge ::
  "('f::field, 'g) backend \<Rightarrow> 'g \<Rightarrow> 'g \<Rightarrow> bytes \<Rightarrow> 'f" where
  "reader_authorization_challenge B rdr_pk r1 digest =
    from_le_bytes_mod_order B (sha512 B (reader_authorization_challenge_preimage B rdr_pk r1 digest))"

definition generate_reader_authorization_signature ::
  "('f::field, 'g) backend \<Rightarrow> 'f \<Rightarrow> 'g \<Rightarrow> reader_authorization_context \<Rightarrow> bytes
    \<Rightarrow> (('f \<times> 'f) \<times> bytes) option" where
  "generate_reader_authorization_signature B rdr_sk rdr_pk ctx rng =
    (case fr_rand_nonzero B rng of
       None \<Rightarrow> None
     | Some (k, rng') \<Rightarrow>
         let r1 = smul B k (generator B);
             c = reader_authorization_challenge B rdr_pk r1
               (reader_authorization_context_digest B ctx);
             z = k + c * rdr_sk
         in Some ((c, z), rng'))"

definition sign_reader_authorization ::
  "('f::field, 'g) backend \<Rightarrow> 'f \<Rightarrow> 'g \<Rightarrow> reader_authorization_context \<Rightarrow> bytes
    \<Rightarrow> (reader_authorization_signature \<times> bytes) option" where
  "sign_reader_authorization B rdr_sk rdr_pk ctx rng =
    (case generate_reader_authorization_signature B rdr_sk rdr_pk ctx rng of
       None \<Rightarrow> None
     | Some ((c, z), rng') \<Rightarrow>
         Some (\<lparr>ras_challenge = scalar_to_bytes B c, ras_response = scalar_to_bytes B z\<rparr>, rng'))"

definition verify_reader_authorization ::
  "('f::field, 'g::ab_group_add) backend \<Rightarrow> 'g \<Rightarrow> reader_authorization_context
    \<Rightarrow> reader_authorization_signature \<Rightarrow> unit result" where
  "verify_reader_authorization B rdr_pk ctx sig =
    (if rdr_pk = 0
     then Inl (ElGamalError ''Invalid reader public key: cannot be zero point'')
     else if length (ras_challenge sig) \<noteq> 32
     then Inl (ElGamalError ''Invalid reader-authorization-signature challenge length: expected {}, got {}'')
     else rbind (map_err (ElGamalError ''Failed to deserialize reader-authorization-signature challenge: {:?}'')
                  (fr_from_bytes B (ras_challenge sig))) (\<lambda>challenge.
       if length (ras_response sig) \<noteq> 32
       then Inl (ElGamalError ''Invalid reader-authorization-signature response length: expected {}, got {}'')
       else rbind (map_err (ElGamalError ''Failed to deserialize reader-authorization-signature response: {:?}'')
                    (fr_from_bytes B (ras_response sig))) (\<lambda>response.
         let r1_prime = smul B response (generator B) - smul B challenge rdr_pk;
             recomputed_challenge = reader_authorization_challenge B rdr_pk r1_prime
               (reader_authorization_context_digest B ctx)
         in if scalar_to_bytes B challenge \<noteq> scalar_to_bytes B recomputed_challenge
            then Inl (ElGamalError ''Reader authorization signature verification failed'')
            else Inr ())))"

section \<open>Re-encryption shares\<close>

definition decompress_point :: "('f, 'g::zero) backend \<Rightarrow> bytes \<Rightarrow> 'g result" where
  "decompress_point B b =
    (if length b \<noteq> 32 then Inl (ElGamalError ''Invalid point length: expected {}, got {}'')
     else rbind (map_err (ElGamalError ''failed to decompress point: {:?}'')
                  (element_from_bytes B b)) (\<lambda>point.
       if point = 0 then Inl (ElGamalError ''Invalid point: cannot be the identity element'')
       else Inr point))"

definition reencrypt_proof_preimage ::
  "('f, 'g) backend \<Rightarrow> u32 \<Rightarrow> 'g \<Rightarrow> 'g \<Rightarrow> 'g \<Rightarrow> 'g list \<Rightarrow> bytes" where
  "reencrypt_proof_preimage B idx rdr_pk enc_cmt effective_cmt proof_points =
    PRE_PROTOCOL @ le_u32 idx
    @ concat (map (point_to_bytes B) [rdr_pk, enc_cmt, effective_cmt])
    @ concat (map (point_to_bytes B) proof_points)"

definition hash_reencrypt_proof_points ::
  "('f, 'g) backend \<Rightarrow> u32 \<Rightarrow> 'g \<Rightarrow> 'g \<Rightarrow> 'g \<Rightarrow> 'g list \<Rightarrow> bytes" where
  "hash_reencrypt_proof_points B idx rdr_pk enc_cmt effective_cmt proof_points =
    blake2b512 B (reencrypt_proof_preimage B idx rdr_pk enc_cmt effective_cmt proof_points)"

definition reencrypt_internal ::
  "('f::field, 'g::ab_group_add) backend \<Rightarrow> u32 \<Rightarrow> 'f \<Rightarrow> 'g \<Rightarrow> 'g \<Rightarrow> 'f option \<Rightarrow> bytes
    \<Rightarrow> (('g \<times> 'f \<times> 'f) result \<times> bytes) option" where
  "reencrypt_internal B idx dkg_ski rdr_pk enc_cmt derivation_scalar rng =
    (if rdr_pk = 0
     then Some (Inl (ElGamalError ''Invalid reader public key: cannot be zero point''), rng)
     else if enc_cmt = 0
     then Some (Inl (ElGamalError ''Invalid commitment: cannot be zero point''), rng)
     else
       let effective_ski = (case derivation_scalar of Some d \<Rightarrow> d * dkg_ski | None \<Rightarrow> dkg_ski);
           xr_g = rdr_pk + enc_cmt;
           xnc_ski = smul B effective_ski xr_g;
           effective_cmt = smul B effective_ski (generator B)
       in (case fr_rand_nonzero B rng of
             None \<Rightarrow> None
           | Some (ri, rng') \<Rightarrow>
               let ui_hat = smul B ri xr_g;
                   hi_hat = smul B ri (generator B);
                   chlgi = from_le_bytes_mod_order B (hash_reencrypt_proof_points B idx rdr_pk
                     enc_cmt effective_cmt [xnc_ski, ui_hat, hi_hat]);
                   proofi = ri + chlgi * effective_ski
               in Some (Inr (xnc_ski, chlgi, proofi), rng')))"

definition reencrypt ::
  "('f::field, 'g::ab_group_add) backend \<Rightarrow> 'f dist_key_share \<Rightarrow> secret \<Rightarrow> 'g
    \<Rightarrow> reader_authorization_context \<Rightarrow> reader_authorization_signature \<Rightarrow> bytes
    \<Rightarrow> (('f, 'g) reencrypt_reply result \<times> bytes) option" where
  "reencrypt B share scrt rdr_pk ctx sig rng =
    (if sec_enc_cmt scrt = []
     then Some (Inl (ElGamalError ''Empty commitment in secret''), rng)
     else
       let idx = pri_i (dks_pri_share share); ski = pri_v (dks_pri_share share)
       in if idx = 0
          then Some (Inl (ElGamalError ''Invalid share index: {} (must not be 0)''), rng)
          else
            (case rbind (verify_reader_authorization B rdr_pk ctx sig) (\<lambda>_.
                  rbind (decompress_point B (sec_enc_cmt scrt)) (\<lambda>enc_cmt.
                    let derivation_scalar = map_option (derive_capability_scalar B) (rac_derivation ctx)
                    in if derivation_scalar = Some 0
                       then Inl (ElGamalError ''Derivation produced zero scalar: use different derivation bytes'')
                       else Inr (enc_cmt, derivation_scalar))) of
               Inl e \<Rightarrow> Some (Inl e, rng)
             | Inr (enc_cmt, derivation_scalar) \<Rightarrow>
                 (case reencrypt_internal B idx ski rdr_pk enc_cmt derivation_scalar rng of
                    None \<Rightarrow> None
                  | Some (Inl e, rng') \<Rightarrow> Some (Inl e, rng')
                  | Some (Inr (xnc_ski, chlgi, proofi), rng') \<Rightarrow>
                      Some (Inr \<lparr>rr_share = \<lparr>pub_i = idx, pub_v = xnc_ski\<rparr>, rr_challenge = chlgi,
                              rr_proof = proofi\<rparr>, rng'))))"

definition verify_internal ::
  "('f::field, 'g::ab_group_add) backend \<Rightarrow> u32 \<Rightarrow> 'g \<Rightarrow> 'g \<Rightarrow> 'g \<Rightarrow> 'f \<Rightarrow> 'f \<Rightarrow> 'g \<Rightarrow> unit result" where
  "verify_internal B idx rdr_pk enc_cmt xnc_ski chlgi proofi effective_cmt =
    (let xr_g = rdr_pk + enc_cmt;
         ui_hat = smul B proofi xr_g - smul B chlgi xnc_ski;
         hi_hat = smul B proofi (generator B) - smul B chlgi effective_cmt;
         chlg = from_le_bytes_mod_order B (hash_reencrypt_proof_points B idx rdr_pk enc_cmt
           effective_cmt [xnc_ski, ui_hat, hi_hat])
     in if scalar_to_bytes B chlg \<noteq> scalar_to_bytes B chlgi
        then Inl (ElGamalError ''Cryptographic verification failed'')
        else Inr ())"

definition pre_verify ::
  "('f::field, 'g::ab_group_add) backend \<Rightarrow> 'g \<Rightarrow> 'g pub_poly \<Rightarrow> 'g \<Rightarrow> ('f, 'g) reencrypt_reply
    \<Rightarrow> bytes option \<Rightarrow> unit result" where
  "pre_verify B rdr_pk dkg_cmt enc_cmt reply derivation =
    (let idx = pub_i (rr_share reply);
         dkg_cmt_eval = pub_poly_eval B dkg_cmt idx;
         effective_cmt = (case derivation of
             Some deriv_bytes \<Rightarrow> smul B (derive_capability_scalar B deriv_bytes) dkg_cmt_eval
           | None \<Rightarrow> dkg_cmt_eval)
     in verify_internal B idx rdr_pk enc_cmt (pub_v (rr_share reply)) (rr_challenge reply)
          (rr_proof reply) effective_cmt)"

section \<open>Recovery\<close>

text \<open>The validation loop of \<open>recover_commit\<close>: range check, then insertion into the seen set.\<close>

definition check_share_index :: "nat \<Rightarrow> u32 \<Rightarrow> u32 set \<Rightarrow> u32 set result" where
  "check_share_index n idx seen_indices =
    (if idx < 1 \<or> idx > as_u32 n
     then Inl (ElGamalError ''Invalid share index: {} (must be in range [1, {}])'')
     else if idx \<in> seen_indices then Inl (ElGamalError ''Duplicate share index: {}'')
     else Inr (insert idx seen_indices))"

text \<open>The Lagrange coefficient of the share at position \<open>i\<close>, by positions as in the source.\<close>

definition recover_lambda :: "u32 list \<Rightarrow> nat \<Rightarrow> 'f::field result" where
  "recover_lambda ids i =
    (let (num, den) = fold (\<lambda>j (num, den).
           if j = i then (num, den)
           else (num * fr_of_u32 (ids ! j), den * (fr_of_u32 (ids ! j) - fr_of_u32 (ids ! i))))
           [0..<length ids] (1, 1)
     in rbind (ok_or (ElGamalError
            ''Division by zero in Lagrange interpolation - this should not happen after validation'')
          (fr_inverse den)) (\<lambda>inv. Inr (num * inv)))"

definition recover_commit ::
  "('f::field, 'g::ab_group_add) backend \<Rightarrow> 'g pub_share list \<Rightarrow> nat \<Rightarrow> nat \<Rightarrow> 'g option result" where
  "recover_commit B shares t n =
    (let shares_to_use = take t shares; ids = map pub_i shares_to_use
     in rbind (for_each (check_share_index n) ids {}) (\<lambda>_.
        rbind (for_each (\<lambda>i result.
            rbind (recover_lambda ids i) (\<lambda>lambda.
              Inr (result + smul B lambda (pub_v (shares_to_use ! i)))))
            [0..<length shares_to_use] 0) (\<lambda>result.
          Inr (Some result))))"

definition pre_recover ::
  "('f::field, 'g::ab_group_add) backend \<Rightarrow> 'g pub_share list \<Rightarrow> nat \<Rightarrow> nat \<Rightarrow> 'g option result" where
  "pre_recover B xnc_ski t n =
    (if t = 0 then Inl (ElGamalError ''Threshold must be greater than zero'')
     else if t > n then Inl (ElGamalError ''Threshold {} exceeds total shares {}'')
     else if length xnc_ski < t then Inr None
     else recover_commit B xnc_ski t n)"

end
