(* ===== verification/Pre_Security.thy ===== *)
theory Pre_Security
  imports Pre
begin

text \<open>
  The properties of proxy re-encryption.  Completeness: an honest encryption verifies, an honest
  authorization verifies, honest replies verify, and a threshold of them lets exactly the
  intended reader decrypt, with or without a derivation.  Soundness: one hash query admits at
  most one accepting challenge for a wrong share, two authorizations that answer one query
  reveal the reader's key, and proofs and authorizations cannot be moved to another context.
\<close>

text \<open>The factor a derivation applies to keys and shares.\<close>

abbreviation derived :: "('f::field, 'g) backend \<Rightarrow> bytes option \<Rightarrow> 'f" where
  "derived B derivation \<equiv> case_option 1 (derive_capability_scalar B) derivation"

section \<open>Inversion lemmas\<close>

context lawful_backend
begin

lemma verify_encryption_iff:
  "verify_encryption B p ctx s = Inr () \<longleftrightarrow>
    (\<exists>U c z. sec_enc_cmt s = point_to_bytes B U \<and> U \<noteq> 0 \<and> length (sec_nonce s) = 12 \<and>
      sec_encrypted_data s \<noteq> [] \<and> ep_challenge p = scalar_to_bytes B c \<and>
      ep_response p = scalar_to_bytes B z \<and>
      c = encryption_proof_challenge B U (smul B z (generator B) - smul B c U)
        (context_digest B ctx (sec_enc_cmt s))
        (ciphertext_digest B (sec_nonce s) (sec_encrypted_data s)))"
  by (auto simp: verify_encryption_def Let_def result_simps element_from_bytes_iff fr_from_bytes_iff
      point_width scalar_width split: if_splits)

lemma verify_reader_authorization_iff:
  "verify_reader_authorization B pk ctx sig = Inr () \<longleftrightarrow>
    (\<exists>c z. pk \<noteq> 0 \<and> ras_challenge sig = scalar_to_bytes B c \<and>
      ras_response sig = scalar_to_bytes B z \<and>
      c = reader_authorization_challenge B pk (smul B z (generator B) - smul B c pk)
        (reader_authorization_context_digest B ctx))"
  by (auto simp: verify_reader_authorization_def Let_def result_simps fr_from_bytes_iff
      scalar_width split: if_splits)

lemma verify_internal_iff:
  "verify_internal B idx pk U X c f C = Inr () \<longleftrightarrow>
    c = from_le_bytes_mod_order B (hash_reencrypt_proof_points B idx pk U C
      [X, smul B f (pk + U) - smul B c X, smul B f (generator B) - smul B c C])"
  by (auto simp: verify_internal_def Let_def)

lemma encrypt_secret_Inr:
  assumes "encrypt_secret B dkg_pk data derivation ctx rng = Some (Inr (U, s, p), rng')"
  obtains r k effective_pk key c where
    "dkg_pk \<noteq> 0" "r \<noteq> 0" "U = smul B r (generator B)"
    "encryption_public_key B dkg_pk derivation = Inr effective_pk"
    "derive_key_from_point B (smul B r effective_pk) = Inr key"
    "sec_enc_cmt s = point_to_bytes B U" "length (sec_nonce s) = 12"
    "aes256gcm_encrypt B key (sec_nonce s) (context_digest B ctx (sec_enc_cmt s)) data
      = Some (sec_encrypted_data s)"
    "c = encryption_proof_challenge B U (smul B k (generator B))
      (context_digest B ctx (sec_enc_cmt s))
      (ciphertext_digest B (sec_nonce s) (sec_encrypted_data s))"
    "ep_challenge p = scalar_to_bytes B c" "ep_response p = scalar_to_bytes B (k + c * r)"
  using assms
  by (auto simp: encrypt_secret_def generate_encryption_proof_def Let_def result_simps fill_bytes_Some
      dest: fr_rand_nonzero_Some split: if_splits option.splits sum.splits prod.splits)

lemma reencrypt_Inr:
  assumes "reencrypt B share s pk ctx sig rng = Some (Inr reply, rng')"
  obtains U x k c where
    "verify_reader_authorization B pk ctx sig = Inr ()" "pri_i (dks_pri_share share) \<noteq> 0"
    "sec_enc_cmt s = point_to_bytes B U" "U \<noteq> 0"
    "x = derived B (rac_derivation ctx) * pri_v (dks_pri_share share)"
    "rr_share reply = \<lparr>pub_i = pri_i (dks_pri_share share), pub_v = smul B x (pk + U)\<rparr>"
    "c = from_le_bytes_mod_order B (hash_reencrypt_proof_points B (pri_i (dks_pri_share share)) pk U
      (smul B x (generator B)) [smul B x (pk + U), smul B k (pk + U), smul B k (generator B)])"
    "rr_challenge reply = c" "rr_proof reply = k + c * x"
  using assms
  by (cases "rac_derivation ctx")
    (auto simp: reencrypt_def reencrypt_internal_def decompress_point_def Let_def result_simps
      element_from_bytes_iff split: if_splits option.splits sum.splits prod.splits)

lemma encryption_public_key_Inr:
  "encryption_public_key B dkg_pk derivation = Inr pk \<Longrightarrow> pk = smul B (derived B derivation) dkg_pk"
  by (auto simp: encryption_public_key_def Let_def split: option.splits if_splits)

section \<open>Recovery\<close>

lemma recover_lambda_value:
  assumes "distinct ids" "i < length ids"
  shows "recover_lambda ids i = Inr (weight0 ids (ids ! i) :: 'f)"
proof -
  have "set [0..<length ids] - {i} = {0..<length ids} - {i}" by auto
  then show ?thesis
    using weight0_by_position [OF assms]
    by (simp add: recover_lambda_def fold_num_den prod_list_others fr_inverse_def Let_def)
qed

end

lemma check_share_indices:
  "for_each (check_share_index n) ids seen = Inr r \<longleftrightarrow>
    distinct ids \<and> set ids \<inter> seen = {} \<and> (\<forall>i \<in> set ids. i \<noteq> 0 \<and> i \<le> as_u32 n) \<and>
    r = seen \<union> set ids"
  by (induction ids arbitrary: seen)
    (auto simp: check_share_index_def result_simps not_less split: if_splits)

context lawful_backend
begin

lemma recover_commit_value:
  assumes "length ids = t" "distinct ids" "\<forall>i \<in> set ids. i \<noteq> 0 \<and> i \<le> as_u32 n"
    and "map pub_i (take t shares) = ids"
  shows "recover_commit B shares t n =
    Inr (Some (\<Sum>i\<leftarrow>[0..<t]. smul B (weight0 ids (ids ! i)) (pub_v (shares ! i))))"
proof -
  have len: "length (take t shares) = t" using assms(1,4) by (metis length_map)
  have "for_each (check_share_index n) ids {} = Inr (set ids)"
    using assms(2,3) by (simp add: check_share_indices)
  moreover have "for_each (\<lambda>i result. rbind (recover_lambda ids i) (\<lambda>lambda.
      Inr (result + smul B lambda (pub_v (take t shares ! i))))) [0..<t] 0
      = Inr (fold (\<lambda>i result. result + smul B (weight0 ids (ids ! i)) (pub_v (shares ! i))) [0..<t] 0)"
    using assms(1,2) by (intro for_each_total) (simp add: recover_lambda_value)
  ultimately show ?thesis
    using len assms(4) by (simp add: recover_commit_def Let_def fold_sum_list)
qed

lemma pre_recover_value:
  assumes "0 < t" "t \<le> n" "t \<le> length shares" "length cs \<le> t" "cs \<noteq> []"
    and "distinct (map pub_i (take t shares))"
    and "\<forall>i \<in> set (map pub_i (take t shares)). i \<noteq> 0 \<and> i \<le> as_u32 n"
    and "\<forall>s \<in> set (take t shares). pub_v s = smul B x (poly_value (smul B) cs (fr_of_u32 (pub_i s)))"
  shows "pre_recover B shares t n = Inr (Some (smul B x (cs ! 0)))"
proof -
  let ?ids = "map pub_i (take t shares)"
  have len: "length ?ids = t" using assms(3) by simp
  have v: "pub_v (shares ! i) = smul B x (poly_value (smul B) cs (fr_of_u32 (?ids ! i)))"
    if "i < length ?ids" for i
    using that assms(8) by (auto simp: all_set_conv_all_nth)
  show ?thesis
    using assms(1-3) recover_commit_value [OF len assms(6,7)]
      interpolate_positions [OF assms(6) _ assms(5) v] assms(4) len
    by (simp add: pre_recover_def)
qed

end

context lawful_backend
begin

lemma pre_verify_unfold:
  "pre_verify B pk P U reply derivation =
    verify_internal B (pub_i (rr_share reply)) pk U (pub_v (rr_share reply)) (rr_challenge reply)
      (rr_proof reply) (smul B (derived B derivation) (pub_poly_eval B P (pub_i (rr_share reply))))"
  by (cases derivation) (simp_all add: pre_verify_def Let_def)

lemma honest_proof_verifies:
  assumes "c = from_le_bytes_mod_order B (hash_reencrypt_proof_points B i pk U
      (smul B x (generator B)) [smul B x (pk + U), smul B k (pk + U), smul B k (generator B)])"
  shows "verify_internal B i pk U (smul B x (pk + U)) c (k + c * x) (smul B x (generator B)) = Inr ()"
  unfolding verify_internal_iff sigma_complete by (rule assms)

lemma decrypt_algebra:
  "smul B (d * (x + r)) P - smul B x (smul B d P) = smul B r (smul B d P)"
  by (simp add: algebra_simps points.scale_left_distrib)

lemma reply_on_polynomial:
  assumes "reencrypt B share s (smul B rdr_sk (generator B)) actx sig tape = Some (Inr reply, tape')"
    and "sec_enc_cmt s = point_to_bytes B (smul B r (generator B))"
    and "smul B (pri_v (dks_pri_share share)) (generator B)
      = pub_poly_eval B P (pri_i (dks_pri_share share))"
  shows "pub_i (rr_share reply) \<noteq> 0 \<and> pub_v (rr_share reply)
    = smul B (derived B (rac_derivation actx) * (rdr_sk + r))
        (poly_value (smul B) (commits P) (fr_of_u32 (pub_i (rr_share reply))))"
  using assms(1)
proof (rule reencrypt_Inr)
  fix U x k c
  assume U: "sec_enc_cmt s = point_to_bytes B U"
    and x: "x = derived B (rac_derivation actx) * pri_v (dks_pri_share share)"
    and share: "rr_share reply = \<lparr>pub_i = pri_i (dks_pri_share share),
      pub_v = smul B x (smul B rdr_sk (generator B) + U)\<rparr>"
    and i: "pri_i (dks_pri_share share) \<noteq> 0"
  have V: "U = smul B r (generator B)" using U assms(2) by simp
  have "smul B x (smul B rdr_sk (generator B) + U)
      = smul B (derived B (rac_derivation actx) * (rdr_sk + r))
          (smul B (pri_v (dks_pri_share share)) (generator B))"
    unfolding V x by (simp add: points.scale_right_distrib points.scale_left_distrib algebra_simps)
  with share i assms(3) show ?thesis by (simp add: pub_poly_eval_value)
qed

end

section \<open>A run over the reference field\<close>

text \<open>
  The ring has the public polynomial \<open>3 + 12x\<close>, so nodes 1 and 2 hold the shares 15 and 27.  The
  encryptor draws \<open>r = 5\<close>, the reader's secret key is 2, and everything happens under a derivation.
\<close>

definition ex_scalar_tape :: bytes where
  "ex_scalar_tape = 7 # replicate 31 0"

definition ex_enc_tape :: bytes where
  "ex_enc_tape = 5 # replicate 31 0 @ replicate 12 0 @ ex_scalar_tape"

definition ex_stored :: secret where
  "ex_stored = \<lparr>sec_enc_cmt = 5 # replicate 31 0, sec_encrypted_data = [1, 2, 3, 75] @ replicate 15 0,
     sec_nonce = replicate 12 0\<rparr>"

definition ex_stored_proof :: encryption_proof where
  "ex_stored_proof = \<lparr>ep_challenge = 67 # replicate 31 0, ep_response = [86, 1] @ replicate 30 0\<rparr>"

definition ex_request :: reader_authorization_context where
  "ex_request = ex_reader_context\<lparr>rac_derivation := Some [4]\<rparr>"

definition ex_sig :: reader_authorization_signature where
  "ex_sig = \<lparr>ras_challenge = 204 # replicate 31 0, ras_response = [159, 1] @ replicate 30 0\<rparr>"

definition ex_key_share :: "u32 \<Rightarrow> ref_scalar \<Rightarrow> ref_scalar dist_key_share" where
  "ex_key_share i v = \<lparr>dks_pri_share = \<lparr>pri_i = i, pri_v = v\<rparr>\<rparr>"

definition ex_reply :: "u32 \<Rightarrow> ref_scalar \<Rightarrow> ref_scalar \<Rightarrow> ref_scalar \<Rightarrow> (ref_scalar, ref_scalar) reencrypt_reply" where
  "ex_reply i v c z = \<lparr>rr_share = \<lparr>pub_i = i, pub_v = v\<rparr>, rr_challenge = c, rr_proof = z\<rparr>"

lemma ex_encrypt:
  "encrypt_secret ref_backend 3 [1, 2, 3] (Some [4]) ex_context ex_enc_tape
    = Some (Inr (5, ex_stored, ex_stored_proof), [])"
  by code_simp

lemma ex_sign: "sign_reader_authorization ref_backend 2 2 ex_request ex_scalar_tape = Some (ex_sig, [])"
  by code_simp

lemma ex_reencrypt:
  "reencrypt ref_backend (ex_key_share 1 15) ex_stored 2 ex_request ex_sig ex_scalar_tape
    = Some (Inr (ex_reply 1 4305 4 2467), [])"
  "reencrypt ref_backend (ex_key_share 2 27) ex_stored 2 ex_request ex_sig ex_scalar_tape
    = Some (Inr (ex_reply 2 7749 207 229156), [])"
  by code_simp+

lemma ex_ring:
  "smul ref_backend 15 (generator ref_backend) = pub_poly_eval ref_backend \<lparr>commits = [3, 12]\<rparr> 1"
  "smul ref_backend 27 (generator ref_backend) = pub_poly_eval ref_backend \<lparr>commits = [3, 12]\<rparr> 2"
  "encryption_public_key ref_backend 3 (Some [4]) = Inr 123"
  by code_simp+

lemma ex_commitment: "sec_enc_cmt ex_stored = point_to_bytes ref_backend 5"
  by code_simp

section \<open>Completeness\<close>

text \<open>
  every secret that encryption returns passes the verification of its encryption proof in the
  context it was made for.
\<close>

theorem encryption_verifies:
  assumes "lawful_backend B"
    and "encrypt_secret B dkg_pk data derivation ctx rng = Some (Inr (U, s, p), rng')"
  shows "verify_encryption B p ctx s = Inr ()"
  using assms(2)
proof (rule lawful_backend.encrypt_secret_Inr [OF assms(1)])
  fix r k effective_pk key c
  assume U: "U = smul B r (generator B)" and r: "r \<noteq> 0"
    and s: "sec_enc_cmt s = point_to_bytes B U" "length (sec_nonce s) = 12"
    and ct: "aes256gcm_encrypt B key (sec_nonce s) (context_digest B ctx (sec_enc_cmt s)) data
      = Some (sec_encrypted_data s)"
    and c: "c = encryption_proof_challenge B U (smul B k (generator B))
      (context_digest B ctx (sec_enc_cmt s))
      (ciphertext_digest B (sec_nonce s) (sec_encrypted_data s))"
    and p: "ep_challenge p = scalar_to_bytes B c" "ep_response p = scalar_to_bytes B (k + c * r)"
  have "U \<noteq> 0" using r U lawful_backend.generator_free [OF assms(1)] by auto
  moreover have "sec_encrypted_data s \<noteq> []"
    using lawful_backend.aes_tag_length [OF assms(1) ct] by auto
  moreover have R: "smul B (k + c * r) (generator B) - smul B c U = smul B k (generator B)"
    unfolding U by (rule lawful_backend.sigma_complete [OF assms(1)])
  ultimately show ?thesis
    unfolding lawful_backend.verify_encryption_iff [OF assms(1)] using s p
    by (intro exI [of _ U] exI [of _ c] exI [of _ "k + c * r"] conjI)
      (assumption | unfold R, rule c)+
qed

theorem encryption_verifies_witness:
  "verify_encryption ref_backend ex_stored_proof ex_context ex_stored = Inr ()"
  by (rule encryption_verifies [OF reference.lawful_backend_axioms ex_encrypt])

text \<open>
  an authorization signed with the reader's secret key verifies under the reader's public key
  for the signed request.
\<close>

theorem reader_authorization_verifies:
  assumes "lawful_backend B" "rdr_sk \<noteq> 0" "rdr_pk = smul B rdr_sk (generator B)"
    and "sign_reader_authorization B rdr_sk rdr_pk ctx rng = Some (sig, rng')"
  shows "verify_reader_authorization B rdr_pk ctx sig = Inr ()"
proof -
  obtain k c where c: "c = reader_authorization_challenge B rdr_pk (smul B k (generator B))
      (reader_authorization_context_digest B ctx)"
    and sig: "ras_challenge sig = scalar_to_bytes B c" "ras_response sig = scalar_to_bytes B (k + c * rdr_sk)"
    using assms(4)
    by (auto simp: sign_reader_authorization_def generate_reader_authorization_signature_def Let_def
        split: option.splits)
  have "rdr_pk \<noteq> 0" using assms(2,3) lawful_backend.generator_free [OF assms(1)] by auto
  moreover have R: "smul B (k + c * rdr_sk) (generator B) - smul B c rdr_pk = smul B k (generator B)"
    unfolding assms(3) by (rule lawful_backend.sigma_complete [OF assms(1)])
  ultimately show ?thesis
    unfolding lawful_backend.verify_reader_authorization_iff [OF assms(1)] using sig
    by (intro exI [of _ c] exI [of _ "k + c * rdr_sk"] conjI) (assumption | unfold R, rule c)+
qed

theorem reader_authorization_verifies_witness:
  "verify_reader_authorization ref_backend 2 ex_request ex_sig = Inr ()"
proof -
  have "(2 :: ref_scalar) \<noteq> 0" by code_simp
  then show ?thesis
    using reader_authorization_verifies [OF reference.lawful_backend_axioms _ _ ex_sign] by simp
qed

text \<open>
  the reply of a node whose key share lies on the public polynomial passes verification
  against that polynomial, for the derivation the authorization names.
\<close>

theorem reencrypt_reply_verifies:
  assumes "lawful_backend B"
    and "reencrypt B share s rdr_pk ctx sig rng = Some (Inr reply, rng')"
    and "sec_enc_cmt s = point_to_bytes B U"
    and "smul B (pri_v (dks_pri_share share)) (generator B)
      = pub_poly_eval B P (pri_i (dks_pri_share share))"
  shows "pre_verify B rdr_pk P U reply (rac_derivation ctx) = Inr ()"
  using assms(2)
proof (rule lawful_backend.reencrypt_Inr [OF assms(1)])
  fix V x k c
  assume V: "sec_enc_cmt s = point_to_bytes B V"
    and x: "x = derived B (rac_derivation ctx) * pri_v (dks_pri_share share)"
    and share: "rr_share reply = \<lparr>pub_i = pri_i (dks_pri_share share), pub_v = smul B x (rdr_pk + V)\<rparr>"
    and c: "c = from_le_bytes_mod_order B (hash_reencrypt_proof_points B (pri_i (dks_pri_share share))
      rdr_pk V (smul B x (generator B)) [smul B x (rdr_pk + V), smul B k (rdr_pk + V), smul B k (generator B)])"
    and reply: "rr_challenge reply = c" "rr_proof reply = k + c * x"
  have "V = U" using V assms(3) lawful_backend.point_bytes_eq_iff [OF assms(1)] by simp
  moreover have "smul B (derived B (rac_derivation ctx)) (pub_poly_eval B P (pri_i (dks_pri_share share)))
      = smul B x (generator B)"
    by (simp add: x module.scale_scale [OF lawful_backend.smul_module [OF assms(1)]]
        flip: assms(4))
  ultimately show ?thesis
    using lawful_backend.honest_proof_verifies [OF assms(1) c] share reply
    by (simp add: lawful_backend.pre_verify_unfold [OF assms(1)])
qed

theorem reencrypt_reply_verifies_witness:
  "pre_verify ref_backend 2 \<lparr>commits = [3, 12]\<rparr> 5 (ex_reply 1 4305 4 2467) (Some [4]) = Inr ()"
  using reencrypt_reply_verifies [OF reference.lawful_backend_axioms ex_reencrypt(1) ex_commitment,
      of "\<lparr>commits = [3, 12]\<rparr>"] ex_ring(1)
  by (simp add: ex_key_share_def ex_request_def)

text \<open>
  C23: the end-to-end round trip.  Encrypt under the ring key, with or without a derivation; let
  nodes whose shares lie on the ring's public polynomial re-encrypt for an authorized reader;
  take any \<open>t\<close> of their replies with distinct indices, \<open>t\<close> at least the number of coefficients.
  Recovery succeeds, and the reader decrypts the original data.
\<close>

theorem reencryption_roundtrip:
  assumes "lawful_backend B" "commits P \<noteq> []" "length (commits P) \<le> t" "0 < t" "t \<le> n"
    and "encrypt_secret B (commits P ! 0) data derivation ctx rng = Some (Inr (U, s, p), rng')"
    and "rdr_pk = smul B rdr_sk (generator B)" "rac_derivation actx = derivation"
    and "list_all2 (\<lambda>share reply.
        smul B (pri_v (dks_pri_share share)) (generator B)
          = pub_poly_eval B P (pri_i (dks_pri_share share)) \<and>
        (\<exists>tape tape'. reencrypt B share s rdr_pk actx sig tape = Some (Inr reply, tape')))
      shares replies"
    and "t \<le> length replies" "distinct (map (\<lambda>r. pub_i (rr_share r)) (take t replies))"
    and "list_all (\<lambda>r. pub_i (rr_share r) \<le> as_u32 n) (take t replies)"
    and "encryption_public_key B (commits P ! 0) derivation = Inr effective_pk"
  shows "\<exists>xnc_cmt. pre_recover B (map rr_share replies) t n = Inr (Some xnc_cmt) \<and>
    decrypt_secret B effective_pk xnc_cmt rdr_sk s ctx = Inr data"
  using assms(6)
proof (rule lawful_backend.encrypt_secret_Inr [OF assms(1)])
  fix r k eff key c
  assume U: "U = smul B r (generator B)" and s: "sec_enc_cmt s = point_to_bytes B U"
    "length (sec_nonce s) = 12"
    and eff: "encryption_public_key B (commits P ! 0) derivation = Inr eff"
    and key: "derive_key_from_point B (smul B r eff) = Inr key"
    and ct: "aes256gcm_encrypt B key (sec_nonce s) (context_digest B ctx (sec_enc_cmt s)) data
      = Some (sec_encrypted_data s)"
  let ?x = "derived B derivation * (rdr_sk + r)"
  have each: "pub_i (rr_share reply) \<noteq> 0 \<and> pub_v (rr_share reply)
      = smul B ?x (poly_value (smul B) (commits P) (fr_of_u32 (pub_i (rr_share reply))))"
    if mem: "reply \<in> set replies" for reply
  proof -
    obtain share tape tape' where
      "smul B (pri_v (dks_pri_share share)) (generator B)
          = pub_poly_eval B P (pri_i (dks_pri_share share))"
      "reencrypt B share s rdr_pk actx sig tape = Some (Inr reply, tape')"
      using list_all2_right [OF assms(9) mem] by blast
    then show ?thesis
      using lawful_backend.reply_on_polynomial [OF assms(1)] s(1) U assms(7,8) by blast
  qed
  have "pre_recover B (map rr_share replies) t n = Inr (Some (smul B ?x (commits P ! 0)))"
    using assms(2-5,10-12) each
    by (intro lawful_backend.pre_recover_value [OF assms(1)])
      (auto simp: take_map list_all_iff comp_def dest: in_set_takeD)
  moreover have "effective_pk = eff" using eff assms(13) by simp
  moreover have "smul B ?x (commits P ! 0) - smul B rdr_sk eff = smul B r eff"
    using lawful_backend.encryption_public_key_Inr [OF assms(1) eff]
    by (simp add: lawful_backend.decrypt_algebra [OF assms(1)])
  ultimately show ?thesis
    using s key lawful_backend.aes_decrypt_encrypt [OF assms(1) ct]
      lawful_backend.aes_tag_length [OF assms(1) ct] lawful_backend.point_width [OF assms(1), of U]
    by (auto simp: decrypt_secret_def Let_def)
qed

theorem reencryption_roundtrip_witness:
  "\<exists>xnc_cmt. pre_recover ref_backend (map rr_share [ex_reply 1 4305 4 2467, ex_reply 2 7749 207 229156]) 2 2
      = Inr (Some xnc_cmt) \<and>
    decrypt_secret ref_backend 123 xnc_cmt 2 ex_stored ex_context = Inr [1, 2, 3]"
proof (rule reencryption_roundtrip [where P = "\<lparr>commits = [3, 12]\<rparr>" and actx = ex_request
      and shares = "[ex_key_share 1 15, ex_key_share 2 27]" and sig = ex_sig and rdr_pk = 2])
  show "list_all2 (\<lambda>share reply.
        smul ref_backend (pri_v (dks_pri_share share)) (generator ref_backend)
          = pub_poly_eval ref_backend \<lparr>commits = [3, 12]\<rparr> (pri_i (dks_pri_share share)) \<and>
        (\<exists>tape tape'. reencrypt ref_backend share ex_stored 2 ex_request ex_sig tape = Some (Inr reply, tape')))
      [ex_key_share 1 15, ex_key_share 2 27] [ex_reply 1 4305 4 2467, ex_reply 2 7749 207 229156]"
    using ex_reencrypt ex_ring(1,2) by (simp add: ex_key_share_def) blast
qed (use ex_encrypt ex_ring(3) reference.lawful_backend_axioms in
    \<open>simp_all add: ex_request_def ex_reply_def as_u32_def\<close>)

section \<open>Soundness\<close>

text \<open>The query a verifier makes to the hash function for a re-encryption proof.\<close>

definition reply_query :: "('f::field, 'g::ab_group_add) backend \<Rightarrow> u32 \<Rightarrow> 'g \<Rightarrow> 'g \<Rightarrow> 'g \<Rightarrow> 'f \<Rightarrow> 'f
    \<Rightarrow> 'g \<Rightarrow> bytes" where
  "reply_query B idx rdr_pk enc_cmt xnc_ski chlgi proofi effective_cmt =
    reencrypt_proof_preimage B idx rdr_pk enc_cmt effective_cmt
      [xnc_ski, smul B proofi (rdr_pk + enc_cmt) - smul B chlgi xnc_ski,
       smul B proofi (generator B) - smul B chlgi effective_cmt]"

context lawful_backend
begin

lemma reencrypt_proof_preimage_inject:
  "reencrypt_proof_preimage B i pk U C [x, y, z] = reencrypt_proof_preimage B i' pk' U' C' [x', y', z']
    \<longleftrightarrow> i = i' \<and> pk = pk' \<and> U = U' \<and> C = C' \<and> x = x' \<and> y = y' \<and> z = z'"
proof
  assume "reencrypt_proof_preimage B i pk U C [x, y, z] = reencrypt_proof_preimage B i' pk' U' C' [x', y', z']"
  then have "le_u32 i = le_u32 i'" "pk = pk' \<and> U = U' \<and> C = C' \<and> x = x' \<and> y = y' \<and> z = z'"
    by (simp_all add: reencrypt_proof_preimage_def point_width append_eq_append_conv)
  moreover have "i = i'" using arg_cong [OF calculation(1), of u32_of_le] by simp
  ultimately show "i = i' \<and> pk = pk' \<and> U = U' \<and> C = C' \<and> x = x' \<and> y = y' \<and> z = z'" by simp
qed simp

end

text \<open>
  C24: soundness of the re-encryption proof.  Let \<open>s\<close> be the effective key share behind the public
  commitment and let the reply carry any other point than the share's re-encryption.  Then a
  hash query admits at most one accepting answer: if two hash functions answer the query of two
  accepting proofs, their answers give the same challenge.
\<close>

theorem wrong_share_one_challenge:
  assumes "lawful_backend B" "effective_cmt = smul B s (generator B)"
    and "xnc_ski \<noteq> smul B s (rdr_pk + enc_cmt)"
    and "verify_internal B idx rdr_pk enc_cmt xnc_ski c z effective_cmt = Inr ()"
    and "verify_internal (B\<lparr>blake2b512 := h\<rparr>) idx rdr_pk enc_cmt xnc_ski c' z' effective_cmt = Inr ()"
    and "reply_query B idx rdr_pk enc_cmt xnc_ski c z effective_cmt = q"
    and "reply_query B idx rdr_pk enc_cmt xnc_ski c' z' effective_cmt = q"
  shows "from_le_bytes_mod_order B (blake2b512 B q) = from_le_bytes_mod_order B (h q)"
proof (rule ccontr)
  assume ne: "from_le_bytes_mod_order B (blake2b512 B q) \<noteq> from_le_bytes_mod_order B (h q)"
  have c: "c = from_le_bytes_mod_order B (blake2b512 B q)"
    using assms(4,6)
    by (simp add: lawful_backend.verify_internal_iff [OF assms(1)] hash_reencrypt_proof_points_def
        reply_query_def)
  have "c' = from_le_bytes_mod_order B (h q)"
    using assms(5,7) lawful_backend.scalar_bytes_eq_iff [OF assms(1)]
    by (simp add: verify_internal_def Let_def hash_reencrypt_proof_points_def reply_query_def
        reencrypt_proof_preimage_def from_le_bytes_mod_order_def split: if_splits)
  with c ne have "c \<noteq> c'" by simp
  with assms(2,3,6,7) show False
    using lawful_backend.dleq_extract [OF assms(1), of z "rdr_pk + enc_cmt" c xnc_ski z' c' "generator B" effective_cmt s]
      lawful_backend.generator_nonzero [OF assms(1)]
    by (auto simp: reply_query_def lawful_backend.reencrypt_proof_preimage_inject [OF assms(1)])
qed

theorem wrong_share_one_challenge_witness:
  "(8 :: ref_scalar) \<noteq> 1 * (2 + 5) \<and>
    from_le_bytes_mod_order ref_backend (blake2b512 ref_backend (reply_query ref_backend 1 2 5 8 86 2000 1))
      = from_le_bytes_mod_order ref_backend (86 # replicate 63 0)"
proof -
  have ne: "(8 :: ref_scalar) \<noteq> smul ref_backend 1 (2 + 5)" by code_simp
  have "verify_internal ref_backend 1 2 5 8 86 2000 1 = Inr ()"
    "verify_internal (ref_backend\<lparr>blake2b512 := \<lambda>_. 86 # replicate 63 0\<rparr>) 1 2 5 8 86 2000 1 = Inr ()"
    by code_simp+
  then show ?thesis
    using wrong_share_one_challenge [OF reference.lawful_backend_axioms _ ne, of 1] ne by simp
qed

text \<open>The query a verifier makes for a reader authorization, from the signature's decoded scalars.\<close>

definition authorization_query :: "('f::field, 'g::ab_group_add) backend \<Rightarrow> 'g
    \<Rightarrow> reader_authorization_context \<Rightarrow> 'f \<Rightarrow> 'f \<Rightarrow> bytes" where
  "authorization_query B rdr_pk ctx c z =
    reader_authorization_challenge_preimage B rdr_pk
      (smul B z (generator B) - smul B c rdr_pk) (reader_authorization_context_digest B ctx)"

text \<open>
  knowledge soundness of the reader authorization.  Two signatures that verify for one key
  under two hash functions, with the same query but different answers, reveal the secret key.
\<close>

theorem reader_authorization_extracts_key:
  assumes "lawful_backend B"
    and "ras_challenge sig = scalar_to_bytes B c" "ras_response sig = scalar_to_bytes B z"
    and "ras_challenge sig' = scalar_to_bytes B c'" "ras_response sig' = scalar_to_bytes B z'"
    and "verify_reader_authorization B rdr_pk ctx sig = Inr ()"
    and "verify_reader_authorization (B\<lparr>sha512 := h\<rparr>) rdr_pk ctx sig' = Inr ()"
    and "authorization_query B rdr_pk ctx c z = q" "authorization_query B rdr_pk ctx c' z' = q"
    and "from_le_bytes_mod_order B (sha512 B q) \<noteq> from_le_bytes_mod_order B (h q)"
  shows "rdr_pk = smul B ((z - z') / (c - c')) (generator B)"
proof -
  have c: "c = from_le_bytes_mod_order B (sha512 B q)"
    using assms(2,3,6,8) lawful_backend.scalar_bytes_eq_iff [OF assms(1)]
    by (auto simp: lawful_backend.verify_reader_authorization_iff [OF assms(1)]
        reader_authorization_challenge_def authorization_query_def)
  note B' = lawful_backend.lawful_sha512_update [OF assms(1), of h]
  have "c' = from_le_bytes_mod_order B (h q)"
    using assms(4,5,7,9) lawful_backend.scalar_bytes_eq_iff [OF assms(1)]
    by (auto simp: lawful_backend.verify_reader_authorization_iff [OF B']
        reader_authorization_challenge_def authorization_query_def from_le_bytes_mod_order_def
        reader_authorization_challenge_preimage_def reader_authorization_context_digest_def)
  with c assms(10) have "c \<noteq> c'" by simp
  moreover have "smul B z (generator B) - smul B c rdr_pk = smul B z' (generator B) - smul B c' rdr_pk"
    using assms(8,9) lawful_backend.point_bytes_eq_iff [OF assms(1)] lawful_backend.point_width [OF assms(1)]
    by (auto simp: authorization_query_def reader_authorization_challenge_preimage_def)
  ultimately show ?thesis
    by (rule lawful_backend.sigma_extract [OF assms(1), rotated])
qed

theorem reader_authorization_extracts_key_witness:
  "(2 :: ref_scalar) = (415 - 25) / (204 - 9)"
proof -
  let ?sig = "\<lparr>ras_challenge = scalar_to_bytes ref_backend 9, ras_response = scalar_to_bytes ref_backend 25\<rparr>"
  let ?q = "authorization_query ref_backend 2 ex_request 204 415"
  have "ras_challenge ex_sig = scalar_to_bytes ref_backend 204"
    "ras_response ex_sig = scalar_to_bytes ref_backend 415"
    "verify_reader_authorization ref_backend 2 ex_request ex_sig = Inr ()"
    "verify_reader_authorization (ref_backend\<lparr>sha512 := \<lambda>_. 9 # replicate 63 0\<rparr>) 2 ex_request ?sig = Inr ()"
    "authorization_query ref_backend 2 ex_request 9 25 = ?q"
    "from_le_bytes_mod_order ref_backend (sha512 ref_backend ?q)
      \<noteq> from_le_bytes_mod_order ref_backend (9 # replicate 63 0)"
    by code_simp+
  then show ?thesis
    using reader_authorization_extracts_key [OF reference.lawful_backend_axioms, of ex_sig 204 415 ?sig 9 25]
    by simp
qed

section \<open>Proofs and authorizations are bound to their context\<close>

text \<open>
  C25: an authorization cannot be moved to another request or another reader key: if one signature
  verifies for two pairs of key and request, the pairs are equal, or the two requests are a
  SHA-256 collision, or the two challenge inputs are distinct and reduce to one challenge.
\<close>

theorem reader_authorization_not_transferable:
  assumes "lawful_backend B" "reader_context_fits ctx" "reader_context_fits ctx'"
    and "ras_challenge sig = scalar_to_bytes B c" "ras_response sig = scalar_to_bytes B z"
    and "verify_reader_authorization B pk ctx sig = Inr ()"
    and "verify_reader_authorization B pk' ctx' sig = Inr ()"
  shows "(pk = pk' \<and> ctx = ctx') \<or>
    (reader_authorization_preimage ctx \<noteq> reader_authorization_preimage ctx' \<and>
     sha256 B (reader_authorization_preimage ctx) = sha256 B (reader_authorization_preimage ctx')) \<or>
    (authorization_query B pk ctx c z \<noteq> authorization_query B pk' ctx' c z \<and>
     from_le_bytes_mod_order B (sha512 B (authorization_query B pk ctx c z))
       = from_le_bytes_mod_order B (sha512 B (authorization_query B pk' ctx' c z)))"
proof -
  have "c = from_le_bytes_mod_order B (sha512 B (authorization_query B pk ctx c z))"
    "c = from_le_bytes_mod_order B (sha512 B (authorization_query B pk' ctx' c z))"
    using assms(4-7) lawful_backend.scalar_bytes_eq_iff [OF assms(1)]
    by (auto simp: lawful_backend.verify_reader_authorization_iff [OF assms(1)]
        reader_authorization_challenge_def authorization_query_def)
  moreover have "pk = pk' \<and> reader_authorization_context_digest B ctx
      = reader_authorization_context_digest B ctx'"
    if "authorization_query B pk ctx c z = authorization_query B pk' ctx' c z"
    using that lawful_backend.point_bytes_eq_iff [OF assms(1)] lawful_backend.point_width [OF assms(1)]
    by (auto simp: authorization_query_def reader_authorization_challenge_preimage_def)
  ultimately show ?thesis
    using reader_authorization_preimage_inject [OF assms(2,3)]
    by (auto simp: reader_authorization_context_digest_def)
qed

theorem reader_authorization_not_transferable_witness:
  "let ctx = ex_request; ctx' = ex_request\<lparr>rac_object_id := ''elc''\<rparr>
   in reader_authorization_preimage ctx \<noteq> reader_authorization_preimage ctx' \<and>
     sha256 ref_backend (reader_authorization_preimage ctx) = sha256 ref_backend (reader_authorization_preimage ctx') \<or>
     authorization_query ref_backend 2 ctx 204 415 \<noteq> authorization_query ref_backend 2 ctx' 204 415 \<and>
     from_le_bytes_mod_order ref_backend (sha512 ref_backend (authorization_query ref_backend 2 ctx 204 415))
       = from_le_bytes_mod_order ref_backend (sha512 ref_backend (authorization_query ref_backend 2 ctx' 204 415))"
proof -
  let ?ctx = "ex_request\<lparr>rac_object_id := ''elc''\<rparr>"
  have "ras_challenge ex_sig = scalar_to_bytes ref_backend 204"
    "ras_response ex_sig = scalar_to_bytes ref_backend 415"
    "verify_reader_authorization ref_backend 2 ex_request ex_sig = Inr ()"
    "verify_reader_authorization ref_backend 2 ?ctx ex_sig = Inr ()"
    by code_simp+
  moreover have "reader_context_fits ex_request" "reader_context_fits ?ctx" "ex_request \<noteq> ?ctx"
    by (simp_all add: ex_request_def ex_reader_context_def reader_context_fits_def)
  ultimately show ?thesis
    using reader_authorization_not_transferable [OF reference.lawful_backend_axioms,
        of ex_request ?ctx ex_sig 204 415 2 2]
    unfolding Let_def by blast
qed

text \<open>The query a verifier makes for an encryption proof.\<close>

definition encryption_query :: "('f::field, 'g::ab_group_add) backend \<Rightarrow> ciphertext_context \<Rightarrow> secret
    \<Rightarrow> 'g \<Rightarrow> 'f \<Rightarrow> 'f \<Rightarrow> bytes" where
  "encryption_query B ctx s U c z =
    encryption_proof_preimage B U (smul B z (generator B) - smul B c U)
      (context_digest B ctx (sec_enc_cmt s)) (ciphertext_digest B (sec_nonce s) (sec_encrypted_data s))"

text \<open>
  C26: an encryption proof cannot be moved to another context or another ciphertext: if one proof
  verifies for two pairs of context and secret, the pairs are equal, or the contexts or the
  ciphertexts are a SHA-256 collision, or the challenge inputs are distinct and reduce to one
  challenge.
\<close>

theorem encryption_proof_not_transferable:
  assumes "lawful_backend B" "context_fits ctx" "context_fits ctx'"
    and "sec_enc_cmt s = point_to_bytes B U" "sec_enc_cmt s' = point_to_bytes B U'"
    and "ep_challenge p = scalar_to_bytes B c" "ep_response p = scalar_to_bytes B z"
    and "verify_encryption B p ctx s = Inr ()" "verify_encryption B p ctx' s' = Inr ()"
  shows "(ctx = ctx' \<and> s = s') \<or>
    (context_preimage ctx (sec_enc_cmt s) \<noteq> context_preimage ctx' (sec_enc_cmt s') \<and>
     sha256 B (context_preimage ctx (sec_enc_cmt s)) = sha256 B (context_preimage ctx' (sec_enc_cmt s'))) \<or>
    (ciphertext_preimage (sec_nonce s) (sec_encrypted_data s)
       \<noteq> ciphertext_preimage (sec_nonce s') (sec_encrypted_data s') \<and>
     sha256 B (ciphertext_preimage (sec_nonce s) (sec_encrypted_data s))
       = sha256 B (ciphertext_preimage (sec_nonce s') (sec_encrypted_data s'))) \<or>
    (encryption_query B ctx s U c z \<noteq> encryption_query B ctx' s' U' c z \<and>
     from_le_bytes_mod_order B (sha512 B (encryption_query B ctx s U c z))
       = from_le_bytes_mod_order B (sha512 B (encryption_query B ctx' s' U' c z)))"
proof -
  note inj = lawful_backend.point_bytes_eq_iff [OF assms(1)] lawful_backend.scalar_bytes_eq_iff [OF assms(1)]
    lawful_backend.point_width [OF assms(1)] lawful_backend.sha256_width [OF assms(1)]
  have c: "c = from_le_bytes_mod_order B (sha512 B (encryption_query B ctx s U c z))"
    "c = from_le_bytes_mod_order B (sha512 B (encryption_query B ctx' s' U' c z))"
    and n: "length (sec_nonce s) = 12" "length (sec_nonce s') = 12"
    using assms(4-9) inj
    by (auto simp: lawful_backend.verify_encryption_iff [OF assms(1)]
        encryption_proof_challenge_def encryption_query_def)
  have same: "U = U' \<and> context_digest B ctx (sec_enc_cmt s) = context_digest B ctx' (sec_enc_cmt s') \<and>
      ciphertext_digest B (sec_nonce s) (sec_encrypted_data s)
        = ciphertext_digest B (sec_nonce s') (sec_encrypted_data s')"
    if "encryption_query B ctx s U c z = encryption_query B ctx' s' U' c z"
    using that inj
    by (auto simp: encryption_query_def encryption_proof_preimage_def context_digest_def ciphertext_digest_def)
  have "s = s' \<and> ctx = ctx'"
    if "context_preimage ctx (sec_enc_cmt s) = context_preimage ctx' (sec_enc_cmt s')"
      "ciphertext_preimage (sec_nonce s) (sec_encrypted_data s)
        = ciphertext_preimage (sec_nonce s') (sec_encrypted_data s')"
    using that n context_preimage_inject [OF assms(2,3)] assms(4,5) inj(3)
    by (auto simp: ciphertext_preimage_def intro: secret.equality)
  then show ?thesis
    using c same by (auto simp: context_digest_def ciphertext_digest_def)
qed

theorem encryption_proof_not_transferable_witness:
  "let ctx = ex_context; ctx' = ex_context\<lparr>cc_resource := ''sbsource''\<rparr>; s = ex_stored in
    (context_preimage ctx (sec_enc_cmt s) \<noteq> context_preimage ctx' (sec_enc_cmt s) \<and>
     sha256 ref_backend (context_preimage ctx (sec_enc_cmt s))
       = sha256 ref_backend (context_preimage ctx' (sec_enc_cmt s))) \<or>
    (encryption_query ref_backend ctx s 5 67 342 \<noteq> encryption_query ref_backend ctx' s 5 67 342 \<and>
     from_le_bytes_mod_order ref_backend (sha512 ref_backend (encryption_query ref_backend ctx s 5 67 342))
       = from_le_bytes_mod_order ref_backend (sha512 ref_backend (encryption_query ref_backend ctx' s 5 67 342)))"
proof -
  let ?ctx = "ex_context\<lparr>cc_resource := ''sbsource''\<rparr>"
  have "ep_challenge ex_stored_proof = scalar_to_bytes ref_backend 67"
    "ep_response ex_stored_proof = scalar_to_bytes ref_backend 342"
    "verify_encryption ref_backend ex_stored_proof ex_context ex_stored = Inr ()"
    "verify_encryption ref_backend ex_stored_proof ?ctx ex_stored = Inr ()"
    by code_simp+
  moreover have "context_fits ?ctx" "ex_context \<noteq> ?ctx"
    by (simp_all add: ex_context_def context_fits_def tag_fits_def)
  ultimately show ?thesis
    using encryption_proof_not_transferable [OF reference.lawful_backend_axioms ex_context_fits(1) _
        ex_commitment ex_commitment, of ?ctx ex_stored_proof 67 342]
    unfolding Let_def by blast
qed

end
