(* ===== verification/Sign.thy ===== *)
theory Sign
  imports Threshold
begin

text \<open>
  FROST threshold signing of \<open>jubjub/sign.rs\<close>: the signature, nonce commitment and signing state
  types with their codecs, the hashed transcripts, and the operations of the \<open>ThresholdSigner\<close>
  trait.  A slice of pairs is a list of pairs; \<open>iter().find\<close> on an identifier is \<open>map_of\<close>, which
  also returns the first match.
\<close>

section \<open>Types and codecs\<close>

record ('f, 'g) schnorr_signature =
  sg_r_point :: 'g
  sg_z :: 'f

record 'g frost_nonce_commitment =
  nc_hiding :: 'g
  nc_binding :: 'g

record 'f frost_signing_state =
  fs_hiding_nonce :: 'f
  fs_binding_nonce :: 'f
  fs_participant_index :: u32

definition schnorr_signature_to_bytes :: "('f, 'g) backend \<Rightarrow> ('f, 'g) schnorr_signature \<Rightarrow> bytes" where
  "schnorr_signature_to_bytes B s = point_to_bytes B (sg_r_point s) @ scalar_to_bytes B (sg_z s)"

definition schnorr_signature_from_bytes ::
  "('f, 'g) backend \<Rightarrow> bytes \<Rightarrow> ('f, 'g) schnorr_signature result" where
  "schnorr_signature_from_bytes B b =
    (if length b \<noteq> 64 then Inl InvalidSignature
     else rbind (element_from_bytes B (slice 0 32 b)) (\<lambda>r_point.
          rbind (fr_from_bytes B (slice 32 64 b)) (\<lambda>z.
            Inr \<lparr>sg_r_point = r_point, sg_z = z\<rparr>)))"

definition nonce_commitment_to_bytes :: "('f, 'g) backend \<Rightarrow> 'g frost_nonce_commitment \<Rightarrow> bytes" where
  "nonce_commitment_to_bytes B c = point_to_bytes B (nc_hiding c) @ point_to_bytes B (nc_binding c)"

definition nonce_commitment_from_bytes ::
  "('f, 'g) backend \<Rightarrow> bytes \<Rightarrow> 'g frost_nonce_commitment result" where
  "nonce_commitment_from_bytes B b =
    (if length b \<noteq> 64 then Inl InvalidSignatureShare
     else rbind (element_from_bytes B (slice 0 32 b)) (\<lambda>hiding.
          rbind (element_from_bytes B (slice 32 64 b)) (\<lambda>binding.
            Inr \<lparr>nc_hiding = hiding, nc_binding = binding\<rparr>)))"

definition signing_state_to_bytes :: "('f, 'g) backend \<Rightarrow> 'f frost_signing_state \<Rightarrow> bytes" where
  "signing_state_to_bytes B s =
    le_u32 (fs_participant_index s) @ scalar_to_bytes B (fs_hiding_nonce s)
    @ scalar_to_bytes B (fs_binding_nonce s)"

definition signing_state_from_bytes ::
  "('f, 'g) backend \<Rightarrow> bytes \<Rightarrow> 'f frost_signing_state result" where
  "signing_state_from_bytes B b =
    (if length b \<noteq> 68 then Inl InvalidSignatureShare
     else
       let participant_index = u32_of_le (slice 0 4 b)
       in rbind (fr_from_bytes B (slice 4 36 b)) (\<lambda>hiding_nonce.
          rbind (fr_from_bytes B (slice 36 68 b)) (\<lambda>binding_nonce.
            Inr \<lparr>fs_hiding_nonce = hiding_nonce, fs_binding_nonce = binding_nonce,
                 fs_participant_index = participant_index\<rparr>)))"

section \<open>Transcripts\<close>

definition SIGN_DERIVATION_DOMAIN :: bytes where
  "SIGN_DERIVATION_DOMAIN = as_bytes ''sign-jubjub-derivation-v1''"

definition SIGN_METADATA_DOMAIN :: bytes where
  "SIGN_METADATA_DOMAIN = as_bytes ''orbis-sign-jubjub-metadata-v1''"

definition FROST_HIDING_NONCE_DOMAIN :: bytes where
  "FROST_HIDING_NONCE_DOMAIN = as_bytes ''orbis-frost-jubjub-hiding-nonce-v1''"

definition FROST_BINDING_NONCE_DOMAIN :: bytes where
  "FROST_BINDING_NONCE_DOMAIN = as_bytes ''orbis-frost-jubjub-binding-nonce-v1''"

definition FROST_BINDING_DOMAIN :: bytes where
  "FROST_BINDING_DOMAIN = as_bytes ''FROST-jubjub-binding''"

definition FROST_CHALLENGE_DOMAIN :: bytes where
  "FROST_CHALLENGE_DOMAIN = as_bytes ''FROST-jubjub-challenge''"

text \<open>\<open>(x.len() as u64).to_le_bytes()\<close>.\<close>

definition le_len64 :: "'a list \<Rightarrow> bytes" where
  "le_len64 xs = le_bytes 8 (length xs)"

definition binding_factor_preimage :: "('f, 'g) backend \<Rightarrow> u32 \<Rightarrow> 'g \<Rightarrow> bytes
    \<Rightarrow> (u32 \<times> 'g frost_nonce_commitment) list \<Rightarrow> bytes" where
  "binding_factor_preimage B participant_id group_public_key msg all_commitments =
    FROST_BINDING_DOMAIN @ le_u32 participant_id @ point_to_bytes B group_public_key
    @ le_len64 msg @ msg @ le_u32 (as_u32 (length all_commitments))
    @ concat (map (\<lambda>(i, c). le_u32 i @ nonce_commitment_to_bytes B c) all_commitments)"

definition compute_binding_factor :: "('f::field, 'g::zero) backend \<Rightarrow> u32 \<Rightarrow> 'g \<Rightarrow> bytes
    \<Rightarrow> (u32 \<times> 'g frost_nonce_commitment) list \<Rightarrow> 'f result" where
  "compute_binding_factor B participant_id group_public_key msg all_commitments =
    (if group_public_key = 0 then Inl InvalidSignature
     else Inr (from_le_bytes_mod_order B
       (sha512 B (binding_factor_preimage B participant_id group_public_key msg all_commitments))))"

definition compute_group_commitment :: "('f::field, 'g::ab_group_add) backend
    \<Rightarrow> (u32 \<times> 'g frost_nonce_commitment) list \<Rightarrow> 'g \<Rightarrow> bytes \<Rightarrow> ('g \<times> (u32 \<times> 'f) list) result" where
  "compute_group_commitment B all_commitments group_public_key msg =
    (let canonical = sort_key fst all_commitments
     in if list_ex (\<lambda>i. fst (canonical ! i) = fst (canonical ! (i - 1))) [1..<length canonical]
        then Inl InvalidSignatureShare
        else for_each (\<lambda>(i, c) (r, binding_factors).
               rbind (compute_binding_factor B i group_public_key msg canonical) (\<lambda>rho.
                 Inr (r + (nc_hiding c + smul B rho (nc_binding c)), binding_factors @ [(i, rho)])))
               canonical (0, []))"

definition compute_challenge :: "('f::field, 'g) backend \<Rightarrow> 'g \<Rightarrow> 'g \<Rightarrow> bytes \<Rightarrow> 'f" where
  "compute_challenge B r_point aggregate_pk msg =
    from_le_bytes_mod_order B (sha512 B (FROST_CHALLENGE_DOMAIN @ point_to_bytes B r_point
      @ point_to_bytes B aggregate_pk @ msg))"

definition lagrange_coefficient :: "u32 \<Rightarrow> u32 list \<Rightarrow> 'f::field result" where
  "lagrange_coefficient idx participant_ids =
    (let (num, den) = fold (\<lambda>j (num, den).
           if j = idx then (num, den)
           else (num * fr_of_u32 j, den * (fr_of_u32 j - fr_of_u32 idx))) participant_ids (1, 1)
     in rbind (ok_or InvalidSignatureShare (fr_inverse den)) (\<lambda>den_inv. Inr (num * den_inv)))"

definition derive_sign_preimage :: "bytes \<Rightarrow> bytes option \<Rightarrow> bytes" where
  "derive_sign_preimage derivation metadata =
    SIGN_DERIVATION_DOMAIN @ le_len64 derivation @ derivation
    @ (case metadata of None \<Rightarrow> [0] | Some meta \<Rightarrow> [1] @ le_len64 meta @ meta)"

definition derive_sign_scalar :: "('f::field, 'g) backend \<Rightarrow> bytes \<Rightarrow> bytes option \<Rightarrow> 'f" where
  "derive_sign_scalar B derivation metadata =
    from_le_bytes_mod_order B (sha512 B (derive_sign_preimage derivation metadata))"

definition metadata_preimage :: "string \<Rightarrow> string \<Rightarrow> string \<Rightarrow> bytes" where
  "metadata_preimage policy_id resource permission =
    SIGN_METADATA_DOMAIN @ le_len64 policy_id @ as_bytes policy_id @ le_len64 resource
    @ as_bytes resource @ le_len64 permission @ as_bytes permission"

definition encode_metadata :: "('f, 'g) backend \<Rightarrow> string \<Rightarrow> string \<Rightarrow> string \<Rightarrow> bytes" where
  "encode_metadata B policy_id resource permission =
    sha256 B (metadata_preimage policy_id resource permission)"

definition sign_derive_public_key ::
  "('f::field, 'g::zero) backend \<Rightarrow> 'g \<Rightarrow> bytes \<Rightarrow> bytes option \<Rightarrow> 'g result" where
  "sign_derive_public_key B dkg_pk derivation metadata =
    (if dkg_pk = 0 then Inl InvalidSignature
     else
       let d = derive_sign_scalar B derivation metadata
       in if d = 0 then Inl (SigningError ''Zero derivation scalar'')
          else
            let derived_pk = smul B d dkg_pk
            in if derived_pk = 0 then Inl InvalidSignature else Inr derived_pk)"

section \<open>Round 1\<close>

function hedged_nonce :: "('f::field, 'g) backend \<Rightarrow> bytes \<Rightarrow> 'f \<Rightarrow> bytes \<Rightarrow> ('f \<times> bytes) option" where
  "hedged_nonce B domain secret rng =
    (case fill_bytes 32 rng of
       None \<Rightarrow> None
     | Some (random_bytes, rng') \<Rightarrow>
         let candidate = from_le_bytes_mod_order B
               (sha512 B (domain @ random_bytes @ scalar_to_bytes B secret))
         in if candidate \<noteq> 0 then Some (candidate, rng') else hedged_nonce B domain secret rng')"
  by pat_completeness auto
termination
  by (relation "measure (\<lambda>(B, domain, secret, rng). length rng)") (auto simp: fill_bytes_Some)

declare hedged_nonce.simps [simp del]

definition generate_nonces :: "('f::field, 'g) backend \<Rightarrow> 'f dist_key_share \<Rightarrow> bytes
    \<Rightarrow> (('g frost_nonce_commitment \<times> 'f frost_signing_state) \<times> bytes) option" where
  "generate_nonces B share rng =
    (let secret = pri_v (dks_pri_share share)
     in case hedged_nonce B FROST_HIDING_NONCE_DOMAIN secret rng of
          None \<Rightarrow> None
        | Some (d, rng1) \<Rightarrow>
            (case hedged_nonce B FROST_BINDING_NONCE_DOMAIN secret rng1 of
               None \<Rightarrow> None
             | Some (e, rng2) \<Rightarrow>
                 Some ((\<lparr>nc_hiding = smul B d (generator B), nc_binding = smul B e (generator B)\<rparr>,
                        \<lparr>fs_hiding_nonce = d, fs_binding_nonce = e,
                         fs_participant_index = pri_i (dks_pri_share share)\<rparr>), rng2)))"

section \<open>Round 2\<close>

definition aggregate_pk_from_pub_poly ::
  "('f::field, 'g::ab_group_add) backend \<Rightarrow> 'g pub_poly \<Rightarrow> 'g" where
  "aggregate_pk_from_pub_poly B pub_poly = pub_poly_eval B pub_poly 0"

definition frost_sign :: "('f::field, 'g::ab_group_add) backend \<Rightarrow> 'f dist_key_share \<Rightarrow> bytes
    \<Rightarrow> 'g pub_poly \<Rightarrow> 'f frost_signing_state option \<Rightarrow> (u32 \<times> 'g frost_nonce_commitment) list
    \<Rightarrow> bytes option \<Rightarrow> bytes option \<Rightarrow> 'f pub_share result" where
  "frost_sign B share msg pub_poly signing_state all_commitments derivation metadata =
    rbind (ok_or InvalidSignatureShare signing_state) (\<lambda>st.
      let idx = pri_i (dks_pri_share share); s_i = pri_v (dks_pri_share share)
      in if idx \<noteq> fs_participant_index st then Inl InvalidSignatureShare
         else rbind (ok_or InvalidSignatureShare (map_of all_commitments idx)) (\<lambda>our_commitment.
           if nc_hiding our_commitment \<noteq> smul B (fs_hiding_nonce st) (generator B) \<or>
              nc_binding our_commitment \<noteq> smul B (fs_binding_nonce st) (generator B)
           then Inl (SigningError
             ''Commitment mismatch: coordinator may have tampered with our nonce commitment'')
           else rbind (let aggregate_pk = aggregate_pk_from_pub_poly B pub_poly
                 in case derivation of
                      Some deriv \<Rightarrow>
                        let d = derive_sign_scalar B deriv metadata
                        in if d = 0 then Inl (SigningError ''Zero derivation scalar'')
                           else Inr (smul B d aggregate_pk)
                    | None \<Rightarrow> Inr aggregate_pk) (\<lambda>effective_pk.
             if effective_pk = 0 then Inl InvalidSignature
             else rbind (compute_group_commitment B all_commitments effective_pk msg)
               (\<lambda>(r_point, binding_factors).
                 rbind (ok_or InvalidSignatureShare (map_of binding_factors idx)) (\<lambda>rho_i.
                 let c = compute_challenge B r_point effective_pk msg
                 in rbind (lagrange_coefficient idx (map fst all_commitments)) (\<lambda>lambda_i.
                      let s_i_eff = (case derivation of
                            Some deriv \<Rightarrow> s_i * derive_sign_scalar B deriv metadata
                          | None \<Rightarrow> s_i)
                      in Inr \<lparr>pub_i = idx,
                           pub_v = fs_hiding_nonce st + rho_i * fs_binding_nonce st
                             + lambda_i * s_i_eff * c\<rparr>))))))"

definition frost_verify_share :: "('f::field, 'g::ab_group_add) backend \<Rightarrow> bytes \<Rightarrow> 'g pub_poly
    \<Rightarrow> 'f pub_share \<Rightarrow> (u32 \<times> 'g frost_nonce_commitment) list \<Rightarrow> bytes option \<Rightarrow> bytes option
    \<Rightarrow> unit result" where
  "frost_verify_share B msg pub_poly sig_share all_commitments derivation metadata =
    (let idx = pub_i sig_share; z_i = pub_v sig_share
     in rbind (ok_or InvalidSignatureShare (map_of all_commitments idx)) (\<lambda>commitment.
        let aggregate_pk = aggregate_pk_from_pub_poly B pub_poly;
            effective_pk = (case derivation of
                Some deriv \<Rightarrow> smul B (derive_sign_scalar B deriv metadata) aggregate_pk
              | None \<Rightarrow> aggregate_pk)
        in if effective_pk = 0 then Inl InvalidSignature
           else rbind (compute_group_commitment B all_commitments effective_pk msg)
             (\<lambda>(r_point, binding_factors).
               rbind (ok_or InvalidSignatureShare (map_of binding_factors idx)) (\<lambda>rho_i.
               let c = compute_challenge B r_point effective_pk msg
               in rbind (lagrange_coefficient idx (map fst all_commitments)) (\<lambda>lambda_i.
                    let pk_i_eff = (case derivation of
                            Some deriv \<Rightarrow>
                              smul B (derive_sign_scalar B deriv metadata) (pub_poly_eval B pub_poly idx)
                          | None \<Rightarrow> pub_poly_eval B pub_poly idx);
                        lhs = smul B z_i (generator B);
                        rhs = nc_hiding commitment + smul B rho_i (nc_binding commitment)
                          + smul B (lambda_i * c) pk_i_eff
                    in if lhs \<noteq> rhs then Inl InvalidSignatureShare else Inr ())))))"

definition check_signer :: "u32 set \<Rightarrow> u32 \<Rightarrow> u32 set \<Rightarrow> u32 set result" where
  "check_signer participant_ids i seen =
    (if i \<notin> participant_ids then Inl InvalidSignatureShare
     else if i \<in> seen then Inl InvalidSignatureShare
     else Inr (insert i seen))"

definition frost_recover :: "('f::field, 'g::ab_group_add) backend \<Rightarrow> 'f pub_share list \<Rightarrow> nat
    \<Rightarrow> 'g \<Rightarrow> bytes \<Rightarrow> (u32 \<times> 'g frost_nonce_commitment) list
    \<Rightarrow> ('f, 'g) schnorr_signature option result" where
  "frost_recover B shares t group_public_key msg all_commitments =
    (if t = 0 then Inl InvalidSignature
     else if length shares < t then Inr None
     else
       rbind (for_each (check_signer (set (map fst all_commitments))) (map pub_i shares) {}) (\<lambda>seen.
         if card seen < t then Inr None
         else
           let z = fold (\<lambda>share acc. acc + pub_v share) shares 0
           in rbind (compute_group_commitment B all_commitments group_public_key msg)
                (\<lambda>(r_point, _). Inr (Some \<lparr>sg_r_point = r_point, sg_z = z\<rparr>))))"

definition frost_verify :: "('f::field, 'g::ab_group_add) backend \<Rightarrow> 'g \<Rightarrow> bytes
    \<Rightarrow> ('f, 'g) schnorr_signature \<Rightarrow> unit result" where
  "frost_verify B pk msg sig =
    (if pk = 0 then Inl InvalidSignature
     else
       let c = compute_challenge B (sg_r_point sig) pk msg
       in if smul B (sg_z sig) (generator B) \<noteq> sg_r_point sig + smul B c pk
          then Inl InvalidSignature else Inr ())"

end
