(* ===== verification/Sign_Security.thy ===== *)
theory Sign_Security
  imports Sign Reference_Field
begin

text \<open>
  The properties of FROST signing: verified partial signatures, one per committed participant,
  aggregate to a signature that verifies under the (derived) ring key; an honest signer's share
  verifies; a share index has at most one verifying value; and the transcripts determine what
  was signed.
\<close>

section \<open>Group commitments and coefficients\<close>

lemma sorted_adjacent_distinct:
  assumes "sorted xs"
  shows "list_ex (\<lambda>i. xs ! i = xs ! (i - 1)) [1..<length xs] \<longleftrightarrow> \<not> distinct xs"
proof
  assume "list_ex (\<lambda>i. xs ! i = xs ! (i - 1)) [1..<length xs]"
  then obtain i where "1 \<le> i" "i < length xs" "xs ! i = xs ! (i - 1)"
    by (auto simp: list_ex_iff)
  moreover have "i - 1 < length xs" "i - 1 \<noteq> i" using calculation by simp_all
  ultimately show "\<not> distinct xs"
    by (metis nth_eq_iff_index_eq)
next
  assume "\<not> distinct xs"
  then obtain i j where ij: "i < j" "j < length xs" "xs ! i = xs ! j"
    by (metis distinct_conv_nth linorder_neqE_nat)
  then have "xs ! i \<le> xs ! Suc i" "xs ! Suc i \<le> xs ! j"
    using assms sorted_nth_mono [of xs i "Suc i"] sorted_nth_mono [of xs "Suc i" j] by simp_all
  with ij have "xs ! Suc i = xs ! i" by simp
  with ij show "list_ex (\<lambda>i. xs ! i = xs ! (i - 1)) [1..<length xs]"
    by (auto simp: list_ex_iff intro!: bexI [of _ "Suc i"])
qed

text \<open>The binding factor of a participant for the sorted commitment list.\<close>

abbreviation rho :: "('f::field, 'g) backend \<Rightarrow> (u32 \<times> 'g frost_nonce_commitment) list \<Rightarrow> 'g \<Rightarrow> bytes \<Rightarrow> u32 \<Rightarrow> 'f" where
  "rho B cs pk msg i \<equiv> from_le_bytes_mod_order B (sha512 B
    (binding_factor_preimage B i pk msg (sort_key fst cs)))"

abbreviation nonce_point :: "('f::field, 'g::ab_group_add) backend \<Rightarrow> (u32 \<times> 'g frost_nonce_commitment) list
    \<Rightarrow> 'g \<Rightarrow> bytes \<Rightarrow> u32 \<times> 'g frost_nonce_commitment \<Rightarrow> 'g" where
  "nonce_point B cs pk msg x \<equiv> nc_hiding (snd x) + smul B (rho B cs pk msg (fst x)) (nc_binding (snd x))"

lemma commitment_loop:
  fixes B :: "('f::field, 'g::ab_group_add) backend" and canonical :: "(u32 \<times> 'g frost_nonce_commitment) list"
    and msg :: bytes
  assumes "pk \<noteq> 0"
  defines "f \<equiv> \<lambda>i. from_le_bytes_mod_order B (sha512 B (binding_factor_preimage B i pk msg canonical))"
  shows "for_each (\<lambda>(i, c) (r, binding_factors). rbind (compute_binding_factor B i pk msg canonical)
      (\<lambda>rho. Inr (r + (nc_hiding c + smul B rho (nc_binding c)), binding_factors @ [(i, rho)])))
    xs (r0, bf0) = Inr (r0 + (\<Sum>x\<leftarrow>xs. nc_hiding (snd x) + smul B (f (fst x)) (nc_binding (snd x))),
      bf0 @ map (\<lambda>x. (fst x, f (fst x))) xs)"
  using assms by (induction xs arbitrary: r0 bf0) (auto simp: add.assoc compute_binding_factor_def)

lemma duplicate_commitments:
  fixes cs :: "(u32 \<times> 'a) list"
  defines "s \<equiv> sort_key fst cs"
  shows "list_ex (\<lambda>i. fst (s ! i) = fst (s ! (i - 1))) [1..<length s] \<longleftrightarrow> \<not> distinct (map fst cs)"
proof -
  have eq: "list_ex (\<lambda>i. fst (s ! i) = fst (s ! (i - 1))) [1..<length s] \<longleftrightarrow>
      list_ex (\<lambda>i. map fst s ! i = map fst s ! (i - 1)) [1..<length (map fst s)]"
    unfolding list_ex_iff by (intro bex_cong) (auto simp: less_imp_diff_less)
  have "sorted (map fst s)" "distinct (map fst s) \<longleftrightarrow> distinct (map fst cs)"
    by (simp_all add: s_def distinct_map)
  then show ?thesis
    unfolding eq by (simp only: sorted_adjacent_distinct)
qed

lemma group_commitment_value:
  assumes "pk \<noteq> 0"
  shows "compute_group_commitment B cs pk msg =
    (if distinct (map fst cs)
     then Inr (\<Sum>x\<in>set cs. nonce_point B cs pk msg x,
       map (\<lambda>x. (fst x, rho B cs pk msg (fst x))) (sort_key fst cs))
     else Inl InvalidSignatureShare)"
proof -
  let ?s = "sort_key fst cs"
  have "(\<Sum>x\<leftarrow>?s. nonce_point B cs pk msg x) = (\<Sum>x\<in>set cs. nonce_point B cs pk msg x)"
    if "distinct (map fst cs)"
    using that sum.distinct_set_conv_list [of ?s "nonce_point B cs pk msg"] by (simp add: distinct_map)
  with duplicate_commitments [of cs] show ?thesis
    by (simp add: compute_group_commitment_def Let_def commitment_loop [OF assms])
qed

context lawful_backend
begin

lemma lagrange_coefficient_value:
  "distinct ids \<Longrightarrow> lagrange_coefficient i ids = Inr (weight0 ids i :: 'f)"
  using weight0_flipped [where ids = ids and i = i]
  by (simp add: lagrange_coefficient_def Let_def fold_num_den prod_list_others fr_inverse_def)

end

text \<open>The factor a signing derivation applies to keys and shares.\<close>

abbreviation sign_factor :: "('f::field, 'g) backend \<Rightarrow> bytes option \<Rightarrow> bytes option \<Rightarrow> 'f" where
  "sign_factor B derivation metadata \<equiv>
    case_option 1 (\<lambda>d. derive_sign_scalar B d metadata) derivation"

abbreviation signing_key :: "('f::field, 'g::ab_group_add) backend \<Rightarrow> 'g pub_poly \<Rightarrow> bytes option
    \<Rightarrow> bytes option \<Rightarrow> 'g" where
  "signing_key B P derivation metadata \<equiv> smul B (sign_factor B derivation metadata) (pub_poly_eval B P 0)"

text \<open>The challenge all partial signatures answer.\<close>

abbreviation group_challenge :: "('f::field, 'g::ab_group_add) backend
    \<Rightarrow> (u32 \<times> 'g frost_nonce_commitment) list \<Rightarrow> 'g \<Rightarrow> bytes \<Rightarrow> 'f" where
  "group_challenge B cs pk msg \<equiv>
    compute_challenge B (\<Sum>x\<in>set cs. nonce_point B cs pk msg x) pk msg"

lemma map_of_factors:
  "i \<in> fst ` set xs \<Longrightarrow> map_of (map (\<lambda>x. (fst x, f (fst x))) xs) i = Some (f i)"
  by (induction xs) auto

context lawful_backend
begin

lemma verify_share_Inr:
  fixes P :: "'g pub_poly" and derivation metadata :: "bytes option"
  defines "pk \<equiv> signing_key B P derivation metadata"
  shows "frost_verify_share B msg P s cs derivation metadata = Inr () \<longleftrightarrow>
    pk \<noteq> 0 \<and> distinct (map fst cs) \<and> (\<exists>c. map_of cs (pub_i s) = Some c \<and>
      smul B (pub_v s) (generator B) = nonce_point B cs pk msg (pub_i s, c)
        + smul B (weight0 (map fst cs) (pub_i s) * group_challenge B cs pk msg)
            (smul B (sign_factor B derivation metadata) (pub_poly_eval B P (pub_i s))))"
proof -
  have pk: "(case derivation of Some d \<Rightarrow> smul B (derive_sign_scalar B d metadata) Q | None \<Rightarrow> Q)
      = smul B (sign_factor B derivation metadata) Q" for Q
    by (cases derivation) simp_all
  show ?thesis
  proof (cases "map_of cs (pub_i s)")
    case None
    then show ?thesis by (simp add: frost_verify_share_def)
  next
    case (Some c)
    then have "pub_i s \<in> fst ` set (sort_key fst cs)"
      by (force dest: map_of_SomeD)
    then have factor: "map_of (map (\<lambda>x. (fst x, rho B cs pk msg (fst x))) (sort_key fst cs)) (pub_i s)
        = Some (rho B cs pk msg (pub_i s))"
      by (rule map_of_factors)
    have "frost_verify_share B msg P s cs derivation metadata =
        (if pk = 0 then Inl InvalidSignature
         else rbind (compute_group_commitment B cs pk msg) (\<lambda>(r_point, binding_factors).
           rbind (ok_or InvalidSignatureShare (map_of binding_factors (pub_i s))) (\<lambda>rho_i.
           rbind (lagrange_coefficient (pub_i s) (map fst cs)) (\<lambda>lambda_i.
             if smul B (pub_v s) (generator B) \<noteq> nc_hiding c + smul B rho_i (nc_binding c)
                 + smul B (lambda_i * compute_challenge B r_point pk msg)
                     (smul B (sign_factor B derivation metadata) (pub_poly_eval B P (pub_i s)))
             then Inl InvalidSignatureShare else Inr ()))))"
      using Some
      by (simp only: frost_verify_share_def Let_def pk aggregate_pk_from_pub_poly_def pk_def
          ok_or_simps rbind_simps)
    then show ?thesis
      using Some factor
      by (cases "pk = 0"; cases "distinct (map fst cs)")
        (simp_all add: group_commitment_value lagrange_coefficient_value del: points.scale_scale)
  qed
qed

text \<open>Summing the verification equations of one share per participant.\<close>

lemma sum_of_verified_shares:
  fixes P :: "'g pub_poly" and derivation metadata :: "bytes option"
  defines "pk \<equiv> signing_key B P derivation metadata"
  assumes ver: "\<And>s. s \<in> set shares \<Longrightarrow> frost_verify_share B msg P s cs derivation metadata = Inr ()"
    and ids: "distinct (map pub_i shares)" "set (map pub_i shares) = set (map fst cs)"
    and deg: "commits P \<noteq> []" "length (commits P) \<le> length cs"
  shows "smul B (\<Sum>s\<leftarrow>shares. pub_v s) (generator B)
    = (\<Sum>x\<in>set cs. nonce_point B cs pk msg x) + smul B (group_challenge B cs pk msg) pk"
proof -
  let ?ids = "map fst cs" and ?c = "group_challenge B cs pk msg"
    and ?d = "sign_factor B derivation metadata"
  have "shares \<noteq> []" using ids(2) deg by auto
  then have dist: "distinct ?ids"
    using ver [of "hd shares"] by (auto simp: verify_share_Inr)
  let ?D = "\<lambda>i. nonce_point B cs pk msg (i, the (map_of cs i))"
  let ?L = "\<lambda>i. smul B (?c * ?d) (smul B (weight0 ?ids i) (pub_poly_eval B P i))"
  have each: "smul B (pub_v s) (generator B) = ?D (pub_i s) + ?L (pub_i s)" if "s \<in> set shares" for s
    using ver [OF that] by (auto simp: verify_share_Inr pk_def mult.commute mult.left_commute)
  have reindex: "(\<Sum>i\<leftarrow>map pub_i shares. f i) = (\<Sum>i\<in>set ?ids. f i)" for f :: "u32 \<Rightarrow> 'g"
    using sum.distinct_set_conv_list [OF ids(1), of f] ids(2) by simp
  have "smul B (\<Sum>s\<leftarrow>shares. pub_v s) (generator B) = (\<Sum>s\<leftarrow>shares. ?D (pub_i s) + ?L (pub_i s))"
    using each by (simp add: smul_sum_list cong: map_cong)
  also have "\<dots> = (\<Sum>i\<leftarrow>map pub_i shares. ?D i + ?L i)" by (simp add: comp_def)
  also have "\<dots> = (\<Sum>i\<in>set ?ids. ?D i) + (\<Sum>i\<in>set ?ids. ?L i)"
    unfolding reindex by (rule sum.distrib)
  also have "(\<Sum>i\<in>set ?ids. ?D i) = (\<Sum>x\<in>set cs. nonce_point B cs pk msg x)"
    using dist by (auto simp: sum.reindex distinct_map map_of_is_SomeI [OF dist] intro!: sum.cong)
  also have "(\<Sum>i\<in>set ?ids. ?L i) = (\<Sum>i\<leftarrow>?ids. ?L i)"
    by (rule sum.distinct_set_conv_list [OF dist])
  also have "\<dots> = smul B (?c * ?d) (commits P ! 0)"
    using interpolate_at_zero [OF dist _ deg(1)] deg(2)
    by (simp only: smul_right_sum_list [symmetric] pub_poly_eval_value length_map)
  also have "\<dots> = smul B ?c pk"
    using deg by (simp add: pk_def pub_poly_eval_0)
  finally show ?thesis .
qed

end

section \<open>Signing and recovering\<close>

lemma group_commitment_identity_key:
  fixes cs :: "(u32 \<times> 'g::ab_group_add frost_nonce_commitment) list"
  shows "compute_group_commitment B cs 0 msg =
    (if cs = [] then Inr (0, []) else if distinct (map fst cs) then Inl InvalidSignature
     else Inl InvalidSignatureShare)"
proof (cases "sort_key fst cs")
  case Nil
  then show ?thesis by (auto simp: compute_group_commitment_def Let_def dest: arg_cong [of _ _ length])
next
  case (Cons x xs)
  then show ?thesis
    using duplicate_commitments [of cs]
    by (auto simp: compute_group_commitment_def Let_def compute_binding_factor_def split: prod.splits)
qed

lemma check_signers:
  "for_each (check_signer ids) xs seen =
    (if distinct xs \<and> set xs \<subseteq> ids \<and> set xs \<inter> seen = {} then Inr (seen \<union> set xs)
     else Inl InvalidSignatureShare)"
  by (induction xs arbitrary: seen) (auto simp: check_signer_def)

lemma recover_value:
  assumes "pk \<noteq> 0" "0 < t"
  shows "frost_recover B shares t pk msg cs =
    (if length shares < t then Inr None
     else if distinct (map pub_i shares) \<and> set (map pub_i shares) \<subseteq> set (map fst cs) \<and> distinct (map fst cs)
     then Inr (Some \<lparr>sg_r_point = \<Sum>x\<in>set cs. nonce_point B cs pk msg x,
                     sg_z = \<Sum>s\<leftarrow>shares. pub_v s\<rparr>)
     else Inl InvalidSignatureShare)"
proof -
  have card: "card (set (map pub_i shares)) = length shares" if "distinct (map pub_i shares)"
    using distinct_card [OF that] by simp
  show ?thesis
    using assms card
    by (auto simp: frost_recover_def check_signers group_commitment_value fold_sum_list Let_def)
qed

context lawful_backend
begin

lemma frost_sign_value:
  fixes P :: "'g pub_poly" and derivation metadata :: "bytes option"
  defines "pk \<equiv> signing_key B P derivation metadata"
  assumes "pk \<noteq> 0" "distinct (map fst cs)"
    and "map_of cs i = Some \<lparr>nc_hiding = smul B d (generator B), nc_binding = smul B e (generator B)\<rparr>"
  shows "frost_sign B \<lparr>dks_pri_share = \<lparr>pri_i = i, pri_v = x\<rparr>\<rparr> msg P
      (Some \<lparr>fs_hiding_nonce = d, fs_binding_nonce = e, fs_participant_index = i\<rparr>) cs derivation metadata
    = Inr \<lparr>pub_i = i, pub_v = d + rho B cs pk msg i * e
        + weight0 (map fst cs) i * (x * sign_factor B derivation metadata) * group_challenge B cs pk msg\<rparr>"
proof -
  have key: "pk = smul B (sign_factor B derivation metadata) (pub_poly_eval B P 0)"
    by (simp add: pk_def)
  have nz: "sign_factor B derivation metadata \<noteq> 0"
    using assms(2) by (auto simp: key)
  have "i \<in> fst ` set (sort_key fst cs)"
    using assms(4) by (force dest: map_of_SomeD)
  then have factor: "map_of (map (\<lambda>x. (fst x, rho B cs pk msg (fst x))) (sort_key fst cs)) i
      = Some (rho B cs pk msg i)"
    by (rule map_of_factors)
  have eff: "(case derivation of
        Some deriv \<Rightarrow> let d = derive_sign_scalar B deriv metadata
          in if d = 0 then Inl (SigningError ''Zero derivation scalar'')
             else Inr (smul B d (aggregate_pk_from_pub_poly B P))
      | None \<Rightarrow> Inr (aggregate_pk_from_pub_poly B P)) = Inr pk"
    using nz by (cases derivation) (simp_all add: key aggregate_pk_from_pub_poly_def Let_def)
  have share: "(case derivation of Some deriv \<Rightarrow> x * derive_sign_scalar B deriv metadata | None \<Rightarrow> x)
      = x * sign_factor B derivation metadata"
    by (cases derivation) simp_all
  show ?thesis
    using assms(2-4) factor
    by (simp add: frost_sign_def eff share Let_def group_commitment_value lagrange_coefficient_value)
qed

text \<open>An honest share satisfies its verification equation.\<close>

lemma frost_sign_accepted:
  assumes "signing_key B P derivation metadata \<noteq> 0" "distinct (map fst cs)"
    and "map_of cs i = Some \<lparr>nc_hiding = smul B d (generator B), nc_binding = smul B e (generator B)\<rparr>"
    and "smul B x (generator B) = pub_poly_eval B P i"
  shows "\<exists>z. frost_sign B \<lparr>dks_pri_share = \<lparr>pri_i = i, pri_v = x\<rparr>\<rparr> msg P
      (Some \<lparr>fs_hiding_nonce = d, fs_binding_nonce = e, fs_participant_index = i\<rparr>) cs derivation metadata
    = Inr \<lparr>pub_i = i, pub_v = z\<rparr> \<and>
    frost_verify_share B msg P \<lparr>pub_i = i, pub_v = z\<rparr> cs derivation metadata = Inr ()"
  unfolding frost_sign_value [OF assms(1-3)]
  using assms(1-3)
  by (auto simp: verify_share_Inr assms(4) [symmetric] points.scale_left_distrib mult.assoc mult.commute
      mult.left_commute)

lemma generate_nonces_Some:
  "generate_nonces B sh rng = Some ((c, st), rng') \<Longrightarrow>
    \<exists>d e. c = \<lparr>nc_hiding = smul B d (generator B), nc_binding = smul B e (generator B)\<rparr> \<and>
      st = \<lparr>fs_hiding_nonce = d, fs_binding_nonce = e, fs_participant_index = pri_i (dks_pri_share sh)\<rparr>"
  by (auto simp: generate_nonces_def Let_def split: option.splits)

lemma verified_sum_verifies:
  fixes P :: "'g pub_poly" and derivation metadata :: "bytes option"
  defines "pk \<equiv> signing_key B P derivation metadata"
  assumes ver: "\<And>s. s \<in> set shares \<Longrightarrow> frost_verify_share B msg P s cs derivation metadata = Inr ()"
    and ids: "distinct (map pub_i shares)" "set (map pub_i shares) = set (map fst cs)"
    and deg: "commits P \<noteq> []" "length (commits P) \<le> length cs"
    and t: "0 < t" "t \<le> length shares"
  shows "\<exists>sig. frost_recover B shares t pk msg cs = Inr (Some sig) \<and> frost_verify B pk msg sig = Inr ()"
proof -
  have "shares \<noteq> []" using t by auto
  then have "frost_verify_share B msg P (hd shares) cs derivation metadata = Inr ()"
    using ver by simp
  then have "pk \<noteq> 0" "distinct (map fst cs)"
    by (auto simp: verify_share_Inr pk_def)
  then show ?thesis
    using t ids sum_of_verified_shares [OF ver ids deg]
    by (simp add: recover_value frost_verify_def Let_def pk_def)
qed

end

section \<open>A ring of three\<close>

text \<open>
  The concrete ring of the witnesses: threshold two, the secret polynomial \<open>5 + 3x\<close>, and three
  signers with the nonces they draw from a constant tape.
\<close>

definition ex_ring :: "ref_scalar pub_poly" where
  "ex_ring = \<lparr>commits = [5, 3]\<rparr>"

definition ex_key :: "u32 \<Rightarrow> ref_scalar dist_key_share" where
  "ex_key i = \<lparr>dks_pri_share = \<lparr>pri_i = i, pri_v = 5 + 3 * fr_of_u32 i\<rparr>\<rparr>"

definition ex_signer :: "u32 \<Rightarrow> ref_scalar \<Rightarrow> ref_scalar
    \<Rightarrow> ref_scalar dist_key_share \<times> ref_scalar frost_nonce_commitment \<times> ref_scalar frost_signing_state" where
  "ex_signer i d e = (ex_key i, \<lparr>nc_hiding = d, nc_binding = e\<rparr>,
    \<lparr>fs_hiding_nonce = d, fs_binding_nonce = e, fs_participant_index = i\<rparr>)"

definition ex_signers :: "(ref_scalar dist_key_share \<times> ref_scalar frost_nonce_commitment
    \<times> ref_scalar frost_signing_state) list" where
  "ex_signers = [ex_signer 1 108 212, ex_signer 2 45 149, ex_signer 3 238 86]"

definition ex_commitments :: "(u32 \<times> ref_scalar frost_nonce_commitment) list" where
  "ex_commitments = map (\<lambda>(sh, c, st). (pri_i (dks_pri_share sh), c)) ex_signers"

lemma ex_signers_ready:
  assumes "(sh, c, st) \<in> set ex_signers"
  shows "smul ref_backend (pri_v (dks_pri_share sh)) (generator ref_backend)
      = pub_poly_eval ref_backend ex_ring (pri_i (dks_pri_share sh)) \<and>
    (\<exists>rng rng'. generate_nonces ref_backend sh rng = Some ((c, st), rng'))"
proof -
  have nonces:
    "generate_nonces ref_backend (ex_key 1) (replicate 64 1) = Some (snd (ex_signer 1 108 212), [])"
    "generate_nonces ref_backend (ex_key 2) (replicate 64 2) = Some (snd (ex_signer 2 45 149), [])"
    "generate_nonces ref_backend (ex_key 3) (replicate 64 3) = Some (snd (ex_signer 3 238 86), [])"
    by code_simp+
  have keys: "pri_v (dks_pri_share (ex_key 1)) = pub_poly_eval ref_backend ex_ring 1"
    "pri_v (dks_pri_share (ex_key 2)) = pub_poly_eval ref_backend ex_ring 2"
    "pri_v (dks_pri_share (ex_key 3)) = pub_poly_eval ref_backend ex_ring 3"
    by code_simp+
  have ids: "pri_i (dks_pri_share (ex_key i)) = i" for i by (simp add: ex_key_def)
  consider "(sh, c, st) = ex_signer 1 108 212" | "(sh, c, st) = ex_signer 2 45 149"
    | "(sh, c, st) = ex_signer 3 238 86"
    using assms by (auto simp: ex_signers_def)
  then show ?thesis
    using keys by cases (auto simp: ex_signer_def ids intro!: exI nonces [unfolded ex_signer_def snd_conv])
qed

lemma ex_ring_key: "signing_key ref_backend ex_ring None None = 5"
  by code_simp

lemma ex_commitment_ids: "map fst ex_commitments = [1, 2, 3]"
  by (simp add: ex_commitments_def ex_signers_def ex_signer_def ex_key_def)

lemma ex_accepted:
  assumes "i \<in> {1, 2, 3}"
  shows "\<exists>z. frost_verify_share ref_backend msg ex_ring \<lparr>pub_i = i, pub_v = z\<rparr> ex_commitments None None = Inr ()"
proof -
  have ring: "signing_key ref_backend ex_ring None None \<noteq> 0" "distinct (map fst ex_commitments)"
    using ex_ring_key by (code_simp, simp add: ex_commitment_ids)
  have key: "pub_poly_eval ref_backend ex_ring i = smul ref_backend (5 + 3 * fr_of_u32 i) (generator ref_backend)"
    using assms by (auto; code_simp)
  obtain d e where "map_of ex_commitments i = Some \<lparr>nc_hiding = smul ref_backend d (generator ref_backend),
      nc_binding = smul ref_backend e (generator ref_backend)\<rparr>"
    using assms by (auto simp: ex_commitments_def ex_signers_def ex_signer_def ex_key_def)
  from reference.frost_sign_accepted [OF ring this key [symmetric]] show ?thesis by blast
qed

section \<open>Threshold signatures\<close>

text \<open>
  C11: honest signers succeed.  Given at least as many signers as the ring polynomial has
  coefficients, each holding the share the polynomial commits to and the nonces it generated,
  every call of \<open>sign\<close> returns a share, \<open>recover\<close> returns a signature, and the signature verifies
  under the (derived) ring key.
\<close>

theorem frost_protocol_succeeds:
  fixes B :: "('f::field, 'g::ab_group_add) backend"
    and signers :: "('f dist_key_share \<times> 'g frost_nonce_commitment \<times> 'f frost_signing_state) list"
  defines "cs \<equiv> map (\<lambda>(sh, c, st). (pri_i (dks_pri_share sh), c)) signers"
  assumes "lawful_backend B" "signing_key B P derivation metadata \<noteq> 0"
    and "distinct (map fst cs)"
    and "\<And>sh c st. (sh, c, st) \<in> set signers \<Longrightarrow>
      smul B (pri_v (dks_pri_share sh)) (generator B) = pub_poly_eval B P (pri_i (dks_pri_share sh)) \<and>
      (\<exists>rng rng'. generate_nonces B sh rng = Some ((c, st), rng'))"
    and "commits P \<noteq> []" "length (commits P) \<le> length signers" "0 < t" "t \<le> length signers"
  shows "\<exists>shares sig.
    traverse (\<lambda>(sh, c, st). frost_sign B sh msg P (Some st) cs derivation metadata) signers = Inr shares \<and>
    frost_recover B shares t (signing_key B P derivation metadata) msg cs = Inr (Some sig) \<and>
    frost_verify B (signing_key B P derivation metadata) msg sig = Inr ()"
proof -
  let ?sign = "\<lambda>(sh, c :: 'g frost_nonce_commitment, st). frost_sign B sh msg P (Some st) cs derivation metadata"
  have each: "\<exists>z. ?sign x = Inr \<lparr>pub_i = pri_i (dks_pri_share (fst x)), pub_v = z\<rparr> \<and>
      frost_verify_share B msg P \<lparr>pub_i = pri_i (dks_pri_share (fst x)), pub_v = z\<rparr> cs derivation metadata
        = Inr ()" if mem: "x \<in> set signers" for x
  proof -
    obtain sh c st where x: "x = (sh, c, st)" by (cases x)
    obtain i v where sh: "sh = \<lparr>dks_pri_share = \<lparr>pri_i = i, pri_v = v\<rparr>\<rparr>"
      by (cases sh) (metis pri_share.cases)
    obtain rng rng' where gen: "generate_nonces B sh rng = Some ((c, st), rng')"
      using assms(5) [of sh c st] mem unfolding x by blast
    obtain d e where ns: "c = \<lparr>nc_hiding = smul B d (generator B), nc_binding = smul B e (generator B)\<rparr>"
      "st = \<lparr>fs_hiding_nonce = d, fs_binding_nonce = e, fs_participant_index = i\<rparr>"
      using lawful_backend.generate_nonces_Some [OF assms(2) gen] by (auto simp: sh)
    have "map_of cs i = Some c"
      using mem assms(4) sh unfolding x cs_def by (intro map_of_is_SomeI) force+
    then show ?thesis
      using lawful_backend.frost_sign_accepted [OF assms(2,3,4), of i d e v msg] assms(5) [of sh c st] mem
      unfolding x ns sh by simp
  qed
  define share where "share x = projr (?sign x)" for x
  have ok: "?sign x = Inr (share x)" "pub_i (share x) = pri_i (dks_pri_share (fst x))"
    "frost_verify_share B msg P (share x) cs derivation metadata = Inr ()" if "x \<in> set signers" for x
    using each [OF that] by (auto simp: share_def)
  have ids: "map pub_i (map share signers) = map fst cs"
    using ok(2) by (auto simp: cs_def)
  have "traverse ?sign signers = Inr (map share signers)"
    using ok(1) by (rule traverse_total)
  moreover have "\<exists>sig. frost_recover B (map share signers) t (signing_key B P derivation metadata) msg cs
      = Inr (Some sig) \<and> frost_verify B (signing_key B P derivation metadata) msg sig = Inr ()"
  proof (rule lawful_backend.verified_sum_verifies [OF assms(2)])
    show "frost_verify_share B msg P s cs derivation metadata = Inr ()" if "s \<in> set (map share signers)" for s
      using that ok(3) by auto
    show "distinct (map pub_i (map share signers))" "set (map pub_i (map share signers)) = set (map fst cs)"
      unfolding ids using assms(4) by simp_all
  qed (use assms(6-9) in \<open>simp_all add: cs_def\<close>)
  ultimately show ?thesis by blast
qed

theorem frost_protocol_succeeds_witness:
  "\<exists>shares sig.
    traverse (\<lambda>(sh, c, st). frost_sign ref_backend sh (as_bytes ''msg'') ex_ring (Some st) ex_commitments
      (Some (as_bytes ''d'')) None) ex_signers = Inr shares \<and>
    frost_recover ref_backend shares 2 (signing_key ref_backend ex_ring (Some (as_bytes ''d'')) None)
      (as_bytes ''msg'') ex_commitments = Inr (Some sig) \<and>
    frost_verify ref_backend (signing_key ref_backend ex_ring (Some (as_bytes ''d'')) None) (as_bytes ''msg'') sig
      = Inr ()"
proof -
  have "signing_key ref_backend ex_ring (Some (as_bytes ''d'')) None \<noteq> 0"
    by code_simp
  then show ?thesis
    using frost_protocol_succeeds [OF reference.lawful_backend_axioms, where P = ex_ring and signers = ex_signers
        and derivation = "Some (as_bytes ''d'')" and metadata = None and t = 2 and msg = "as_bytes ''msg''"]
      ex_signers_ready ex_commitment_ids
    unfolding ex_commitments_def by (simp add: ex_ring_def ex_signers_def)
qed

text \<open>
  C12: aggregation is robust.  If every submitted share passes \<open>verify_share\<close> and the shares are
  one per committed participant, the aggregated signature verifies, whatever the signers and the
  coordinator did.
\<close>

theorem frost_verified_shares_aggregate:
  assumes "lawful_backend B"
    and "\<And>s. s \<in> set shares \<Longrightarrow> frost_verify_share B msg P s cs derivation metadata = Inr ()"
    and "distinct (map pub_i shares)" "set (map pub_i shares) = set (map fst cs)"
    and "commits P \<noteq> []" "length (commits P) \<le> length cs" "0 < t" "t \<le> length shares"
  shows "\<exists>sig. frost_recover B shares t (signing_key B P derivation metadata) msg cs = Inr (Some sig) \<and>
    frost_verify B (signing_key B P derivation metadata) msg sig = Inr ()"
  using lawful_backend.verified_sum_verifies [OF assms] .

theorem frost_verified_shares_aggregate_witness:
  "\<exists>shares sig. length shares = 3 \<and> frost_recover ref_backend shares 2 5 (as_bytes ''msg'') ex_commitments
      = Inr (Some sig) \<and> frost_verify ref_backend 5 (as_bytes ''msg'') sig = Inr ()"
proof -
  obtain a b c where "\<forall>s \<in> {\<lparr>pub_i = 1, pub_v = a\<rparr>, \<lparr>pub_i = 2, pub_v = b\<rparr>, \<lparr>pub_i = 3, pub_v = c\<rparr>}.
      frost_verify_share ref_backend (as_bytes ''msg'') ex_ring s ex_commitments None None = Inr ()"
    using ex_accepted [of 1 "as_bytes ''msg''"] ex_accepted [of 2 "as_bytes ''msg''"]
      ex_accepted [of 3 "as_bytes ''msg''"] by auto
  then show ?thesis
    using frost_verified_shares_aggregate [OF reference.lawful_backend_axioms, of
        "[\<lparr>pub_i = 1, pub_v = a\<rparr>, \<lparr>pub_i = 2, pub_v = b\<rparr>, \<lparr>pub_i = 3, pub_v = c\<rparr>]"
        "as_bytes ''msg''" ex_ring ex_commitments None None 2, unfolded ex_ring_key ex_commitment_ids]
    by (auto simp: ex_ring_def ex_commitments_def ex_signers_def
        intro!: exI [of _ "[\<lparr>pub_i = 1, pub_v = a\<rparr>, \<lparr>pub_i = 2, pub_v = b\<rparr>, \<lparr>pub_i = 3, pub_v = c\<rparr>]"])
qed

text \<open>
  for a message, a commitment list and an index, at most one partial signature value passes
  \<open>verify_share\<close>.
\<close>

theorem frost_share_unique:
  assumes "lawful_backend B"
    and "frost_verify_share B msg P \<lparr>pub_i = i, pub_v = z\<rparr> cs derivation metadata = Inr ()"
    and "frost_verify_share B msg P \<lparr>pub_i = i, pub_v = z'\<rparr> cs derivation metadata = Inr ()"
  shows "z = z'"
  using assms(2,3) lawful_backend.generator_inject [OF assms(1), of z z']
  by (auto simp: lawful_backend.verify_share_Inr [OF assms(1)])

theorem frost_share_unique_witness:
  "\<exists>z. {z'. frost_verify_share ref_backend (as_bytes ''msg'') ex_ring \<lparr>pub_i = 2, pub_v = z'\<rparr>
      ex_commitments None None = Inr ()} = {z}"
proof -
  obtain z where "frost_verify_share ref_backend (as_bytes ''msg'') ex_ring \<lparr>pub_i = 2, pub_v = z\<rparr>
      ex_commitments None None = Inr ()"
    using ex_accepted [of 2] by auto
  then show ?thesis
    using frost_share_unique [OF reference.lawful_backend_axioms] by blast
qed

text \<open>
  every branch of \<open>recover\<close>: a zero threshold, too few shares, a duplicated or unknown signer
  or a duplicated commitment, the identity key, and otherwise the sum of the nonce points and of
  the share values.
\<close>

theorem frost_recover_cases:
  fixes B :: "('f::field, 'g::ab_group_add) backend"
  shows "frost_recover B shares t pk msg cs =
    (if t = 0 then Inl InvalidSignature
     else if length shares < t then Inr None
     else if \<not> (distinct (map pub_i shares) \<and> set (map pub_i shares) \<subseteq> set (map fst cs) \<and> distinct (map fst cs))
     then Inl InvalidSignatureShare
     else if pk = 0 then Inl InvalidSignature
     else Inr (Some \<lparr>sg_r_point = \<Sum>x\<in>set cs. nonce_point B cs pk msg x,
                     sg_z = \<Sum>s\<leftarrow>shares. pub_v s\<rparr>))"
proof -
  consider "t = 0 \<or> length shares < t" | "pk = 0" "0 < t" "t \<le> length shares" | "pk \<noteq> 0" "0 < t"
    by linarith
  then show ?thesis
  proof cases
    case 1
    then show ?thesis by (auto simp: frost_recover_def)
  next
    case 2
    then show ?thesis
      using group_commitment_identity_key [of B cs msg] distinct_card [of "map pub_i shares"]
      by (auto simp: frost_recover_def check_signers Let_def)
  next
    case 3
    then show ?thesis by (simp add: recover_value)
  qed
qed

text \<open>
  C13: \<open>recover\<close> accepts the shares of a strict subset of the committed participants once there are
  \<open>t\<close> of them, and the signature it then returns verifies exactly when the missing partial
  signatures sum to zero.
\<close>

theorem frost_recover_subset:
  assumes "lawful_backend B"
    and "\<And>s. s \<in> set (shares @ missing) \<Longrightarrow> frost_verify_share B msg P s cs derivation metadata = Inr ()"
    and "distinct (map pub_i (shares @ missing))" "set (map pub_i (shares @ missing)) = set (map fst cs)"
    and "commits P \<noteq> []" "length (commits P) \<le> length cs" "0 < t" "t \<le> length shares"
  shows "\<exists>sig. frost_recover B shares t (signing_key B P derivation metadata) msg cs = Inr (Some sig) \<and>
    (frost_verify B (signing_key B P derivation metadata) msg sig = Inr () \<longleftrightarrow> (\<Sum>s\<leftarrow>missing. pub_v s) = 0)"
proof -
  have "hd shares \<in> set (shares @ missing)" using assms(7,8) by (cases shares) auto
  then have key: "signing_key B P derivation metadata \<noteq> 0" "distinct (map fst cs)"
    using assms(2) [of "hd shares"] by (auto simp: lawful_backend.verify_share_Inr [OF assms(1)])
  have sum: "smul B ((\<Sum>s\<leftarrow>shares. pub_v s) + (\<Sum>s\<leftarrow>missing. pub_v s)) (generator B)
      = (\<Sum>x\<in>set cs. nonce_point B cs (signing_key B P derivation metadata) msg x)
        + smul B (group_challenge B cs (signing_key B P derivation metadata) msg)
            (signing_key B P derivation metadata)"
    using lawful_backend.sum_of_verified_shares [OF assms(1-6)] by simp
  have "smul B (\<Sum>s\<leftarrow>shares. pub_v s) (generator B) = smul B ((\<Sum>s\<leftarrow>shares. pub_v s) + (\<Sum>s\<leftarrow>missing. pub_v s)) (generator B)
      \<longleftrightarrow> (\<Sum>s\<leftarrow>missing. pub_v s) = 0"
    by (simp only: lawful_backend.generator_inject [OF assms(1)]) simp
  moreover have "set (map pub_i shares) \<subseteq> set (map fst cs)" using assms(4) by auto
  ultimately show ?thesis
    using key assms(3,7,8) unfolding sum
    by (simp add: recover_value frost_verify_def Let_def)
qed

theorem frost_recover_subset_witness:
  "\<exists>a b c sig. frost_recover ref_backend [\<lparr>pub_i = 1, pub_v = a\<rparr>, \<lparr>pub_i = 2, pub_v = b\<rparr>] 2 5
      (as_bytes ''msg'') ex_commitments = Inr (Some sig) \<and>
    (frost_verify ref_backend 5 (as_bytes ''msg'') sig = Inr () \<longleftrightarrow> c = 0) \<and>
    frost_verify_share ref_backend (as_bytes ''msg'') ex_ring \<lparr>pub_i = 3, pub_v = c\<rparr> ex_commitments None None
      = Inr ()"
proof -
  obtain a b c where ok: "\<forall>s \<in> {\<lparr>pub_i = 1, pub_v = a\<rparr>, \<lparr>pub_i = 2, pub_v = b\<rparr>, \<lparr>pub_i = 3, pub_v = c\<rparr>}.
      frost_verify_share ref_backend (as_bytes ''msg'') ex_ring s ex_commitments None None = Inr ()"
    using ex_accepted [of 1 "as_bytes ''msg''"] ex_accepted [of 2 "as_bytes ''msg''"]
      ex_accepted [of 3 "as_bytes ''msg''"] by auto
  then have "\<exists>sig. frost_recover ref_backend [\<lparr>pub_i = 1, pub_v = a\<rparr>, \<lparr>pub_i = 2, pub_v = b\<rparr>] 2 5
      (as_bytes ''msg'') ex_commitments = Inr (Some sig) \<and>
    (frost_verify ref_backend 5 (as_bytes ''msg'') sig = Inr () \<longleftrightarrow> c = 0)"
    using frost_recover_subset [OF reference.lawful_backend_axioms, of
        "[\<lparr>pub_i = 1, pub_v = a\<rparr>, \<lparr>pub_i = 2, pub_v = b\<rparr>]" "[\<lparr>pub_i = 3, pub_v = c\<rparr>]"
        "as_bytes ''msg''" ex_ring ex_commitments None None 2, unfolded ex_ring_key ex_commitment_ids]
    by (auto simp: ex_ring_def ex_commitments_def ex_signers_def)
  with ok show ?thesis by blast
qed

text \<open>
  two accepting signatures with one nonce point, answering different challenges, reveal the
  discrete logarithm of the public key.  The second signature is accepted under a hash function
  \<open>h\<close> that answers the challenge query differently.
\<close>

theorem signature_extracts_key:
  assumes "lawful_backend B"
    and "frost_verify B pk msg \<lparr>sg_r_point = R, sg_z = z\<rparr> = Inr ()"
    and "frost_verify (B\<lparr>sha512 := h\<rparr>) pk msg \<lparr>sg_r_point = R, sg_z = z'\<rparr> = Inr ()"
    and "compute_challenge B R pk msg \<noteq> compute_challenge (B\<lparr>sha512 := h\<rparr>) R pk msg"
  shows "pk = smul B ((z - z') / (compute_challenge B R pk msg - compute_challenge (B\<lparr>sha512 := h\<rparr>) R pk msg))
    (generator B)"
  using assms(2-4) lawful_backend.sigma_extract [OF assms(1), of z "generator B" "compute_challenge B R pk msg" pk]
  by (auto simp: frost_verify_def Let_def algebra_simps split: if_splits)

theorem signature_extracts_key_witness:
  "(5 :: ref_scalar) = smul ref_backend ((164 - 44) / (compute_challenge ref_backend 9 5 (as_bytes ''msg'')
      - compute_challenge (ref_backend\<lparr>sha512 := \<lambda>_. 7 # replicate 63 0\<rparr>) 9 5 (as_bytes ''msg'')))
    (generator ref_backend)"
proof -
  have "frost_verify ref_backend 5 (as_bytes ''msg'') \<lparr>sg_r_point = 9, sg_z = 164\<rparr> = Inr ()"
    "frost_verify (ref_backend\<lparr>sha512 := \<lambda>_. 7 # replicate 63 0\<rparr>) 5 (as_bytes ''msg'')
      \<lparr>sg_r_point = 9, sg_z = 44\<rparr> = Inr ()"
    "compute_challenge ref_backend 9 5 (as_bytes ''msg'')
      \<noteq> compute_challenge (ref_backend\<lparr>sha512 := \<lambda>_. 7 # replicate 63 0\<rparr>) 9 5 (as_bytes ''msg'')"
    by code_simp+
  then show ?thesis
    by (rule signature_extracts_key [OF reference.lawful_backend_axioms])
qed

section \<open>Derived keys\<close>

lemma len_prefixed_inject:
  assumes "length a < 256 ^ 8" "length b < 256 ^ 8"
  shows "le_len64 a @ a @ x = le_len64 b @ b @ y \<longleftrightarrow> a = b \<and> x = y"
proof
  assume eq: "le_len64 a @ a @ x = le_len64 b @ b @ y"
  then have "le_bytes 8 (length a) = le_bytes 8 (length b)"
    by (simp add: le_len64_def)
  then have "length a = length b" using assms by (rule le_bytes_inj)
  with eq show "a = b \<and> x = y" by (simp add: le_len64_def)
qed simp

lemma derive_sign_preimage_inject:
  assumes "length d < 256 ^ 8" "length d' < 256 ^ 8"
    and "\<And>x. m = Some x \<Longrightarrow> length x < 256 ^ 8" "\<And>x. m' = Some x \<Longrightarrow> length x < 256 ^ 8"
  shows "derive_sign_preimage d m = derive_sign_preimage d' m' \<longleftrightarrow> d = d' \<and> m = m'"
proof -
  have "le_len64 x @ x = le_len64 y @ y \<longleftrightarrow> x = y" if "length x < 256 ^ 8" "length y < 256 ^ 8" for x y
    using len_prefixed_inject [OF that, of "[]" "[]"] by simp
  then show ?thesis
    using assms
    by (cases m; cases m') (auto simp: derive_sign_preimage_def len_prefixed_inject simp del: power_numeral)
qed

lemma le_len64_as_bytes: "le_len64 (as_bytes s) = le_len64 s"
  by (simp add: le_len64_def)

lemma metadata_preimage_inject:
  assumes "length p < 256 ^ 8" "length p' < 256 ^ 8" "length r < 256 ^ 8" "length r' < 256 ^ 8"
    "length q < 256 ^ 8" "length q' < 256 ^ 8"
  shows "metadata_preimage p r q = metadata_preimage p' r' q' \<longleftrightarrow> p = p' \<and> r = r' \<and> q = q'"
  using assms len_prefixed_inject [of "as_bytes p" "as_bytes p'"] len_prefixed_inject [of "as_bytes r" "as_bytes r'"]
    len_prefixed_inject [of "as_bytes q" "as_bytes q'" "[]" "[]"]
  by (auto simp: metadata_preimage_def le_len64_as_bytes)

text \<open>
  C14: a derived signing key is bound to the derivation and to the policy, resource and permission:
  if two derivations of one ring key agree, their inputs agree, or two distinct metadata
  preimages collide under SHA-256, or two distinct derivation preimages reduce to one scalar.
\<close>

theorem derived_key_binding:
  assumes "lawful_backend B"
    and "length d < 2 ^ 64" "length d' < 2 ^ 64"
    and "length p < 2 ^ 64" "length r < 2 ^ 64" "length q < 2 ^ 64"
    and "length p' < 2 ^ 64" "length r' < 2 ^ 64" "length q' < 2 ^ 64"
    and "sign_derive_public_key B pk d (Some (encode_metadata B p r q)) = Inr k"
    and "sign_derive_public_key B pk d' (Some (encode_metadata B p' r' q')) = Inr k"
  shows "(d = d' \<and> p = p' \<and> r = r' \<and> q = q') \<or>
    (metadata_preimage p r q \<noteq> metadata_preimage p' r' q' \<and>
     sha256 B (metadata_preimage p r q) = sha256 B (metadata_preimage p' r' q')) \<or>
    (derive_sign_preimage d (Some (encode_metadata B p r q))
       \<noteq> derive_sign_preimage d' (Some (encode_metadata B p' r' q')) \<and>
     derive_sign_scalar B d (Some (encode_metadata B p r q))
       = derive_sign_scalar B d' (Some (encode_metadata B p' r' q')))"
proof -
  let ?m = "encode_metadata B p r q" and ?m' = "encode_metadata B p' r' q'"
  have "length ?m < 256 ^ 8" "length ?m' < 256 ^ 8"
    using lawful_backend.sha256_width [OF assms(1)] by (simp_all add: encode_metadata_def)
  then have pre: "derive_sign_preimage d (Some ?m) = derive_sign_preimage d' (Some ?m') \<longleftrightarrow> d = d' \<and> ?m = ?m'"
    using assms(2,3) derive_sign_preimage_inject [of d d' "Some ?m" "Some ?m'"] by simp
  have meta: "metadata_preimage p r q = metadata_preimage p' r' q' \<longleftrightarrow> p = p' \<and> r = r' \<and> q = q'"
    using assms(4-9) by (intro metadata_preimage_inject) simp_all
  have "smul B (derive_sign_scalar B d (Some ?m)) pk = smul B (derive_sign_scalar B d' (Some ?m')) pk" "pk \<noteq> 0"
    using assms(10,11) by (auto simp: sign_derive_public_key_def Let_def split: if_splits)
  then have "derive_sign_scalar B d (Some ?m) = derive_sign_scalar B d' (Some ?m')"
    by (rule lawful_backend.smul_point_inject [OF assms(1)])
  with pre meta show ?thesis
    by (auto simp: encode_metadata_def)
qed

theorem derived_key_binding_witness:
  "let m = encode_metadata ref_backend ''policy'' ''doc'' ''read'' in
    derive_sign_preimage [1, 3] (Some m) \<noteq> derive_sign_preimage [2, 0] (Some m) \<and>
    derive_sign_scalar ref_backend [1, 3] (Some m) = derive_sign_scalar ref_backend [2, 0] (Some m)"
proof -
  let ?m = "encode_metadata ref_backend ''policy'' ''doc'' ''read''"
  have "sign_derive_public_key ref_backend 5 [1, 3] (Some ?m) = sign_derive_public_key ref_backend 5 [2, 0] (Some ?m)"
    "\<not> isl (sign_derive_public_key ref_backend 5 [1, 3] (Some ?m))"
    by code_simp+
  then obtain k where "sign_derive_public_key ref_backend 5 [1, 3] (Some ?m) = Inr k"
    "sign_derive_public_key ref_backend 5 [2, 0] (Some ?m) = Inr k"
    by (metis sum.collapse(2))
  then show ?thesis
    using derived_key_binding [OF reference.lawful_backend_axioms, of "[1, 3]" "[2, 0]" "''policy''" "''doc''" "''read''"
        "''policy''" "''doc''" "''read''" 5 k]
    by (simp add: Let_def)
qed

section \<open>Nonces\<close>

text \<open>The candidate one block of random bytes gives.\<close>

abbreviation nonce_candidate :: "('f::field, 'g) backend \<Rightarrow> bytes \<Rightarrow> 'f \<Rightarrow> bytes \<Rightarrow> 'f" where
  "nonce_candidate B domain secret b \<equiv>
    from_le_bytes_mod_order B (sha512 B (domain @ b @ scalar_to_bytes B secret))"

lemma hedged_nonce_step:
  "length b = 32 \<Longrightarrow> hedged_nonce B domain secret (b @ rng) =
    (if nonce_candidate B domain secret b \<noteq> 0 then Some (nonce_candidate B domain secret b, rng)
     else hedged_nonce B domain secret rng)"
  by (simp add: hedged_nonce.simps [of B domain secret "b @ rng"] fill_bytes_def Let_def)

text \<open>
  C15: nonce generation ends and never returns zero.  The loop skips the blocks that hash to the
  zero scalar and returns at the first block that does not, leaving the rest of the generator's
  output.
\<close>

theorem hedged_nonce_first_nonzero:
  assumes "\<And>b. b \<in> set zeros \<Longrightarrow> length b = 32 \<and> nonce_candidate B domain secret b = 0"
    and "length good = 32" "nonce_candidate B domain secret good \<noteq> 0"
  shows "hedged_nonce B domain secret (concat zeros @ good @ rng)
    = Some (nonce_candidate B domain secret good, rng)"
  using assms by (induction zeros) (simp_all add: hedged_nonce_step)

theorem hedged_nonce_first_nonzero_witness:
  "hedged_nonce ref_backend FROST_HIDING_NONCE_DOMAIN 1 ((replicate 31 0 @ [129]) @ replicate 32 1 @ [4, 2])
    = Some (nonce_candidate ref_backend FROST_HIDING_NONCE_DOMAIN 1 (replicate 32 1), [4, 2])"
proof -
  have "nonce_candidate ref_backend FROST_HIDING_NONCE_DOMAIN 1 (replicate 31 0 @ [129]) = 0"
    "nonce_candidate ref_backend FROST_HIDING_NONCE_DOMAIN 1 (replicate 32 1) \<noteq> 0"
    by code_simp+
  then show ?thesis
    using hedged_nonce_first_nonzero [of "[replicate 31 0 @ [129]]" ref_backend FROST_HIDING_NONCE_DOMAIN 1
        "replicate 32 1" "[4, 2]"]
    by simp
qed

section \<open>Codecs\<close>

lemma slice_split: "length b = n \<Longrightarrow> k \<le> n \<Longrightarrow> slice 0 k b @ slice k n b = b"
  by (simp add: slice_def)

lemma slice_pair_iff:
  assumes "length b = n + m" "length x = n" "length y = m"
  shows "b = x @ y \<longleftrightarrow> slice 0 n b = x \<and> slice n (n + m) b = y"
  using assms slice_split [of b "n + m" n] by (auto simp: slice_simps)

lemma le_u32_eq_iff: "length b = 4 \<Longrightarrow> b = le_u32 i \<longleftrightarrow> u32_of_le b = i"
proof
  assume "length b = 4" "u32_of_le b = i"
  moreover have "unat (u32_of_le b) = of_le_bytes b"
    using of_le_bytes_bound [of b] \<open>length b = 4\<close> by (simp add: u32_of_le_def unat_of_nat)
  ultimately show "b = le_u32 i" by (auto simp: le_u32_def le_bytes_of_le_bytes)
qed simp

context lawful_backend
begin

lemma schnorr_signature_codec:
  "schnorr_signature_from_bytes B b = Inr sig \<longleftrightarrow> b = schnorr_signature_to_bytes B sig"
proof (cases "length b = 64")
  case True
  then show ?thesis
    using slice_pair_iff [of b 32 32 "point_to_bytes B (sg_r_point sig)" "scalar_to_bytes B (sg_z sig)"]
    by (cases sig) (auto simp: schnorr_signature_from_bytes_def schnorr_signature_to_bytes_def result_simps
        fr_from_bytes_iff element_from_bytes_iff)
qed (auto simp: schnorr_signature_from_bytes_def schnorr_signature_to_bytes_def)

lemma nonce_commitment_codec:
  "nonce_commitment_from_bytes B b = Inr c \<longleftrightarrow> b = nonce_commitment_to_bytes B c"
proof (cases "length b = 64")
  case True
  then show ?thesis
    using slice_pair_iff [of b 32 32 "point_to_bytes B (nc_hiding c)" "point_to_bytes B (nc_binding c)"]
    by (cases c) (auto simp: nonce_commitment_from_bytes_def nonce_commitment_to_bytes_def result_simps
        element_from_bytes_iff)
qed (auto simp: nonce_commitment_from_bytes_def nonce_commitment_to_bytes_def)

lemma signing_state_codec:
  "signing_state_from_bytes B b = Inr st \<longleftrightarrow> b = signing_state_to_bytes B st"
proof (cases "length b = 68")
  case True
  have "slice 0 32 (slice 4 68 b) = slice 4 36 b" "slice 32 64 (slice 4 68 b) = slice 36 68 b"
    "length (slice 4 68 b) = 64" "length (slice 0 4 b) = 4"
    using True by (simp_all add: slice_def)
  then show ?thesis
    using True slice_pair_iff [of b 4 64 "le_u32 (fs_participant_index st)"
        "scalar_to_bytes B (fs_hiding_nonce st) @ scalar_to_bytes B (fs_binding_nonce st)"]
      slice_pair_iff [of "slice 4 68 b" 32 32 "scalar_to_bytes B (fs_hiding_nonce st)"
        "scalar_to_bytes B (fs_binding_nonce st)"]
    by (cases st) (auto simp: signing_state_from_bytes_def signing_state_to_bytes_def result_simps Let_def
        fr_from_bytes_iff le_u32_eq_iff [symmetric])
qed (auto simp: signing_state_from_bytes_def signing_state_to_bytes_def)

end

text \<open>
  C16: the wire formats of signatures, nonce commitments and signing states are canonical: bytes
  decode to a value exactly when they are its encoding.
\<close>

theorem frost_codecs_canonical:
  assumes "lawful_backend B"
  shows "(schnorr_signature_from_bytes B b = Inr sig \<longleftrightarrow> b = schnorr_signature_to_bytes B sig) \<and>
    (nonce_commitment_from_bytes B b = Inr c \<longleftrightarrow> b = nonce_commitment_to_bytes B c) \<and>
    (signing_state_from_bytes B b = Inr st \<longleftrightarrow> b = signing_state_to_bytes B st)"
  using lawful_backend.schnorr_signature_codec [OF assms] lawful_backend.nonce_commitment_codec [OF assms]
    lawful_backend.signing_state_codec [OF assms] by blast

theorem frost_codecs_canonical_witness:
  "schnorr_signature_from_bytes ref_backend (5 # replicate 31 0 @ 7 # replicate 31 0)
      = Inr \<lparr>sg_r_point = 5, sg_z = 7\<rparr> \<and>
    nonce_commitment_from_bytes ref_backend (5 # replicate 31 0 @ 7 # replicate 31 0)
      = Inr \<lparr>nc_hiding = 5, nc_binding = 7\<rparr>"
proof -
  have "5 # replicate 31 0 @ 7 # replicate 31 0 = schnorr_signature_to_bytes ref_backend \<lparr>sg_r_point = 5, sg_z = 7\<rparr>"
    "5 # replicate 31 0 @ 7 # replicate 31 0 = nonce_commitment_to_bytes ref_backend \<lparr>nc_hiding = 5, nc_binding = 7\<rparr>"
    by code_simp+
  then show ?thesis
    using frost_codecs_canonical [OF reference.lawful_backend_axioms] by blast
qed

end
