(* ===== verification/Pet.thy ===== *)
theory Pet
  imports Threshold Context
begin

text \<open>
  The plaintext-equality test of \<open>jubjub/pet.rs\<close>: owner fingerprints, the proof of knowledge of a
  tag's randomness, one node's threshold check with its proof of equal discrete logarithms, the
  combination of a threshold of checks, the final comparison, and the blinding contributions of
  the blind equality test.
\<close>

section \<open>Types, domains and transcripts\<close>

record pet_tag =
  pt_ephemeral_point :: bytes
  pt_masked_fingerprint :: bytes

record tag_knowledge_proof =
  tkp_challenge :: bytes
  tkp_response :: bytes

record ('f, 'g) pet_check_reply =
  pcr_partial :: "'g pub_share"
  pcr_challenge :: 'f
  pcr_proof :: 'f

record ('f, 'g) blinding_reply =
  br_blinded_r :: 'g
  br_blinded_diff :: 'g
  br_challenge :: 'f
  br_proof :: 'f

definition FINGERPRINT_DOMAIN :: bytes where
  "FINGERPRINT_DOMAIN = as_bytes ''orbis-jubjub-pet-fingerprint-v1''"

definition TAG_KNOWLEDGE_PROOF_DOMAIN :: bytes where
  "TAG_KNOWLEDGE_PROOF_DOMAIN = as_bytes ''orbis-jubjub-pet-tag-knowledge-proof-v1''"

definition PET_CHECK_DLEQ_DOMAIN :: bytes where
  "PET_CHECK_DLEQ_DOMAIN = as_bytes ''orbis-jubjub-pet-check-dleq-proof-v1''"

definition BLIND_PROOF_DOMAIN :: bytes where
  "BLIND_PROOF_DOMAIN = as_bytes ''orbis-jubjub-pet-blind-proof-v1''"

definition fingerprint_scalar :: "('f::field, 'g) backend \<Rightarrow> bytes \<Rightarrow> 'f" where
  "fingerprint_scalar B owner_id =
    from_le_bytes_mod_order B (sha512 B (FINGERPRINT_DOMAIN @ owner_id))"

definition owner_fingerprint :: "('f::field, 'g) backend \<Rightarrow> bytes \<Rightarrow> 'g result" where
  "owner_fingerprint B owner_id = Inr (smul B (fingerprint_scalar B owner_id) (generator B))"

definition decode_group_element :: "('f, 'g::zero) backend \<Rightarrow> bytes \<Rightarrow> 'g result" where
  "decode_group_element B b =
    (if length b \<noteq> 32 then Inl (ElGamalError ''Invalid {} length: expected {}, got {}'')
     else rbind (map_err (ElGamalError ''failed to decompress {}: {:?}'') (element_from_bytes B b)) (\<lambda>point.
       if point = 0 then Inl (ElGamalError ''Invalid {}: cannot be the identity element'')
       else Inr point))"

definition tag_knowledge_preimage :: "('f, 'g) backend \<Rightarrow> 'g \<Rightarrow> 'g \<Rightarrow> bytes \<Rightarrow> bytes" where
  "tag_knowledge_preimage B ephemeral_point r1 tag_transcript_digest =
    TAG_KNOWLEDGE_PROOF_DOMAIN @ concat (map (point_to_bytes B) [ephemeral_point, r1])
    @ tag_transcript_digest"

definition tag_knowledge_proof_challenge ::
  "('f::field, 'g) backend \<Rightarrow> 'g \<Rightarrow> 'g \<Rightarrow> bytes \<Rightarrow> 'f" where
  "tag_knowledge_proof_challenge B ephemeral_point r1 tag_transcript_digest =
    from_le_bytes_mod_order B (sha512 B (tag_knowledge_preimage B ephemeral_point r1 tag_transcript_digest))"

definition pet_check_preimage :: "('f, 'g) backend \<Rightarrow> u32 \<Rightarrow> 'g \<Rightarrow> 'g \<Rightarrow> 'g \<Rightarrow> 'g list \<Rightarrow> bytes" where
  "pet_check_preimage B node_id r_point public_share partial proof_points =
    PET_CHECK_DLEQ_DOMAIN @ le_u32 node_id
    @ concat (map (point_to_bytes B) [r_point, public_share, partial])
    @ concat (map (point_to_bytes B) proof_points)"

definition pet_check_proof_challenge ::
  "('f::field, 'g) backend \<Rightarrow> u32 \<Rightarrow> 'g \<Rightarrow> 'g \<Rightarrow> 'g \<Rightarrow> 'g list \<Rightarrow> 'f" where
  "pet_check_proof_challenge B node_id r_point public_share partial proof_points =
    from_le_bytes_mod_order B (blake2b512 B
      (pet_check_preimage B node_id r_point public_share partial proof_points))"

definition blinding_preimage ::
  "('f, 'g) backend \<Rightarrow> 'g \<Rightarrow> 'g \<Rightarrow> 'g \<Rightarrow> 'g \<Rightarrow> 'g \<Rightarrow> 'g \<Rightarrow> bytes \<Rightarrow> bytes" where
  "blinding_preimage B r_point diff_point blinded_r blinded_diff u_point v_point blind_transcript_digest =
    BLIND_PROOF_DOMAIN
    @ concat (map (point_to_bytes B) [r_point, diff_point, blinded_r, blinded_diff, u_point, v_point])
    @ blind_transcript_digest"

definition blinding_proof_challenge ::
  "('f::field, 'g) backend \<Rightarrow> 'g \<Rightarrow> 'g \<Rightarrow> 'g \<Rightarrow> 'g \<Rightarrow> 'g \<Rightarrow> 'g \<Rightarrow> bytes \<Rightarrow> 'f" where
  "blinding_proof_challenge B r_point diff_point blinded_r blinded_diff u_point v_point digest =
    from_le_bytes_mod_order B (blake2b512 B
      (blinding_preimage B r_point diff_point blinded_r blinded_diff u_point v_point digest))"

section \<open>Tag knowledge\<close>

text \<open>The provers return \<open>None\<close> when the tape is too short; an error leaves the tape as it is.\<close>

definition prove_tag_knowledge :: "('f::field, 'g::ab_group_add) backend \<Rightarrow> 'f \<Rightarrow> pet_tag \<Rightarrow> bytes
    \<Rightarrow> bytes \<Rightarrow> (tag_knowledge_proof result \<times> bytes) option" where
  "prove_tag_knowledge B r_tag tag tag_transcript_digest rng =
    (case decode_group_element B (pt_ephemeral_point tag) of
       Inl e \<Rightarrow> Some (Inl e, rng)
     | Inr ephemeral_point \<Rightarrow>
         (case fr_rand_nonzero B rng of
            None \<Rightarrow> None
          | Some (k, rng') \<Rightarrow>
              let r1 = smul B k (generator B);
                  c = tag_knowledge_proof_challenge B ephemeral_point r1 tag_transcript_digest;
                  z = k + c * r_tag
              in Some (Inr \<lparr>tkp_challenge = scalar_to_bytes B c, tkp_response = scalar_to_bytes B z\<rparr>, rng')))"

definition verify_tag_knowledge :: "('f::field, 'g::ab_group_add) backend \<Rightarrow> pet_tag
    \<Rightarrow> tag_knowledge_proof \<Rightarrow> bytes \<Rightarrow> unit result" where
  "verify_tag_knowledge B tag prf tag_transcript_digest =
    rbind (decode_group_element B (pt_ephemeral_point tag)) (\<lambda>ephemeral_point.
    if length (tkp_challenge prf) \<noteq> 32
    then Inl (ElGamalError ''Invalid tag-knowledge-proof challenge length: expected {}, got {}'')
    else rbind (map_err (ElGamalError ''Failed to deserialize tag-knowledge-proof challenge: {:?}'')
        (fr_from_bytes B (tkp_challenge prf))) (\<lambda>challenge.
    if length (tkp_response prf) \<noteq> 32
    then Inl (ElGamalError ''Invalid tag-knowledge-proof response length: expected {}, got {}'')
    else rbind (map_err (ElGamalError ''Failed to deserialize tag-knowledge-proof response: {:?}'')
        (fr_from_bytes B (tkp_response prf))) (\<lambda>response.
      let r1_prime = smul B response (generator B) - smul B challenge ephemeral_point;
          recomputed_challenge =
            tag_knowledge_proof_challenge B ephemeral_point r1_prime tag_transcript_digest
      in if scalar_to_bytes B challenge \<noteq> scalar_to_bytes B recomputed_challenge
         then Inl (ElGamalError ''Tag knowledge proof verification failed'')
         else Inr ())))"

section \<open>Threshold checks\<close>

definition partial_pet_check :: "('f::field, 'g::ab_group_add) backend \<Rightarrow> 'f \<Rightarrow> u32 \<Rightarrow> pet_tag
    \<Rightarrow> bytes \<Rightarrow> (('f, 'g) pet_check_reply result \<times> bytes) option" where
  "partial_pet_check B share_i node_id tag rng =
    (case decode_group_element B (pt_ephemeral_point tag) of
       Inl e \<Rightarrow> Some (Inl e, rng)
     | Inr r_point \<Rightarrow>
         let partial = smul B share_i r_point;
             public_share = smul B share_i (generator B)
         in (case fr_rand_nonzero B rng of
               None \<Rightarrow> None
             | Some (ri, rng') \<Rightarrow>
                 let ui_hat = smul B ri r_point;
                     hi_hat = smul B ri (generator B);
                     challenge = pet_check_proof_challenge B node_id r_point public_share partial
                       [ui_hat, hi_hat];
                     prf = ri + challenge * share_i
                 in Some (Inr \<lparr>pcr_partial = \<lparr>pub_i = node_id, pub_v = partial\<rparr>,
                               pcr_challenge = challenge, pcr_proof = prf\<rparr>, rng')))"

definition verify_partial_pet_check :: "('f::field, 'g::ab_group_add) backend \<Rightarrow> 'g pub_poly
    \<Rightarrow> pet_tag \<Rightarrow> ('f, 'g) pet_check_reply \<Rightarrow> unit result" where
  "verify_partial_pet_check B pub_poly tag reply =
    rbind (decode_group_element B (pt_ephemeral_point tag)) (\<lambda>r_point.
      let node_id = pub_i (pcr_partial reply);
          public_share = pub_poly_eval B pub_poly node_id;
          ui_hat = smul B (pcr_proof reply) r_point
            - smul B (pcr_challenge reply) (pub_v (pcr_partial reply));
          hi_hat = smul B (pcr_proof reply) (generator B) - smul B (pcr_challenge reply) public_share;
          recomputed_challenge = pet_check_proof_challenge B node_id r_point public_share
            (pub_v (pcr_partial reply)) [ui_hat, hi_hat]
      in if scalar_to_bytes B (pcr_challenge reply) \<noteq> scalar_to_bytes B recomputed_challenge
         then Inl (ElGamalError ''PET check share verification failed'')
         else Inr ())"

definition check_pet_share_index :: "nat \<Rightarrow> u32 \<Rightarrow> u32 set \<Rightarrow> u32 set result" where
  "check_pet_share_index n i seen_indices =
    (if i < 1 \<or> i > as_u32 n
     then Inl (ElGamalError ''Invalid PET check share index: {} (must be in range [1, {}])'')
     else if i \<in> seen_indices then Inl (ElGamalError ''Duplicate PET check share index: {}'')
     else Inr (insert i seen_indices))"

definition pet_lambda :: "u32 list \<Rightarrow> nat \<Rightarrow> 'f::field result" where
  "pet_lambda ids i =
    (let (num, den) = fold (\<lambda>j (num, den).
           if i = j then (num, den)
           else (num * fr_of_u32 (ids ! j), den * (fr_of_u32 (ids ! j) - fr_of_u32 (ids ! i))))
           [0..<length ids] (1, 1)
     in rbind (ok_or (ElGamalError
            ''Division by zero in Lagrange interpolation - this should not happen after validation'')
          (fr_inverse den)) (\<lambda>inv. Inr (num * inv)))"

definition combine_pet_check_shares ::
  "('f::field, 'g::ab_group_add) backend \<Rightarrow> 'g pub_share list \<Rightarrow> nat \<Rightarrow> nat \<Rightarrow> 'g result" where
  "combine_pet_check_shares B shares threshold n =
    (if length shares < threshold
     then Inl (ElGamalError ''Insufficient PET check shares: got {}, need {}'')
     else
       let shares_to_use = take threshold shares; ids = map pub_i shares_to_use
       in rbind (for_each (check_pet_share_index n) ids {}) (\<lambda>_.
          for_each (\<lambda>i result.
            rbind (pet_lambda ids i) (\<lambda>lambda.
              Inr (result + smul B lambda (pub_v (shares_to_use ! i)))))
            [0..<length shares_to_use] 0))"

definition verify_pet_match ::
  "('f, 'g::ab_group_add) backend \<Rightarrow> pet_tag \<Rightarrow> 'g \<Rightarrow> 'g \<Rightarrow> unit result" where
  "verify_pet_match B tag combined_check target_fingerprint =
    rbind (decode_group_element B (pt_masked_fingerprint tag)) (\<lambda>masked_fingerprint.
      let expected = target_fingerprint + combined_check
      in if point_to_bytes B expected \<noteq> point_to_bytes B masked_fingerprint
         then Inl (ElGamalError ''PET check failed: tag does not match the audit target'')
         else Inr ())"

section \<open>Blinding\<close>

definition prove_blinding_correctness :: "('f::field, 'g::ab_group_add) backend \<Rightarrow> 'f \<Rightarrow> pet_tag \<Rightarrow> 'g
    \<Rightarrow> bytes \<Rightarrow> bytes \<Rightarrow> (('f, 'g) blinding_reply result \<times> bytes) option" where
  "prove_blinding_correctness B z_i tag target_fingerprint blind_transcript_digest rng =
    (case rbind (decode_group_element B (pt_ephemeral_point tag)) (\<lambda>r_point.
          rbind (decode_group_element B (pt_masked_fingerprint tag)) (\<lambda>masked_fingerprint.
            let diff_point = masked_fingerprint - target_fingerprint;
                blinded_r = smul B z_i r_point;
                blinded_diff = smul B z_i diff_point
            in if blinded_r = 0
               then Inl (ElGamalError ''Invalid blinding scalar: z_i cannot be zero'')
               else Inr (r_point, diff_point, blinded_r, blinded_diff))) of
       Inl e \<Rightarrow> Some (Inl e, rng)
     | Inr (r_point, diff_point, blinded_r, blinded_diff) \<Rightarrow>
         (case fr_rand_nonzero B rng of
            None \<Rightarrow> None
          | Some (w_i, rng') \<Rightarrow>
              let u_i = smul B w_i r_point;
                  v_i = smul B w_i diff_point;
                  challenge = blinding_proof_challenge B r_point diff_point blinded_r blinded_diff
                    u_i v_i blind_transcript_digest;
                  prf = w_i + challenge * z_i
              in Some (Inr \<lparr>br_blinded_r = blinded_r, br_blinded_diff = blinded_diff,
                            br_challenge = challenge, br_proof = prf\<rparr>, rng')))"

definition verify_blinding_correctness :: "('f::field, 'g::ab_group_add) backend \<Rightarrow> pet_tag \<Rightarrow> 'g
    \<Rightarrow> ('f, 'g) blinding_reply \<Rightarrow> bytes \<Rightarrow> unit result" where
  "verify_blinding_correctness B tag target_fingerprint reply blind_transcript_digest =
    rbind (decode_group_element B (pt_ephemeral_point tag)) (\<lambda>r_point.
    rbind (decode_group_element B (pt_masked_fingerprint tag)) (\<lambda>masked_fingerprint.
      let diff_point = masked_fingerprint - target_fingerprint
      in if br_blinded_r reply = 0
         then Inl (ElGamalError ''Invalid blinding contribution: blinded_r cannot be the identity element'')
         else
           let u_i = smul B (br_proof reply) r_point - smul B (br_challenge reply) (br_blinded_r reply);
               v_i = smul B (br_proof reply) diff_point
                 - smul B (br_challenge reply) (br_blinded_diff reply);
               recomputed_challenge = blinding_proof_challenge B r_point diff_point
                 (br_blinded_r reply) (br_blinded_diff reply) u_i v_i blind_transcript_digest
           in if scalar_to_bytes B (br_challenge reply) \<noteq> scalar_to_bytes B recomputed_challenge
              then Inl (ElGamalError ''Blinding-correctness proof verification failed'')
              else Inr ()))"

end
