(* ===== verification/Pet_Security.thy ===== *)
theory Pet_Security
  imports Pet Reference_Field
begin

text \<open>
  The properties of the plaintext-equality test: honest proofs verify, a wrong contribution is
  accepted for at most one hash answer, a threshold of checks opens the mask, and both the
  direct and the blind test accept exactly when owner and target have the same fingerprint.
\<close>

section \<open>Inversion lemmas\<close>

context lawful_backend
begin

lemma decode_group_element_Inr:
  "decode_group_element B b = Inr P \<longleftrightarrow> b = point_to_bytes B P \<and> P \<noteq> 0"
  by (auto simp: decode_group_element_def result_simps element_from_bytes_iff point_width)

lemma decode_group_element_point [simp]:
  "P \<noteq> 0 \<Longrightarrow> decode_group_element B (point_to_bytes B P) = Inr P"
  by (simp add: decode_group_element_Inr)

lemma verify_tag_knowledge_iff:
  "verify_tag_knowledge B tag p digest = Inr () \<longleftrightarrow>
    (\<exists>R c z. pt_ephemeral_point tag = point_to_bytes B R \<and> R \<noteq> 0 \<and>
      tkp_challenge p = scalar_to_bytes B c \<and> tkp_response p = scalar_to_bytes B z \<and>
      c = tag_knowledge_proof_challenge B R (smul B z (generator B) - smul B c R) digest)"
  by (auto simp: verify_tag_knowledge_def Let_def result_simps decode_group_element_Inr fr_from_bytes_iff
      scalar_width split: if_splits)

lemma verify_partial_iff:
  "verify_partial_pet_check B P tag reply = Inr () \<longleftrightarrow>
    (\<exists>R. pt_ephemeral_point tag = point_to_bytes B R \<and> R \<noteq> 0 \<and>
      pcr_challenge reply = pet_check_proof_challenge B (pub_i (pcr_partial reply)) R
        (pub_poly_eval B P (pub_i (pcr_partial reply))) (pub_v (pcr_partial reply))
        [smul B (pcr_proof reply) R - smul B (pcr_challenge reply) (pub_v (pcr_partial reply)),
         smul B (pcr_proof reply) (generator B)
           - smul B (pcr_challenge reply) (pub_poly_eval B P (pub_i (pcr_partial reply)))])"
  by (auto simp: verify_partial_pet_check_def Let_def result_simps decode_group_element_Inr)

lemma verify_blinding_iff:
  "verify_blinding_correctness B tag F reply digest = Inr () \<longleftrightarrow>
    (\<exists>R T. pt_ephemeral_point tag = point_to_bytes B R \<and> R \<noteq> 0 \<and>
      pt_masked_fingerprint tag = point_to_bytes B T \<and> T \<noteq> 0 \<and> br_blinded_r reply \<noteq> 0 \<and>
      br_challenge reply = blinding_proof_challenge B R (T - F) (br_blinded_r reply) (br_blinded_diff reply)
        (smul B (br_proof reply) R - smul B (br_challenge reply) (br_blinded_r reply))
        (smul B (br_proof reply) (T - F) - smul B (br_challenge reply) (br_blinded_diff reply)) digest)"
  by (auto simp: verify_blinding_correctness_def Let_def result_simps decode_group_element_Inr)

lemma partial_pet_check_Inr:
  assumes "partial_pet_check B x i tag rng = Some (Inr reply, rng')"
  obtains R k c where "pt_ephemeral_point tag = point_to_bytes B R" "R \<noteq> 0"
    "pub_i (pcr_partial reply) = i" "pub_v (pcr_partial reply) = smul B x R" "pcr_challenge reply = c"
    "c = pet_check_proof_challenge B i R (smul B x (generator B)) (smul B x R)
      [smul B k R, smul B k (generator B)]"
    "pcr_proof reply = k + c * x"
  using assms
  by (auto simp: partial_pet_check_def Let_def decode_group_element_Inr split: option.splits sum.splits)

lemma prove_blinding_Inr:
  assumes "prove_blinding_correctness B z tag F digest rng = Some (Inr reply, rng')"
  obtains R T k c where "pt_ephemeral_point tag = point_to_bytes B R" "R \<noteq> 0"
    "pt_masked_fingerprint tag = point_to_bytes B T" "T \<noteq> 0" "smul B z R \<noteq> 0"
    "br_blinded_r reply = smul B z R" "br_blinded_diff reply = smul B z (T - F)"
    "br_challenge reply = c" "br_proof reply = k + c * z"
    "c = blinding_proof_challenge B R (T - F) (smul B z R) (smul B z (T - F)) (smul B k R)
      (smul B k (T - F)) digest"
  using assms
  by (auto simp: prove_blinding_correctness_def Let_def decode_group_element_Inr result_simps
      split: option.splits sum.splits if_splits)

lemma tag_knowledge_complete:
  assumes "prove_tag_knowledge B r tag digest rng = Some (Inr p, rng')"
    and "pt_ephemeral_point tag = point_to_bytes B (smul B r (generator B))"
  shows "verify_tag_knowledge B tag p digest = Inr ()"
  using assms
  by (auto simp: prove_tag_knowledge_def verify_tag_knowledge_iff decode_group_element_Inr Let_def
      points.scale_left_distrib split: option.splits sum.splits)

section \<open>Combining checks\<close>

lemma pet_lambda_value:
  assumes "distinct ids" "i < length ids"
  shows "pet_lambda ids i = Inr (weight0 ids (ids ! i) :: 'f)"
proof -
  have "set [0..<length ids] - {i} = {0..<length ids} - {i}" by auto
  then show ?thesis
    using weight0_by_position [OF assms]
    by (simp add: pet_lambda_def eq_commute [of i] fold_num_den prod_list_others fr_inverse_def Let_def)
qed

end

lemma check_pet_indices:
  "for_each (check_pet_share_index n) ids seen = Inr r \<longleftrightarrow>
    distinct ids \<and> set ids \<inter> seen = {} \<and> (\<forall>i \<in> set ids. i \<noteq> 0 \<and> i \<le> as_u32 n) \<and>
    r = seen \<union> set ids"
  by (induction ids arbitrary: seen)
    (auto simp: check_pet_share_index_def result_simps not_less split: if_splits)

context lawful_backend
begin

lemma combine_value:
  assumes "t \<le> length shares" "distinct (map pub_i (take t shares))"
    and "\<forall>s \<in> set (take t shares). pub_i s \<noteq> 0 \<and> pub_i s \<le> as_u32 n"
    and "cs \<noteq> []" "length cs \<le> t"
    and "\<forall>s \<in> set (take t shares). pub_v s = smul B x (poly_value (smul B) cs (fr_of_u32 (pub_i s)))"
  shows "combine_pet_check_shares B shares t n = Inr (smul B x (cs ! 0))"
proof -
  let ?ids = "map pub_i (take t shares)"
  have len: "length ?ids = t" using assms(1) by simp
  have v: "pub_v (shares ! i) = smul B x (poly_value (smul B) cs (fr_of_u32 (?ids ! i)))"
    if "i < length ?ids" for i
    using that assms(6) by (auto simp: all_set_conv_all_nth)
  have "for_each (check_pet_share_index n) ?ids {} = Inr (set ?ids)"
    unfolding check_pet_indices using assms(2,3) by simp
  moreover have "for_each (\<lambda>i result. rbind (pet_lambda ?ids i) (\<lambda>lambda.
      Inr (result + smul B lambda (pub_v (take t shares ! i))))) [0..<t] 0
      = Inr (fold (\<lambda>i result. result + smul B (weight0 ?ids (?ids ! i)) (pub_v (shares ! i))) [0..<t] 0)"
    using assms(2) len by (intro for_each_total) (simp add: pet_lambda_value)
  ultimately show ?thesis
    using assms(1) len interpolate_positions [OF assms(2) _ assms(4) v] assms(5)
    by (simp add: combine_pet_check_shares_def Let_def fold_sum_list)
qed

text \<open>Checks made with shares of one polynomial combine to the secret times the tag's point.\<close>

lemma combine_partials:
  assumes "t \<le> length shares" "distinct (map pub_i (take t shares))"
    and "\<forall>s \<in> set (take t shares). pub_i s \<noteq> 0 \<and> pub_i s \<le> as_u32 n"
    and "commits P \<noteq> []" "length (commits P) \<le> t"
    and "pt_ephemeral_point tag = point_to_bytes B (smul B y (generator B))"
    and "\<And>s. s \<in> set (take t shares) \<Longrightarrow> \<exists>x rng reply rng'.
      smul B x (generator B) = pub_poly_eval B P (pub_i s) \<and>
      partial_pet_check B x (pub_i s) tag rng = Some (Inr reply, rng') \<and> s = pcr_partial reply"
  shows "combine_pet_check_shares B shares t n = Inr (smul B y (pub_poly_eval B P 0))"
proof -
  have "pub_v s = smul B y (poly_value (smul B) (commits P) (fr_of_u32 (pub_i s)))"
    if mem: "s \<in> set (take t shares)" for s
  proof -
    obtain x rng reply rng' where x: "smul B x (generator B) = pub_poly_eval B P (pub_i s)"
      and chk: "partial_pet_check B x (pub_i s) tag rng = Some (Inr reply, rng')" and s: "s = pcr_partial reply"
      using assms(7) [OF mem] by blast
    from chk have "pub_v s = smul B x (smul B y (generator B))"
      by (rule partial_pet_check_Inr) (use assms(6) s in simp)
    also have "\<dots> = smul B y (smul B x (generator B))" by (simp add: mult.commute)
    finally show ?thesis by (simp only: x pub_poly_eval_value)
  qed
  then show ?thesis
    using combine_value [OF assms(1-5)] assms(4) by (simp add: pub_poly_eval_0)
qed

lemma honest_partial_verifies:
  assumes "partial_pet_check B x i tag rng = Some (Inr reply, rng')"
    and "smul B x (generator B) = pub_poly_eval B P i"
  shows "verify_partial_pet_check B P tag reply = Inr ()"
  using assms(1)
  by (rule partial_pet_check_Inr)
    (simp add: verify_partial_iff points.scale_left_distrib flip: assms(2))

lemma honest_blinding_verifies:
  assumes "prove_blinding_correctness B z tag F digest rng = Some (Inr reply, rng')"
  shows "verify_blinding_correctness B tag F reply digest = Inr ()"
  using assms
proof (rule prove_blinding_Inr)
  fix R T k c
  assume tag: "pt_ephemeral_point tag = point_to_bytes B R" "R \<noteq> 0"
      "pt_masked_fingerprint tag = point_to_bytes B T" "T \<noteq> 0" "smul B z R \<noteq> 0"
    and reply: "br_blinded_r reply = smul B z R" "br_blinded_diff reply = smul B z (T - F)"
      "br_challenge reply = c" "br_proof reply = k + c * z"
    and c: "c = blinding_proof_challenge B R (T - F) (smul B z R) (smul B z (T - F)) (smul B k R)
      (smul B k (T - F)) digest"
  have "br_challenge reply = blinding_proof_challenge B R (T - F) (br_blinded_r reply) (br_blinded_diff reply)
      (smul B (br_proof reply) R - smul B (br_challenge reply) (br_blinded_r reply))
      (smul B (br_proof reply) (T - F) - smul B (br_challenge reply) (br_blinded_diff reply)) digest"
    unfolding reply sigma_complete by (rule c)
  then show ?thesis using tag reply by (auto simp: verify_blinding_iff)
qed

lemma pet_check_preimage_inject:
  "pet_check_preimage B i R S X [y, z] = pet_check_preimage B i' R' S' X' [y', z']
    \<longleftrightarrow> i = i' \<and> R = R' \<and> S = S' \<and> X = X' \<and> y = y' \<and> z = z'"
proof
  assume "pet_check_preimage B i R S X [y, z] = pet_check_preimage B i' R' S' X' [y', z']"
  then have "le_u32 i = le_u32 i'" "R = R' \<and> S = S' \<and> X = X' \<and> y = y' \<and> z = z'"
    by (simp_all add: pet_check_preimage_def point_width append_eq_append_conv)
  moreover have "i = i'" using arg_cong [OF calculation(1), of u32_of_le] by simp
  ultimately show "i = i' \<and> R = R' \<and> S = S' \<and> X = X' \<and> y = y' \<and> z = z'" by simp
qed simp

lemma blinding_preimage_inject:
  "length d = length d' \<Longrightarrow> blinding_preimage B R D X Y u v d = blinding_preimage B R' D' X' Y' u' v' d'
    \<longleftrightarrow> R = R' \<and> D = D' \<and> X = X' \<and> Y = Y' \<and> u = u' \<and> v = v' \<and> d = d'"
  by (auto simp: blinding_preimage_def point_width append_eq_append_conv)

text \<open>The blinding contributions of one tag sum to the summed scalar times its two points.\<close>

lemma aggregate_blinding:
  assumes "pt_ephemeral_point tag = point_to_bytes B (smul B r (generator B))"
    and "pt_masked_fingerprint tag = point_to_bytes B T"
    and "list_all2 (\<lambda>(z, rng, digest) reply. \<exists>rng'.
      prove_blinding_correctness B z tag F digest rng = Some (Inr reply, rng')) blinders replies"
  shows "(\<Sum>b\<leftarrow>replies. br_blinded_r b) = smul B ((\<Sum>(z, _)\<leftarrow>blinders. z) * r) (generator B) \<and>
    (\<Sum>b\<leftarrow>replies. br_blinded_diff b) = smul B (\<Sum>(z, _)\<leftarrow>blinders. z) (T - F)"
  using assms(3)
proof (induction rule: list_all2_induct)
  case (Cons x xs b bs)
  obtain z rng digest where x: "x = (z, rng, digest)" by (cases x)
  with Cons.hyps obtain rng' where "prove_blinding_correctness B z tag F digest rng = Some (Inr b, rng')"
    by auto
  then have "br_blinded_r b = smul B (z * r) (generator B) \<and> br_blinded_diff b = smul B z (T - F)"
    by (rule prove_blinding_Inr) (use assms(1,2) in auto)
  with Cons.IH show ?case
    by (simp add: x points.scale_left_distrib distrib_right)
qed simp

lemma zero_smul: "smul B 0 P = 0"
  by simp

lemma blind_match_algebra:
  assumes "Z \<noteq> 0"
  shows "smul B (Z * r) K = smul B Z (F + smul B r K - F') \<longleftrightarrow> F = F'"
proof -
  have "smul B (Z * r) K = smul B Z (F + smul B r K - F') \<longleftrightarrow> smul B Z (F - F') = 0"
    by (auto simp: algebra_simps points.scale_right_distrib points.scale_right_diff_distrib)
  also have "\<dots> \<longleftrightarrow> F = F'"
    using assms smul_point_inject [of Z "F - F'" 0] by auto
  finally show ?thesis .
qed

end

section \<open>A tag over the reference field\<close>

text \<open>The committee of two has the polynomial \<open>3 + 12x\<close>; the tag is made with \<open>r = 5\<close> for an owner.\<close>

definition ex_nonce_tape :: bytes where
  "ex_nonce_tape = 7 # replicate 31 0"

definition ex_pet_ring :: "ref_scalar pub_poly" where
  "ex_pet_ring = \<lparr>commits = [3, 12]\<rparr>"

definition ex_owner :: bytes where
  "ex_owner = [1, 3]"

definition ex_fingerprint :: ref_scalar where
  "ex_fingerprint = fingerprint_scalar ref_backend ex_owner"

definition ex_tag :: pet_tag where
  "ex_tag = \<lparr>pt_ephemeral_point = point_to_bytes ref_backend 5,
     pt_masked_fingerprint = point_to_bytes ref_backend (ex_fingerprint + 15)\<rparr>"

lemma ex_nonce: "fr_rand_nonzero ref_backend ex_nonce_tape = Some (7, [])"
  by code_simp

lemma ex_pet_shares: "pub_poly_eval ref_backend ex_pet_ring 1 = 15" "pub_poly_eval ref_backend ex_pet_ring 2 = 27"
  "pub_poly_eval ref_backend ex_pet_ring 0 = 3"
  by code_simp+

lemma ex_owner_fingerprint: "owner_fingerprint ref_backend ex_owner = Inr ex_fingerprint"
  by (simp add: owner_fingerprint_def ex_fingerprint_def)

lemma ex_partial:
  assumes "pt_ephemeral_point tag = point_to_bytes ref_backend R" "R \<noteq> 0"
    and "s \<in> set (take 2 [\<lparr>pub_i = 1, pub_v = 15 * R\<rparr>, \<lparr>pub_i = 2, pub_v = 27 * R\<rparr>])"
  shows "\<exists>x rng reply rng'. smul ref_backend x (generator ref_backend) = pub_poly_eval ref_backend ex_pet_ring (pub_i s) \<and>
    partial_pet_check ref_backend x (pub_i s) tag rng = Some (Inr reply, rng') \<and> s = pcr_partial reply"
proof -
  have "\<exists>reply. partial_pet_check ref_backend x i tag ex_nonce_tape = Some (Inr reply, []) \<and>
      pcr_partial reply = \<lparr>pub_i = i, pub_v = x * R\<rparr>" for x i
    using reference.decode_group_element_point [OF assms(2)] assms(1)
    by (simp add: partial_pet_check_def Let_def ex_nonce)
  then have run: "\<exists>rng reply rng'. partial_pet_check ref_backend x i tag rng = Some (Inr reply, rng') \<and>
      \<lparr>pub_i = i, pub_v = x * R\<rparr> = pcr_partial reply" for x i
    by metis
  from assms(3) consider "s = \<lparr>pub_i = 1, pub_v = 15 * R\<rparr>" | "s = \<lparr>pub_i = 2, pub_v = 27 * R\<rparr>"
    by auto
  then show ?thesis
  proof cases
    case 1
    then show ?thesis using run [where x = 15 and i = 1] ex_pet_shares by (intro exI [of _ 15]) simp
  next
    case 2
    then show ?thesis using run [where x = 27 and i = 2] ex_pet_shares by (intro exI [of _ 27]) simp
  qed
qed

section \<open>The direct and the blind test\<close>

text \<open>
  C28: the equality test decides ownership.  For a tag made for an owner under the PET key of a ring,
  the checks of a threshold of committee members combine, and the comparison accepts a target
  exactly when the fingerprint scalars of target and owner agree.
\<close>

theorem pet_check_identifies_owner:
  assumes "lawful_backend B" "owner_fingerprint B owner = Inr F" "owner_fingerprint B target = Inr F'"
    and "pt_ephemeral_point tag = point_to_bytes B (smul B r (generator B))"
    and "pt_masked_fingerprint tag = point_to_bytes B (F + smul B r (pub_poly_eval B P 0))"
    and "F + smul B r (pub_poly_eval B P 0) \<noteq> 0"
    and "t \<le> length shares" "distinct (map pub_i (take t shares))"
    and "\<forall>s \<in> set (take t shares). pub_i s \<noteq> 0 \<and> pub_i s \<le> as_u32 n"
    and "commits P \<noteq> []" "length (commits P) \<le> t"
    and "\<And>s. s \<in> set (take t shares) \<Longrightarrow> \<exists>x rng reply rng'.
      smul B x (generator B) = pub_poly_eval B P (pub_i s) \<and>
      partial_pet_check B x (pub_i s) tag rng = Some (Inr reply, rng') \<and> s = pcr_partial reply"
  shows "\<exists>C. combine_pet_check_shares B shares t n = Inr C \<and>
    (verify_pet_match B tag C F' = Inr () \<longleftrightarrow> fingerprint_scalar B owner = fingerprint_scalar B target)"
proof -
  note combined = lawful_backend.combine_partials [OF assms(1,7-11,4,12)]
  have "F' + smul B r (pub_poly_eval B P 0) = F + smul B r (pub_poly_eval B P 0) \<longleftrightarrow> F' = F"
    by simp
  also have "\<dots> \<longleftrightarrow> fingerprint_scalar B owner = fingerprint_scalar B target"
    using assms(2,3) lawful_backend.generator_inject [OF assms(1)] by (auto simp: owner_fingerprint_def)
  finally show ?thesis
    using combined assms(5,6) lawful_backend.point_bytes_eq_iff [OF assms(1)]
      lawful_backend.decode_group_element_point [OF assms(1,6)]
    by (simp add: verify_pet_match_def Let_def)
qed

theorem pet_check_identifies_owner_witness:
  "\<exists>C. combine_pet_check_shares ref_backend [\<lparr>pub_i = 1, pub_v = 15 * 5\<rparr>, \<lparr>pub_i = 2, pub_v = 27 * 5\<rparr>] 2 3 = Inr C \<and>
    verify_pet_match ref_backend ex_tag C (fingerprint_scalar ref_backend [9]) \<noteq> Inr ()"
proof -
  have ne: "fingerprint_scalar ref_backend ex_owner \<noteq> fingerprint_scalar ref_backend [9]"
    by code_simp
  have "as_u32 3 = 3" "(5 :: ref_scalar) \<noteq> 0" "ex_fingerprint + smul ref_backend 5 3 \<noteq> 0"
    by code_simp+
  moreover have "pt_ephemeral_point ex_tag = point_to_bytes ref_backend 5" by (simp add: ex_tag_def)
  moreover have "owner_fingerprint ref_backend [9] = Inr (fingerprint_scalar ref_backend [9])"
    by (simp add: owner_fingerprint_def)
  ultimately have "\<exists>C. combine_pet_check_shares ref_backend
      [\<lparr>pub_i = 1, pub_v = 15 * 5\<rparr>, \<lparr>pub_i = 2, pub_v = 27 * 5\<rparr>] 2 3 = Inr C \<and>
    (verify_pet_match ref_backend ex_tag C (fingerprint_scalar ref_backend [9]) = Inr () \<longleftrightarrow>
      fingerprint_scalar ref_backend ex_owner = fingerprint_scalar ref_backend [9])"
    by (intro pet_check_identifies_owner [where P = ex_pet_ring and r = 5 and F = ex_fingerprint]
        reference.lawful_backend_axioms ex_owner_fingerprint ex_partial [where R = 5])
      (simp_all only: ex_pet_shares, simp_all add: ex_tag_def ex_pet_ring_def)
  with ne show ?thesis by blast
qed



section \<open>Soundness of the proofs\<close>

text \<open>The query a verifier makes for a per-share proof.\<close>

definition pet_check_query :: "('f::field, 'g::ab_group_add) backend \<Rightarrow> u32 \<Rightarrow> 'g \<Rightarrow> 'g \<Rightarrow> 'g \<Rightarrow> 'f \<Rightarrow> 'f \<Rightarrow> bytes" where
  "pet_check_query B i R S v c z =
    pet_check_preimage B i R S v [smul B z R - smul B c v, smul B z (generator B) - smul B c S]"

text \<open>
  Soundness of the per-share proof.  Let \<open>x\<close> be the share behind the committed public share and
  let the reply carry another point than \<open>x R\<close>.  Then two hash functions that answer the one query
  of two accepting proofs give the same challenge.
\<close>

theorem wrong_pet_share_one_challenge:
  assumes "lawful_backend B" "pt_ephemeral_point tag = point_to_bytes B R"
    and "pub_poly_eval B P i = S" "S = smul B x (generator B)" "v \<noteq> smul B x R"
    and "verify_partial_pet_check B P tag \<lparr>pcr_partial = \<lparr>pub_i = i, pub_v = v\<rparr>, pcr_challenge = c, pcr_proof = z\<rparr> = Inr ()"
    and "verify_partial_pet_check (B\<lparr>blake2b512 := h\<rparr>) P tag
      \<lparr>pcr_partial = \<lparr>pub_i = i, pub_v = v\<rparr>, pcr_challenge = c', pcr_proof = z'\<rparr> = Inr ()"
    and "pet_check_query B i R S v c z = q" "pet_check_query B i R S v c' z' = q"
  shows "from_le_bytes_mod_order B (blake2b512 B q) = from_le_bytes_mod_order B (h q)"
proof (rule ccontr)
  assume ne: "from_le_bytes_mod_order B (blake2b512 B q) \<noteq> from_le_bytes_mod_order B (h q)"
  have c: "c = from_le_bytes_mod_order B (blake2b512 B q)"
    using assms(2,3,6,8) lawful_backend.point_bytes_eq_iff [OF assms(1)]
    by (auto simp: lawful_backend.verify_partial_iff [OF assms(1)] pet_check_query_def pet_check_proof_challenge_def)
  have "c' = from_le_bytes_mod_order B (h q)"
    using assms(2,3,7,9) lawful_backend.point_bytes_eq_iff [OF assms(1)]
    by (auto simp: lawful_backend.verify_partial_iff [OF lawful_backend.lawful_blake2b512_update [OF assms(1)]]
        pet_check_query_def pet_check_proof_challenge_def pet_check_preimage_def from_le_bytes_mod_order_def
        pub_poly_eval_def)
  with c ne have "c \<noteq> c'" by simp
  moreover have "smul B z R - smul B c v = smul B z' R - smul B c' v"
    "smul B z (generator B) - smul B c S = smul B z' (generator B) - smul B c' S"
    using assms(8,9) by (auto simp: pet_check_query_def lawful_backend.pet_check_preimage_inject [OF assms(1)])
  ultimately have "v = smul B x R"
    using lawful_backend.dleq_extract [OF assms(1)] lawful_backend.generator_nonzero [OF assms(1)] assms(4) by blast
  with assms(5) show False by contradiction
qed

theorem wrong_pet_share_one_challenge_witness:
  "(8 :: ref_scalar) \<noteq> 15 * 5 \<and>
    from_le_bytes_mod_order ref_backend (blake2b512 ref_backend (pet_check_query ref_backend 1 5 15 8 216 2000))
      = from_le_bytes_mod_order ref_backend (216 # replicate 63 0)"
proof -
  have ne: "(8 :: ref_scalar) \<noteq> smul ref_backend 15 5" by code_simp
  have "verify_partial_pet_check ref_backend ex_pet_ring ex_tag
      \<lparr>pcr_partial = \<lparr>pub_i = 1, pub_v = 8\<rparr>, pcr_challenge = 216, pcr_proof = 2000\<rparr> = Inr ()"
    "verify_partial_pet_check (ref_backend\<lparr>blake2b512 := \<lambda>_. 216 # replicate 63 0\<rparr>) ex_pet_ring ex_tag
      \<lparr>pcr_partial = \<lparr>pub_i = 1, pub_v = 8\<rparr>, pcr_challenge = 216, pcr_proof = 2000\<rparr> = Inr ()"
    by code_simp+
  then show ?thesis
    using wrong_pet_share_one_challenge [OF reference.lawful_backend_axioms _ ex_pet_shares(1) _ ne, of ex_tag] ne
    by (simp add: ex_tag_def)
qed

text \<open>
  C30: an accepted blinding contribution uses one scalar.  Whenever two accepting proofs for the same
  contribution answer one hash query differently, the contribution is \<open>(z R, z D)\<close> for one non-zero
  \<open>z\<close>, so it cannot shift the comparison of a certificate.
\<close>

theorem blinding_contribution_sound:
  assumes "lawful_backend B" "pt_ephemeral_point tag = point_to_bytes B R" "pt_masked_fingerprint tag = point_to_bytes B T"
    and "length digest = 32"
    and "verify_blinding_correctness B tag F \<lparr>br_blinded_r = X, br_blinded_diff = Y, br_challenge = c, br_proof = s\<rparr> digest = Inr ()"
    and "verify_blinding_correctness (B\<lparr>blake2b512 := h\<rparr>) tag F
      \<lparr>br_blinded_r = X, br_blinded_diff = Y, br_challenge = c', br_proof = s'\<rparr> digest = Inr ()"
    and "blinding_preimage B R (T - F) X Y (smul B s R - smul B c X) (smul B s (T - F) - smul B c Y) digest = q"
    and "blinding_preimage B R (T - F) X Y (smul B s' R - smul B c' X) (smul B s' (T - F) - smul B c' Y) digest = q"
    and "from_le_bytes_mod_order B (blake2b512 B q) \<noteq> from_le_bytes_mod_order B (h q)"
  shows "\<exists>z. z \<noteq> 0 \<and> X = smul B z R \<and> Y = smul B z (T - F)"
proof -
  note laws = lawful_backend.verify_blinding_iff [OF assms(1)]
    lawful_backend.verify_blinding_iff [OF lawful_backend.lawful_blake2b512_update [OF assms(1)]]
  have c: "c = from_le_bytes_mod_order B (blake2b512 B q)" and X: "X \<noteq> 0"
    using assms(2,3,5,7) lawful_backend.point_bytes_eq_iff [OF assms(1)]
    by (auto simp: laws blinding_proof_challenge_def)
  have "c' = from_le_bytes_mod_order B (h q)"
    using assms(2,3,6,8) lawful_backend.point_bytes_eq_iff [OF assms(1)]
    by (auto simp: laws blinding_proof_challenge_def blinding_preimage_def from_le_bytes_mod_order_def)
  with c assms(9) have ne: "c \<noteq> c'" by simp
  have eqs: "smul B s R - smul B c X = smul B s' R - smul B c' X"
    "smul B s (T - F) - smul B c Y = smul B s' (T - F) - smul B c' Y"
    using assms(7,8) by (auto simp: lawful_backend.blinding_preimage_inject [OF assms(1)])
  let ?z = "(s - s') / (c - c')"
  have "X = smul B ?z R" "Y = smul B ?z (T - F)"
    using lawful_backend.sigma_extract [OF assms(1) eqs(1) ne] lawful_backend.sigma_extract [OF assms(1) eqs(2) ne] .
  moreover have "?z \<noteq> 0" using X calculation(1) lawful_backend.zero_smul [OF assms(1)] by metis
  ultimately show ?thesis by blast
qed

theorem blinding_contribution_sound_witness:
  "\<exists>z. z \<noteq> 0 \<and> (10 :: ref_scalar) = smul ref_backend z 5 \<and> 30 = smul ref_backend z (ex_fingerprint + 15 - ex_fingerprint)"
proof -
  let ?d = "replicate 32 0" and ?h = "\<lambda>_. 9 # replicate 63 0"
  let ?q = "blinding_preimage ref_backend 5 (ex_fingerprint + 15 - ex_fingerprint) 10 30 35 105 ?d"
  have runs: "verify_blinding_correctness ref_backend ex_tag ex_fingerprint
      \<lparr>br_blinded_r = 10, br_blinded_diff = 30, br_challenge = 210, br_proof = 427\<rparr> ?d = Inr ()"
    "verify_blinding_correctness (ref_backend\<lparr>blake2b512 := ?h\<rparr>) ex_tag ex_fingerprint
      \<lparr>br_blinded_r = 10, br_blinded_diff = 30, br_challenge = 9, br_proof = 25\<rparr> ?d = Inr ()"
    "blinding_preimage ref_backend 5 (ex_fingerprint + 15 - ex_fingerprint) 10 30
      (smul ref_backend 427 5 - smul ref_backend 210 10)
      (smul ref_backend 427 (ex_fingerprint + 15 - ex_fingerprint) - smul ref_backend 210 30) ?d = ?q"
    "blinding_preimage ref_backend 5 (ex_fingerprint + 15 - ex_fingerprint) 10 30
      (smul ref_backend 25 5 - smul ref_backend 9 10)
      (smul ref_backend 25 (ex_fingerprint + 15 - ex_fingerprint) - smul ref_backend 9 30) ?d = ?q"
    "from_le_bytes_mod_order ref_backend (blake2b512 ref_backend ?q) \<noteq> from_le_bytes_mod_order ref_backend (?h ?q)"
    by code_simp+
  have "pt_ephemeral_point ex_tag = point_to_bytes ref_backend 5"
    "pt_masked_fingerprint ex_tag = point_to_bytes ref_backend (ex_fingerprint + 15)" "length (?d :: bytes) = 32"
    by (simp_all add: ex_tag_def)
  then show ?thesis
    by (rule blinding_contribution_sound [OF reference.lawful_backend_axioms _ _ _ runs])
qed

end
