(* ===== verification/Caches.thy ===== *)
theory Caches
  imports Prelude "HOL-Library.AList"
begin

text \<open>
  The bounded in-memory caches of a node: the replay guard for client tokens
  (\<open>helpers/jti_replay.rs\<close>), the one-use blinding secrets of the equality test
  (\<open>pet/v0/pending_blind.rs\<close>), the collection of peer responses (\<open>helpers/response_manager.rs\<close>)
  and the retained receipts of the key-generation coordinator (\<open>session_state/receipts.rs\<close>).

  A \<open>HashMap\<close> is an association list; its order stands for the map's iteration order, about which
  nothing is assumed.  An \<open>Instant\<close> and a \<open>Duration\<close> are numbers of nanoseconds, an operation that
  reads the clock takes the reading as an argument, and \<open>duration_since\<close> saturates at zero as
  subtraction on naturals does.
\<close>

type_synonym instant = nat
type_synonym duration = nat

definition from_secs :: "nat \<Rightarrow> duration" where
  "from_secs s = s * 10 ^ 9"

section \<open>Eviction of the oldest entry\<close>

text \<open>\<open>Iterator::min_by_key\<close> returns the first of the minimal elements.\<close>

fun min_by_key :: "('a \<Rightarrow> 'b::linorder) \<Rightarrow> 'a list \<Rightarrow> 'a option" where
  "min_by_key f [] = None"
| "min_by_key f (x # xs) = Some (fold (\<lambda>y m. if f y < f m then y else m) xs x)"

lemma fold_min_by_key:
  "fold (\<lambda>y m. if f y < f m then y else m) xs x \<in> insert x (set xs) \<and>
    (\<forall>y \<in> insert x (set xs). f (fold (\<lambda>y m. if f y < f m then y else m) xs x) \<le> f y)"
  for f :: "'a \<Rightarrow> 'b::linorder"
proof (induction xs arbitrary: x)
  case (Cons z zs)
  show ?case using Cons [of z] Cons [of x] by (auto simp: not_less intro: order_trans less_imp_le)
qed simp

lemma min_by_key_Some:
  fixes f :: "'a \<Rightarrow> 'b::linorder"
  assumes "min_by_key f xs = Some x"
  shows "x \<in> set xs" "\<And>y. y \<in> set xs \<Longrightarrow> f x \<le> f y"
  using assms fold_min_by_key [of f] by (cases xs; fastforce)+

lemma min_by_key_None [simp]: "min_by_key f xs = None \<longleftrightarrow> xs = []"
  by (cases xs) simp_all

text \<open>
  The step that all bounded caches take before an insertion: at capacity, the entry with the
  smallest stamp goes.  The flag says whether an entry was evicted.
\<close>

definition make_room :: "nat \<Rightarrow> ('v \<Rightarrow> instant) \<Rightarrow> ('k \<times> 'v) list \<Rightarrow> ('k \<times> 'v) list \<times> bool" where
  "make_room cap stamp m =
    (if cap \<le> length m
     then (case min_by_key (\<lambda>(_, v). stamp v) m of
             Some (oldest, _) \<Rightarrow> (AList.delete oldest m, True)
           | None \<Rightarrow> (m, False))
     else (m, False))"

lemma length_update_le: "length (AList.update k v m) \<le> Suc (length m)"
  by (induction m) auto

lemma length_delete_less: "k \<in> fst ` set m \<Longrightarrow> length (AList.delete k m) < length m"
  by (auto simp: AList.delete_eq intro!: length_filter_less)

lemma map_of_key: "map_of m k = Some v \<Longrightarrow> k \<in> fst ` set m"
  by (metis domI dom_map_of_conv_image_fst)

lemma update_mem: "(k, v) \<in> set (AList.update k' v' m) \<Longrightarrow> (k, v) \<in> set m \<or> k = k' \<and> v = v'"
  by (induction m) (auto split: if_splits)

lemma make_room_length:
  assumes "length m \<le> cap" "0 < cap"
  shows "length (fst (make_room cap stamp m)) < cap"
proof (cases "min_by_key (\<lambda>(_, v). stamp v) m")
  case None
  then show ?thesis using assms by (simp add: make_room_def)
next
  case (Some kv)
  obtain k v where kv: "kv = (k, v)" by (cases kv)
  have "k \<in> fst ` set m" using min_by_key_Some(1) [OF Some] kv by force
  then show ?thesis
    using assms Some length_delete_less [of k m] by (auto simp: make_room_def kv)
qed

lemma make_room_distinct:
  "distinct (map fst m) \<Longrightarrow> distinct (map fst (fst (make_room cap stamp m)))"
  by (auto simp: make_room_def distinct_delete split: option.splits)

lemma make_room_map_of: "map_of (fst (make_room cap stamp m)) k = Some v \<Longrightarrow> map_of m k = Some v"
  by (auto simp: make_room_def delete_conv split: option.splits if_splits)

lemma make_room_False: "make_room cap stamp m = (m', False) \<Longrightarrow> m' = m"
  by (auto simp: make_room_def split: option.splits if_splits)

text \<open>An evicted entry is the oldest, and no other entry changes.\<close>

lemma make_room_True:
  assumes "make_room cap stamp m = (m', True)" "distinct (map fst m)"
  obtains k v where "map_of m k = Some v" "m' = AList.delete k m"
    "\<And>k' v'. map_of m k' = Some v' \<Longrightarrow> stamp v \<le> stamp v'" "cap \<le> length m"
proof -
  obtain k v where min: "min_by_key (\<lambda>(_, v). stamp v) m = Some (k, v)" "m' = AList.delete k m" "cap \<le> length m"
    using assms(1) by (auto simp: make_room_def split: option.splits if_splits)
  show thesis
  proof (rule that [of k v])
    show "map_of m k = Some v"
      using min_by_key_Some(1) [OF min(1)] assms(2) by simp
    show "stamp v \<le> stamp v'" if "map_of m k' = Some v'" for k' v'
      using min_by_key_Some(2) [OF min(1), of "(k', v')"] map_of_SomeD [OF that] by simp
  qed (use min in simp_all)
qed

section \<open>The contract of a bounded cache\<close>

text \<open>
  What every cache below promises: its keys are distinct and it never holds more than its capacity,
  whatever requests arrive in whatever order.
\<close>

definition bounded :: "nat \<Rightarrow> ('k \<times> 'v) list \<Rightarrow> bool" where
  "bounded cap m \<longleftrightarrow> distinct (map fst m) \<and> length m \<le> cap"

lemma bounded_Nil [simp]: "bounded cap []"
  by (simp add: bounded_def)

lemma bounded_distinct: "bounded cap m \<Longrightarrow> distinct (map fst m)"
  by (simp add: bounded_def)

lemma bounded_filter: "bounded cap m \<Longrightarrow> bounded cap (filter P m)"
  by (auto simp: bounded_def distinct_map_filter intro: order_trans [OF length_filter_le])

lemma bounded_delete: "bounded cap m \<Longrightarrow> bounded cap (AList.delete k m)"
  unfolding bounded_def AList.delete_eq
  by (auto simp: distinct_map_filter intro: order_trans [OF length_filter_le])

lemma bounded_insert: "bounded cap m \<Longrightarrow> length m < cap \<Longrightarrow> bounded cap (AList.update k v m)"
  using length_update_le [of k v m] by (auto simp: bounded_def distinct_update)

lemma length_update_mem: "k \<in> fst ` set m \<Longrightarrow> length (AList.update k v m) = length m"
  by (induction m) auto

lemma bounded_replace: "bounded cap m \<Longrightarrow> k \<in> fst ` set m \<Longrightarrow> bounded cap (AList.update k v m)"
  by (simp add: bounded_def distinct_update length_update_mem)

lemma bounded_make_room: "bounded cap m \<Longrightarrow> bounded cap (fst (make_room cap stamp m))"
proof -
  assume "bounded cap m"
  then show ?thesis
    using make_room_length [of m cap stamp] make_room_distinct [of m cap stamp]
    by (cases "cap = 0") (auto simp: bounded_def make_room_def)
qed

lemma bounded_make_room_insert:
  "bounded cap m \<Longrightarrow> 0 < cap \<Longrightarrow> bounded cap (AList.update k v (fst (make_room cap stamp m)))"
  using make_room_length [of m cap stamp]
  by (intro bounded_insert bounded_make_room) (simp_all add: bounded_def)

lemma map_of_filter_keep:
  "distinct (map fst m) \<Longrightarrow> map_of m k = Some v \<Longrightarrow> P (k, v) \<Longrightarrow> map_of (filter P m) k = Some v"
  by (simp add: distinct_map_filter)

lemma map_of_filter_drop:
  "distinct (map fst m) \<Longrightarrow> map_of (filter P m) k = Some v \<Longrightarrow> map_of m k = Some v \<and> P (k, v)"
  by (auto simp: distinct_map_filter)

locale bounded_cache =
  fixes cap :: nat and step :: "'e \<Rightarrow> ('k \<times> 'v) list \<Rightarrow> ('k \<times> 'v) list"
  assumes step_bounded: "bounded cap m \<Longrightarrow> bounded cap (step e m)"
begin

lemma run_bounded: "bounded cap m \<Longrightarrow> bounded cap (fold step es m)"
  by (induction es arbitrary: m) (auto intro: step_bounded)

lemma run_from_empty: "distinct (map fst (fold step es [])) \<and> length (fold step es []) \<le> cap"
  using run_bounded [of "[]" es] by (simp add: bounded_def)

end

end
