(* ===== verification/Text.thy ===== *)
theory Text
  imports Prelude
begin

text \<open>
  The formatting and parsing of strings that the node relies on: decimal numbers as \<open>format!\<close>
  prints them and \<open>str::parse\<close> reads them, and splitting at a separator.
\<close>

section \<open>Decimal numbers\<close>

fun decimal :: "nat \<Rightarrow> string" where
  "decimal n = (if n < 10 then [char_of (48 + n)] else decimal (n div 10) @ [char_of (48 + n mod 10)])"

declare decimal.simps [simp del]

definition is_digit :: "char \<Rightarrow> bool" where
  "is_digit c \<longleftrightarrow> 48 \<le> (of_char c :: nat) \<and> (of_char c :: nat) \<le> 57"

definition digits_value :: "string \<Rightarrow> nat" where
  "digits_value s = fold (\<lambda>c a. 10 * a + (of_char c - 48)) s 0"

lemma digit_char: "n < 10 \<Longrightarrow> is_digit (char_of (48 + n)) \<and> of_char (char_of (48 + n) :: char) - 48 = n"
  for n :: nat
  by (simp add: is_digit_def of_char_of)

lemma decimal_digits: "c \<in> set (decimal n) \<Longrightarrow> is_digit c"
proof (induction n rule: decimal.induct)
  case (1 n)
  show ?case
  proof (cases "n < 10")
    case True
    with 1 digit_char [of n] show ?thesis by (simp add: decimal.simps)
  next
    case False
    with 1 digit_char [of "n mod 10"] show ?thesis by (auto simp: decimal.simps [of n])
  qed
qed

lemma decimal_not_Nil [simp]: "decimal n \<noteq> []"
  by (simp add: decimal.simps)

lemma digits_value_decimal [simp]: "digits_value (decimal n) = n"
proof (induction n rule: decimal.induct)
  case (1 n)
  show ?case
  proof (cases "n < 10")
    case True
    with digit_char [of n] show ?thesis by (simp add: decimal.simps [of n] digits_value_def)
  next
    case False
    with 1 digit_char [of "n mod 10"] show ?thesis
      by (simp add: decimal.simps [of n] digits_value_def)
  qed
qed

lemma decimal_inject [simp]: "decimal m = decimal n \<longleftrightarrow> m = n"
  by (metis digits_value_decimal)

lemma separator_not_digit [simp]: "\<not> is_digit CHR '':''" "\<not> is_digit CHR ''+''" "\<not> is_digit CHR ''@''"
  by (simp_all add: is_digit_def)

text \<open>
  \<open>str::parse::<u32>\<close>: an optional plus sign, at least one digit, nothing else, and a value that
  fits.
\<close>

definition parse_u32 :: "string \<Rightarrow> u32 option" where
  "parse_u32 s =
    (let digits = (case s of CHR ''+'' # rest \<Rightarrow> rest | _ \<Rightarrow> s) in
     if digits = [] \<or> \<not> list_all is_digit digits \<or> 2 ^ 32 \<le> digits_value digits then None
     else Some (of_nat (digits_value digits)))"

lemma parse_u32_decimal [simp]: "parse_u32 (decimal (unat x)) = Some x"
proof -
  obtain c cs where d: "decimal (unat x) = c # cs" by (cases "decimal (unat x)") simp_all
  have "is_digit c" using decimal_digits [of c "unat x"] d by simp
  then have "(case decimal (unat x) of CHR ''+'' # rest \<Rightarrow> rest | _ \<Rightarrow> decimal (unat x)) = decimal (unat x)"
    unfolding d by (auto split: char.splits bool.splits)
  moreover have "list_all is_digit (decimal (unat x))"
    using decimal_digits by (auto simp: list_all_iff)
  ultimately show ?thesis
    using unsigned_less [of x, where ?'a = nat] by (simp add: parse_u32_def)
qed

section \<open>Splitting at a separator\<close>

text \<open>\<open>str::split_once(sep)\<close>: the parts before and after the first separator.\<close>

definition split_once :: "char \<Rightarrow> string \<Rightarrow> (string \<times> string) option" where
  "split_once sep s =
    (case dropWhile (\<lambda>c. c \<noteq> sep) s of
       [] \<Rightarrow> None
     | _ # rest \<Rightarrow> Some (takeWhile (\<lambda>c. c \<noteq> sep) s, rest))"

lemma split_once_append [simp]: "sep \<notin> set a \<Longrightarrow> split_once sep (a @ sep # b) = Some (a, b)"
proof -
  assume "sep \<notin> set a"
  then have "dropWhile (\<lambda>c. c \<noteq> sep) (a @ sep # b) = sep # b" "takeWhile (\<lambda>c. c \<noteq> sep) (a @ sep # b) = a"
    by (subst dropWhile_append2 takeWhile_append2; auto)+
  then show ?thesis by (simp add: split_once_def)
qed

lemma split_once_Some: "split_once sep s = Some (a, b) \<Longrightarrow> s = a @ sep # b \<and> sep \<notin> set a"
proof -
  assume s: "split_once sep s = Some (a, b)"
  then obtain c where c: "dropWhile (\<lambda>c. c \<noteq> sep) s = c # b" "a = takeWhile (\<lambda>c. c \<noteq> sep) s"
    by (auto simp: split_once_def split: list.splits)
  then have "c = sep" using hd_dropWhile [of "\<lambda>c. c \<noteq> sep" s] by simp
  with c show ?thesis
    using takeWhile_dropWhile_id [of "\<lambda>c. c \<noteq> sep" s] by (auto dest: set_takeWhileD)
qed

text \<open>A separator ends a decimal prefix unambiguously.\<close>

lemma decimal_prefix_inject:
  assumes "decimal m @ CHR '':'' # s = decimal n @ CHR '':'' # t"
  shows "m = n \<and> s = t"
proof -
  have "CHR '':'' \<notin> set (decimal k)" for k using decimal_digits by fastforce
  then have "Some (decimal m, s) = Some (decimal n, t)"
    using arg_cong [OF assms, of "split_once CHR '':''"] by simp
  then show ?thesis by simp
qed

end
