(* ===== verification/Replay.thy ===== *)
theory Replay
  imports Caches Text
begin

text \<open>
  The two guards against reuse: the replay guard for client tokens of \<open>helpers/jti_replay.rs\<close> and
  the store of one-use blinding secrets of \<open>pet/v0/pending_blind.rs\<close>.  Both are maps behind a
  write lock, so a history is the sequence of their operations in the order in which they take the
  lock; the background sweepers are operations of their own.
\<close>

section \<open>Single use of client tokens\<close>

definition MAX_TOKEN_LIFETIME_SECS :: u64 where
  "MAX_TOKEN_LIFETIME_SECS = 24 * 60 * 60"

definition JWT_CLOCK_SKEW_LEEWAY_SECS :: u64 where
  "JWT_CLOCK_SKEW_LEEWAY_SECS = 5 * 60"

definition MAX_JTI_ENTRIES :: nat where
  "MAX_JTI_ENTRIES = 1000000"

text \<open>\<open>u64::saturating_sub\<close> and \<open>u64::saturating_add\<close>.\<close>

definition saturating_sub :: "u64 \<Rightarrow> u64 \<Rightarrow> u64" where
  "saturating_sub a b = (if b \<le> a then a - b else 0)"

definition saturating_add :: "u64 \<Rightarrow> u64 \<Rightarrow> u64" where
  "saturating_add a b = (if a + b < a then - 1 else a + b)"

datatype replay_error = AlreadyUsed | MissingJti

datatype jti_outcome = Recorded | RecordedAfterEvicting

type_synonym jti_map = "(string \<times> instant) list"

definition sweep_expired :: "jti_map \<Rightarrow> instant \<Rightarrow> jti_map" where
  "sweep_expired m now = filter (\<lambda>(_, expiry). expiry > now) m"

definition try_record_with_cap ::
  "jti_map \<Rightarrow> string \<Rightarrow> instant \<Rightarrow> instant \<Rightarrow> nat \<Rightarrow> jti_map \<times> (replay_error + jti_outcome)" where
  "try_record_with_cap m jti deadline now max_entries =
    (let m = sweep_expired m now in
     if map_of m jti \<noteq> None then (m, Inl AlreadyUsed)
     else
       let (m, evicted) = make_room max_entries id m in
       (AList.update jti deadline m, Inr (if evicted then RecordedAfterEvicting else Recorded)))"

definition try_record ::
  "jti_map \<Rightarrow> string \<Rightarrow> instant \<Rightarrow> instant \<Rightarrow> jti_map \<times> (replay_error + jti_outcome)" where
  "try_record m jti deadline now = try_record_with_cap m jti deadline now MAX_JTI_ENTRIES"

text \<open>\<open>retention\<close> reads the wall clock, in seconds since the epoch.\<close>

definition retention :: "u64 \<Rightarrow> u64 \<Rightarrow> duration" where
  "retention token_exp_unix now_unix =
    from_secs (unat (saturating_add (min (saturating_sub token_exp_unix now_unix) MAX_TOKEN_LIFETIME_SECS)
      JWT_CLOCK_SKEW_LEEWAY_SECS))"

text \<open>
  The last component says whether the call logged the warning that it evicted a token id which had
  not expired.
\<close>

definition check_and_record ::
  "jti_map \<Rightarrow> string \<Rightarrow> u64 \<Rightarrow> u64 \<Rightarrow> instant \<Rightarrow> jti_map \<times> (replay_error + unit) \<times> bool" where
  "check_and_record m jti token_exp_unix now_unix now =
    (if jti = [] then (m, Inl MissingJti, False)
     else
       let deadline = now + retention token_exp_unix now_unix;
           m = sweep_expired m now
       in case try_record m jti deadline now of
            (m, Inl e) \<Rightarrow> (m, Inl e, False)
          | (m, Inr Recorded) \<Rightarrow> (m, Inr (), False)
          | (m, Inr RecordedAfterEvicting) \<Rightarrow> (m, Inr (), True))"

text \<open>A history of the guard: requests and ticks of the sweeper.\<close>

datatype jti_event =
    Check string u64 u64 instant
  | Sweep instant

fun jti_time :: "jti_event \<Rightarrow> instant" where
  "jti_time (Check _ _ _ now) = now"
| "jti_time (Sweep now) = now"

fun jti_step :: "jti_event \<Rightarrow> jti_map \<Rightarrow> jti_map" where
  "jti_step (Check jti token_exp_unix now_unix now) m = fst (check_and_record m jti token_exp_unix now_unix now)"
| "jti_step (Sweep now) m = sweep_expired m now"

fun jti_warns :: "jti_event \<Rightarrow> jti_map \<Rightarrow> bool" where
  "jti_warns (Check jti token_exp_unix now_unix now) m =
    snd (snd (check_and_record m jti token_exp_unix now_unix now))"
| "jti_warns (Sweep now) m = False"

text \<open>Whether some call of a history logged an eviction.\<close>

fun jti_evicts :: "jti_event list \<Rightarrow> jti_map \<Rightarrow> bool" where
  "jti_evicts [] m = False"
| "jti_evicts (e # es) m = (jti_warns e m \<or> jti_evicts es (jti_step e m))"

lemma sweep_idem [simp]: "sweep_expired (sweep_expired m now) now = sweep_expired m now"
  by (simp add: sweep_expired_def)

lemma bounded_sweep: "bounded cap m \<Longrightarrow> bounded cap (sweep_expired m now)"
  by (simp add: sweep_expired_def bounded_filter)

lemma check_and_record_cases:
  assumes "jti \<noteq> []"
  obtains
    (used) "map_of (sweep_expired m now) jti \<noteq> None"
      "check_and_record m jti texp unix now = (sweep_expired m now, Inl AlreadyUsed, False)"
  | (fresh) m' evicted where "map_of (sweep_expired m now) jti = None"
      "make_room MAX_JTI_ENTRIES id (sweep_expired m now) = (m', evicted)"
      "check_and_record m jti texp unix now =
        (AList.update jti (now + retention texp unix) m', Inr (), evicted)"
proof (cases "map_of (sweep_expired m now) jti")
  case None
  obtain m' evicted where "make_room MAX_JTI_ENTRIES id (sweep_expired m now) = (m', evicted)"
    by (cases "make_room MAX_JTI_ENTRIES id (sweep_expired m now)")
  with None show thesis
    using assms by (intro fresh) (auto simp: check_and_record_def try_record_def try_record_with_cap_def Let_def)
next
  case Some
  then show thesis
    using assms by (intro used) (auto simp: check_and_record_def try_record_def try_record_with_cap_def Let_def)
qed

lemma jti_step_bounded: "bounded MAX_JTI_ENTRIES m \<Longrightarrow> bounded MAX_JTI_ENTRIES (jti_step e m)"
proof (cases e)
  case (Check jti texp unix now)
  assume m: "bounded MAX_JTI_ENTRIES m"
  note swept = bounded_sweep [OF m, of now]
  show ?thesis
  proof (cases "jti = []")
    case True
    with m Check show ?thesis by (simp add: check_and_record_def)
  next
    case False
    then show ?thesis
    proof (cases rule: check_and_record_cases [of jti m now texp unix])
      case used
      with Check swept show ?thesis by simp
    next
      case (fresh m' evicted)
      with Check swept bounded_make_room_insert [OF swept, of jti _ id] show ?thesis
        by (simp add: MAX_JTI_ENTRIES_def)
    qed
  qed
qed (simp add: bounded_sweep)

interpretation jti: bounded_cache MAX_JTI_ENTRIES jti_step
  by unfold_locales (rule jti_step_bounded)

text \<open>The retention is the remaining lifetime, capped, plus the leeway; nothing saturates at the top.\<close>

lemma unat_saturating_sub: "unat (saturating_sub a b) = unat a - unat b"
  by (simp add: saturating_sub_def unat_sub word_le_nat_alt)

lemma retention_value:
  "retention texp unix = from_secs (min (unat texp - unat unix) 86400 + 300)"
proof -
  let ?l = "min (saturating_sub texp unix) MAX_TOKEN_LIFETIME_SECS"
  have l: "unat ?l = min (unat texp - unat unix) 86400"
    by (simp add: min_def word_le_nat_alt unat_saturating_sub MAX_TOKEN_LIFETIME_SECS_def)
  then have "unat ?l + unat JWT_CLOCK_SKEW_LEEWAY_SECS < 2 ^ 64"
    by (simp add: JWT_CLOCK_SKEW_LEEWAY_SECS_def)
  then have sum: "unat (?l + JWT_CLOCK_SKEW_LEEWAY_SECS) = unat ?l + 300"
    by (simp add: unat_word_ariths JWT_CLOCK_SKEW_LEEWAY_SECS_def)
  then have "\<not> ?l + JWT_CLOCK_SKEW_LEEWAY_SECS < ?l"
    by (simp add: word_less_nat_alt)
  then have "saturating_add ?l JWT_CLOCK_SKEW_LEEWAY_SECS = ?l + JWT_CLOCK_SKEW_LEEWAY_SECS"
    unfolding saturating_add_def by (rule if_not_P)
  with l sum show ?thesis unfolding retention_def by presburger
qed

text \<open>A step neither drops nor changes an unexpired entry unless it warns.\<close>

lemma jti_step_keeps:
  assumes "bounded MAX_JTI_ENTRIES m" "map_of m jti = Some d" "jti_time e < d" "\<not> jti_warns e m"
  shows "map_of (jti_step e m) jti = Some d"
proof -
  have keep: "map_of (sweep_expired m now) jti = Some d" if "now < d" for now
    using assms(1,2) that by (auto simp: sweep_expired_def bounded_def intro: map_of_filter_keep)
  show ?thesis
  proof (cases e)
    case (Sweep now)
    with keep assms(3) show ?thesis by simp
  next
    case (Check j texp unix now)
    with assms(3) have now: "now < d" by simp
    show ?thesis
    proof (cases "j = []")
      case True
      with Check assms(2) show ?thesis by (simp add: check_and_record_def)
    next
      case False
      then show ?thesis
      proof (cases rule: check_and_record_cases [of j m now texp unix])
        case used
        with Check keep [OF now] show ?thesis by simp
      next
        case (fresh m' evicted)
        then have "\<not> evicted" using assms(4) Check by simp
        then have "m' = sweep_expired m now" using fresh(2) make_room_False by fastforce
        moreover have "j \<noteq> jti" using fresh(1) keep [OF now] by auto
        ultimately show ?thesis using Check fresh(3) keep [OF now] by (simp add: update_conv)
      qed
    qed
  qed
qed

lemma jti_run_keeps:
  assumes "bounded MAX_JTI_ENTRIES m" "map_of m jti = Some d"
    "\<And>e. e \<in> set es \<Longrightarrow> jti_time e < d" "\<not> jti_evicts es m"
  shows "map_of (fold jti_step es m) jti = Some d"
  using assms
proof (induction es arbitrary: m)
  case (Cons e es)
  then have "map_of (jti_step e m) jti = Some d" by (intro jti_step_keeps) simp_all
  with Cons jti_step_bounded show ?case by simp
qed simp

lemma check_replayed:
  assumes "bounded MAX_JTI_ENTRIES m" "map_of m jti = Some d" "now < d" "jti \<noteq> []"
  shows "fst (snd (check_and_record m jti texp unix now)) = Inl AlreadyUsed"
proof -
  have "map_of (sweep_expired m now) jti = Some d"
    using assms(1-3) by (auto simp: sweep_expired_def bounded_def intro: map_of_filter_keep)
  with assms(4) show ?thesis
    by (cases rule: check_and_record_cases [of jti m now texp unix]) simp_all
qed

text \<open>
  C31: a client token is used once.  Take any history of the replay guard from start-up, a request
  whose token id \<open>jti\<close> it accepts at time \<open>now\<close>, and any further requests and sweeps, in any order
  and for any tokens.  Then a request with the same id is rejected as already used at every
  time before the token's remaining lifetime (capped at a day) plus five minutes has passed, unless
  one of the calls in between logged that it evicted an unexpired id.
\<close>

theorem jti_single_use:
  assumes accepted: "check_and_record (fold jti_step before []) jti texp unix now = (m, Inr (), warned)"
    and window: "\<forall>e \<in> set between. jti_time e < now + from_secs (min (unat texp - unat unix) 86400 + 300)"
    and later: "now' < now + from_secs (min (unat texp - unat unix) 86400 + 300)"
    and no_eviction: "\<not> jti_evicts between m"
  shows "fst (snd (check_and_record (fold jti_step between m) jti texp' unix' now')) = Inl AlreadyUsed"
proof -
  let ?d = "now + retention texp unix"
  have jti: "jti \<noteq> []" using accepted by (auto simp: check_and_record_def)
  have "m = jti_step (Check jti texp unix now) (fold jti_step before [])"
    using accepted by simp
  then have m: "bounded MAX_JTI_ENTRIES m"
    by (simp only: jti_step_bounded jti.run_bounded bounded_Nil)
  have "map_of m jti = Some ?d"
    using accepted by (cases rule: check_and_record_cases [OF jti, of "fold jti_step before []" now texp unix]) 
      (auto simp: update_conv)
  then have "map_of (fold jti_step between m) jti = Some ?d"
    using m window no_eviction by (intro jti_run_keeps) (simp_all add: retention_value)
  then show ?thesis
    using m later jti by (intro check_replayed jti.run_bounded) (simp_all add: retention_value)
qed

text \<open>A token accepted with an hour to live, a sweep and another token in between, replayed later.\<close>

definition ex_jti_between :: "jti_event list" where
  "ex_jti_between = [Sweep (from_secs 100), Check ''t2'' 4000 1000 (from_secs 200)]"

theorem jti_single_use_witness:
  "fst (snd (check_and_record (fold jti_step ex_jti_between
    (fst (check_and_record [] ''t1'' 4600 1000 0))) ''t1'' 4600 1300 (from_secs 300))) = Inl AlreadyUsed"
proof (rule jti_single_use [where before = "[]" and now = 0 and texp = 4600 and unix = 1000 and warned = False])
  show "check_and_record (fold jti_step [] []) ''t1'' 4600 1000 0 =
      (fst (check_and_record [] ''t1'' 4600 1000 0), Inr (), False)"
    by (simp add: check_and_record_def try_record_def try_record_with_cap_def sweep_expired_def
        make_room_def MAX_JTI_ENTRIES_def)
  show "\<forall>e \<in> set ex_jti_between. jti_time e < 0 + from_secs (min (unat (4600 :: u64) - unat (1000 :: u64)) 86400 + 300)"
    by (simp add: ex_jti_between_def from_secs_def)
  show "from_secs 300 < 0 + from_secs (min (unat (4600 :: u64) - unat (1000 :: u64)) 86400 + 300)"
    by (simp add: from_secs_def)
  show "\<not> jti_evicts ex_jti_between (fst (check_and_record [] ''t1'' 4600 1000 0))"
    by (simp add: ex_jti_between_def check_and_record_def try_record_def try_record_with_cap_def
        sweep_expired_def make_room_def MAX_JTI_ENTRIES_def retention_value from_secs_def)
qed

section \<open>One-use blinding secrets\<close>

definition MAX_PET_BLIND_PENDING :: nat where
  "MAX_PET_BLIND_PENDING = 1000"

definition PET_BLIND_PENDING_TTL :: duration where
  "PET_BLIND_PENDING_TTL = from_secs 45"

record 'f pending_blinding =
  pb_z_i :: 'f
  pb_commit_salt :: bytes
  pb_node_id :: u32
  pb_context_digest :: bytes
  pb_commitment :: bytes
  pb_coordinator_peer_id :: bytes
  pb_created_at :: instant

datatype pending_blinding_store_outcome = BlindStored | BlindAlreadyExists | BlindLimitReached

type_synonym 'f pending_map = "(string \<times> 'f pending_blinding) list"

definition pending_key :: "u64 \<Rightarrow> string \<Rightarrow> string" where
  "pending_key protocol_version attempt_id = CHR ''v'' # decimal (unat protocol_version) @ CHR '':'' # attempt_id"

definition remove_expired :: "'f pending_map \<Rightarrow> instant \<Rightarrow> 'f pending_map \<times> nat" where
  "remove_expired m now =
    (let kept = filter (\<lambda>(_, entry). \<not> PET_BLIND_PENDING_TTL \<le> now - pb_created_at entry) m in
     (kept, length m - length kept))"

text \<open>\<open>store\<close> reads the clock twice: for the expiry of old entries and for the stamp of the new one.\<close>

definition blind_store :: "'f pending_map \<Rightarrow> u64 \<Rightarrow> string \<Rightarrow> 'f \<Rightarrow> bytes \<Rightarrow> u32 \<Rightarrow> bytes \<Rightarrow> bytes \<Rightarrow> bytes
    \<Rightarrow> instant \<Rightarrow> instant \<Rightarrow> 'f pending_map \<times> pending_blinding_store_outcome" where
  "blind_store m protocol_version attempt_id z_i commit_salt node_id context_digest commitment
      coordinator_peer_id now stamp =
    (let key = pending_key protocol_version attempt_id;
         m = fst (remove_expired m now)
     in if MAX_PET_BLIND_PENDING \<le> length m then (m, BlindLimitReached)
        else if map_of m key \<noteq> None then (m, BlindAlreadyExists)
        else
          (AList.update key
            \<lparr>pb_z_i = z_i, pb_commit_salt = commit_salt, pb_node_id = node_id,
             pb_context_digest = context_digest, pb_commitment = commitment,
             pb_coordinator_peer_id = coordinator_peer_id, pb_created_at = stamp\<rparr> m, BlindStored))"

definition blind_take ::
  "'f pending_map \<Rightarrow> u64 \<Rightarrow> string \<Rightarrow> bytes \<Rightarrow> 'f pending_map \<times> 'f pending_blinding option" where
  "blind_take m protocol_version attempt_id requesting_peer_id =
    (let key = pending_key protocol_version attempt_id in
     case map_of m key of
       None \<Rightarrow> (m, None)
     | Some entry \<Rightarrow>
         if pb_coordinator_peer_id entry \<noteq> requesting_peer_id then (m, None)
         else (AList.delete key m, Some entry))"

datatype 'f blind_event =
    StoreBlind u64 string 'f bytes u32 bytes bytes bytes instant instant
  | TakeBlind u64 string bytes
  | ExpireBlind instant

fun blind_step :: "'f blind_event \<Rightarrow> 'f pending_map \<Rightarrow> 'f pending_map" where
  "blind_step (StoreBlind v i z salt n ctx cmt peer now stamp) m =
    fst (blind_store m v i z salt n ctx cmt peer now stamp)"
| "blind_step (TakeBlind v i peer) m = fst (blind_take m v i peer)"
| "blind_step (ExpireBlind now) m = fst (remove_expired m now)"

text \<open>How often a history stored a secret for an attempt, and how often it handed one out.\<close>

fun blind_stores :: "u64 \<Rightarrow> string \<Rightarrow> 'f blind_event list \<Rightarrow> 'f pending_map \<Rightarrow> nat" where
  "blind_stores v i [] m = 0"
| "blind_stores v i (e # es) m =
    (case e of
       StoreBlind v' i' z salt n ctx cmt peer now stamp \<Rightarrow>
         of_bool (v' = v \<and> i' = i \<and> snd (blind_store m v' i' z salt n ctx cmt peer now stamp) = BlindStored)
     | _ \<Rightarrow> 0) + blind_stores v i es (blind_step e m)"

fun blind_takes :: "u64 \<Rightarrow> string \<Rightarrow> 'f blind_event list \<Rightarrow> 'f pending_map \<Rightarrow> nat" where
  "blind_takes v i [] m = 0"
| "blind_takes v i (e # es) m =
    (case e of
       TakeBlind v' i' peer \<Rightarrow> of_bool (v' = v \<and> i' = i \<and> snd (blind_take m v' i' peer) \<noteq> None)
     | _ \<Rightarrow> 0) + blind_takes v i es (blind_step e m)"

lemma pending_key_inject [simp]: "pending_key v i = pending_key v' i' \<longleftrightarrow> v = v' \<and> i = i'"
proof
  assume "pending_key v i = pending_key v' i'"
  then have "decimal (unat v) @ CHR '':'' # i = decimal (unat v') @ CHR '':'' # i'"
    by (simp add: pending_key_def)
  from decimal_prefix_inject [OF this] show "v = v' \<and> i = i'" by (simp add: word_unat_eq_iff)
qed simp

lemma bounded_remove_expired: "bounded cap m \<Longrightarrow> bounded cap (fst (remove_expired m now))"
  by (simp add: remove_expired_def Let_def bounded_filter)

lemma remove_expired_subset: "set (fst (remove_expired m now)) \<subseteq> set m"
  by (auto simp: remove_expired_def Let_def)

lemma blind_step_bounded: "bounded MAX_PET_BLIND_PENDING m \<Longrightarrow> bounded MAX_PET_BLIND_PENDING (blind_step e m)"
  by (cases e) (auto simp: blind_store_def blind_take_def Let_def bounded_remove_expired not_le
      intro: bounded_insert bounded_delete split: option.splits)

interpretation blind: bounded_cache MAX_PET_BLIND_PENDING blind_step
  by unfold_locales (rule blind_step_bounded)

text \<open>Every entry of the store was put there by a store request of the history.\<close>

lemma blind_store_origin:
  assumes "(k, e) \<in> set (fst (blind_store m v i z salt n ctx cmt peer now stamp))"
  shows "(k, e) \<in> set m \<or> k = pending_key v i \<and> e = \<lparr>pb_z_i = z, pb_commit_salt = salt, pb_node_id = n,
    pb_context_digest = ctx, pb_commitment = cmt, pb_coordinator_peer_id = peer, pb_created_at = stamp\<rparr>"
  using assms remove_expired_subset [of m now]
  by (auto simp: blind_store_def Let_def split: if_splits dest!: update_mem)

lemma blind_origin:
  assumes "(pending_key v i, e) \<in> set (fold blind_step es m)" "(pending_key v i, e) \<notin> set m"
  shows "\<exists>now. StoreBlind v i (pb_z_i e) (pb_commit_salt e) (pb_node_id e) (pb_context_digest e)
    (pb_commitment e) (pb_coordinator_peer_id e) now (pb_created_at e) \<in> set es"
  using assms
proof (induction es arbitrary: m)
  case (Cons a es)
  show ?case
  proof (cases "(pending_key v i, e) \<in> set (blind_step a m)")
    case False
    with Cons.IH [of "blind_step a m"] Cons.prems show ?thesis by auto
  next
    case True
    then show ?thesis
    proof (cases a)
      case (StoreBlind v' i' z salt n ctx cmt peer now stamp)
      with True Cons.prems(2) blind_store_origin [of "pending_key v i" e m v' i' z salt n ctx cmt peer now stamp]
      show ?thesis by auto
    next
      case (TakeBlind v' i' peer)
      with True Cons.prems(2) show ?thesis
        by (auto simp: blind_take_def Let_def AList.delete_eq split: option.splits if_splits)
    next
      case (ExpireBlind now)
      with True Cons.prems(2) remove_expired_subset [of m now] show ?thesis by auto
    qed
  qed
qed simp

text \<open>Secrets handed out and secrets on hand never exceed the secrets stored.\<close>

abbreviation on_hand :: "u64 \<Rightarrow> string \<Rightarrow> 'f pending_map \<Rightarrow> nat" where
  "on_hand v i m \<equiv> of_bool (pending_key v i \<in> fst ` set m)"

lemma on_hand_expired: "on_hand v i (fst (remove_expired m now)) \<le> on_hand v i m"
  using image_mono [OF remove_expired_subset, of fst m now] by auto

lemma blind_count_step:
  "blind_takes v i [e] m + on_hand v i (blind_step e m) \<le> blind_stores v i [e] m + on_hand v i m"
proof (cases e)
  case (StoreBlind v' i' z salt n ctx cmt peer now stamp)
  define m1 where "m1 = fst (remove_expired m now)"
  have le: "on_hand v i m1 \<le> on_hand v i m" unfolding m1_def by (rule on_hand_expired)
  consider "MAX_PET_BLIND_PENDING \<le> length m1 \<or> map_of m1 (pending_key v' i') \<noteq> None"
    | "\<not> MAX_PET_BLIND_PENDING \<le> length m1" "map_of m1 (pending_key v' i') = None"
    by blast
  then show ?thesis
  proof cases
    case 1
    then have "blind_step e m = m1"
      using StoreBlind by (auto simp: blind_store_def m1_def Let_def)
    with le StoreBlind show ?thesis by simp
  next
    case 2
    then obtain entry where st: "blind_store m v' i' z salt n ctx cmt peer now stamp =
        (AList.update (pending_key v' i') entry m1, BlindStored)"
      by (simp add: blind_store_def m1_def Let_def)
    have "on_hand v i (AList.update (pending_key v' i') entry m1) \<le> of_bool (v' = v \<and> i' = i) + on_hand v i m1"
      unfolding dom_update by auto
    with le show ?thesis unfolding StoreBlind by (simp only: blind_takes.simps blind_stores.simps
        blind_event.case blind_step.simps st fst_conv snd_conv simp_thms add_0 add_0_right)
  qed
next
  case (TakeBlind v' i' peer)
  show ?thesis
  proof (cases "snd (blind_take m v' i' peer)")
    case None
    then have "fst (blind_take m v' i' peer) = m"
      by (auto simp: blind_take_def Let_def split: option.splits if_splits)
    with None TakeBlind show ?thesis by simp
  next
    case (Some entry)
    then have taken: "fst (blind_take m v' i' peer) = AList.delete (pending_key v' i') m"
      and mem: "pending_key v' i' \<in> fst ` set m"
      by (auto simp: blind_take_def Let_def split: option.splits if_splits dest: map_of_key)
    have "of_bool (v' = v \<and> i' = i) + on_hand v i (AList.delete (pending_key v' i') m) \<le> on_hand v i m"
      using mem by (auto simp: AList.delete_eq)
    with taken Some TakeBlind show ?thesis by simp
  qed
next
  case (ExpireBlind now)
  with on_hand_expired [of v i m now] show ?thesis by simp
qed

lemma blind_count:
  "blind_takes v i es m + on_hand v i (fold blind_step es m) \<le> blind_stores v i es m + on_hand v i m"
proof (induction es arbitrary: m)
  case (Cons e es)
  from Cons [of "blind_step e m"] blind_count_step [of v i e m] show ?case by simp
qed simp

text \<open>
  C32: a blinding secret leaves the store at most once, and only for the peer that committed it.  In
  any history of the store from start-up, when a reveal request of a peer for an attempt is answered
  with an entry, that entry is one that a commit request of the same peer, for the same protocol
  version and attempt, stored earlier in the history with these values; and the requests of that
  attempt answered before are fewer than the secrets stored for it, so no stored secret answers two
  requests.
\<close>

theorem blind_secret_one_use:
  assumes "blind_take (fold blind_step es []) v i peer = (m, Some e)"
  shows "pb_coordinator_peer_id e = peer \<and>
    (\<exists>now. StoreBlind v i (pb_z_i e) (pb_commit_salt e) (pb_node_id e) (pb_context_digest e)
      (pb_commitment e) peer now (pb_created_at e) \<in> set es) \<and>
    blind_takes v i es [] < blind_stores v i es []"
proof -
  have e: "map_of (fold blind_step es []) (pending_key v i) = Some e" "pb_coordinator_peer_id e = peer"
    using assms by (auto simp: blind_take_def Let_def split: option.splits if_splits)
  then have mem: "(pending_key v i, e) \<in> set (fold blind_step es [])" by (simp add: map_of_SomeD)
  then have "on_hand v i (fold blind_step es []) = 1" by force
  with blind_count [of v i es "[]"] have "blind_takes v i es [] < blind_stores v i es []" by simp
  with e blind_origin [OF mem] show ?thesis by simp
qed

text \<open>Two peers commit under different versions; one reveals, and a stranger asks in vain before.\<close>

definition ex_blind_events :: "nat blind_event list" where
  "ex_blind_events =
    [StoreBlind 1 ''a'' 7 [1] 2 [2] [3] [9] 0 0, StoreBlind 2 ''a'' 8 [1] 2 [2] [3] [5] 0 0,
     TakeBlind 1 ''a'' [5], ExpireBlind 10]"

definition ex_blind_entry :: "nat pending_blinding" where
  "ex_blind_entry = \<lparr>pb_z_i = 7, pb_commit_salt = [1], pb_node_id = 2, pb_context_digest = [2],
    pb_commitment = [3], pb_coordinator_peer_id = [9], pb_created_at = 0\<rparr>"

theorem blind_secret_one_use_witness:
  "blind_takes 1 ''a'' ex_blind_events [] < blind_stores 1 ''a'' ex_blind_events []"
proof -
  have "map_of (fold blind_step ex_blind_events []) (pending_key 1 ''a'') = Some ex_blind_entry"
    by (simp add: ex_blind_events_def blind_store_def blind_take_def remove_expired_def Let_def
        MAX_PET_BLIND_PENDING_def PET_BLIND_PENDING_TTL_def from_secs_def ex_blind_entry_def)
  then have "blind_take (fold blind_step ex_blind_events []) 1 ''a'' [9] =
      (AList.delete (pending_key 1 ''a'') (fold blind_step ex_blind_events []), Some ex_blind_entry)"
    by (simp add: blind_take_def ex_blind_entry_def)
  from blind_secret_one_use [OF this] show ?thesis by simp
qed

end
