(* ===== verification/Committee.thy ===== *)
theory Committee
  imports Text "HOL-Library.AList" "HOL-Library.Multiset" "HOL-Library.List_Lexorder" "HOL-Library.Char_ord"
begin

text \<open>
  Who is who in a committee: the part of a peer id that names a node (\<open>crates/common\<close>), the node ids
  that members derive from it (\<open>helpers/identity.rs\<close>, \<open>helpers/node_routes.rs\<close>,
  \<open>dkg/v0/helpers/committee.rs\<close>) and the committee configuration of a ceremony
  (\<open>dkg/v0/transport/types.rs\<close>).  Strings are ordered as Rust orders them, by bytes.  A \<open>HashMap\<close> is
  an association list with distinct keys, in iteration order; an error is the text the code returns,
  without the values it interpolates.
\<close>

section \<open>Positions in vectors\<close>

fun position :: "('a \<Rightarrow> bool) \<Rightarrow> 'a list \<Rightarrow> nat option" where
  "position P [] = None"
| "position P (x # xs) = (if P x then Some 0 else map_option Suc (position P xs))"

definition get :: "'a list \<Rightarrow> nat \<Rightarrow> 'a option" where
  "get xs i = (if i < length xs then Some (xs ! i) else None)"

lemma position_Some: "position P xs = Some i \<Longrightarrow> i < length xs \<and> P (xs ! i)"
  by (induction xs arbitrary: i) (auto split: if_splits)

lemma position_None: "position P xs = None \<longleftrightarrow> (\<forall>x \<in> set xs. \<not> P x)"
  by (induction xs) auto

lemma position_nth:
  assumes "distinct xs" "i < length xs"
  shows "position (\<lambda>x. x = xs ! i) xs = Some i"
proof (cases "position (\<lambda>x. x = xs ! i) xs")
  case None
  with assms show ?thesis by (auto simp: position_None)
next
  case (Some j)
  with position_Some [OF Some] nth_eq_iff_index_eq [OF assms(1)] assms(2) show ?thesis by auto
qed

lemma position_get: "distinct xs \<Longrightarrow> position (\<lambda>x. x = y) xs = Some i \<longleftrightarrow> get xs i = Some y"
  using position_nth [of xs i] by (auto simp: get_def dest: position_Some)

text \<open>The cast of a one-based position to \<open>u32\<close>.\<close>

lemma as_u32_Suc: "Suc i < 2 ^ 32 \<Longrightarrow> as_u32 (i + 1) = x \<longleftrightarrow> unat x = i + 1"
  using as_u32_small [of "i + 1"] by (auto simp: word_unat_eq_iff)

section \<open>Node parts of peer ids\<close>

definition node_part :: "string \<Rightarrow> string" where
  "node_part peer_id = takeWhile (\<lambda>c. c \<noteq> CHR ''@'') peer_id"

definition extract_node_part :: "string \<Rightarrow> string" where
  "extract_node_part peer_id = node_part peer_id"

definition sorted_node_parts :: "string list \<Rightarrow> string list" where
  "sorted_node_parts all_peer_ids = remdups_adj (sort (map extract_node_part all_peer_ids))"

definition determine_session_node_id :: "string \<Rightarrow> string list \<Rightarrow> u32 option" where
  "determine_session_node_id our_peer_id all_peer_ids =
    (let our_node_part = extract_node_part our_peer_id in
     map_option (\<lambda>index. as_u32 (index + 1))
       (position (\<lambda>peer_id. peer_id = our_node_part) (sorted_node_parts all_peer_ids)))"

definition node_key_for_id :: "u32 \<Rightarrow> string list \<Rightarrow> string option" where
  "node_key_for_id node_id all_peer_ids =
    (if node_id = 0 then None else get (sorted_node_parts all_peer_ids) (unat node_id - 1))"

lemma distinct_sorted_node_parts: "distinct (sorted_node_parts ids)"
  by (simp add: sorted_node_parts_def distinct_remdups_adj_sorted)

lemma length_sorted_node_parts: "length (sorted_node_parts ids) \<le> length ids"
  using remdups_adj_length [of "sort (map extract_node_part ids)"] by (simp add: sorted_node_parts_def)

section \<open>Canonical node ids\<close>

text \<open>The ids that \<open>HashMap::insert\<close> collects; \<open>insert\<close> reports whether the key was there.\<close>

definition insert_assignment :: "string \<times> nat \<Rightarrow> (string \<times> u32) list \<Rightarrow> string + (string \<times> u32) list" where
  "insert_assignment = (\<lambda>(node_key, idx) assignments.
    (if map_of assignments node_key \<noteq> None then Inl ''duplicate peer_node_key: {node_key}''
     else Inr (AList.update node_key (as_u32 (idx + 1)) assignments)))"

definition canonical_node_id_assignments_from_node_keys ::
  "string list \<Rightarrow> string + (string \<times> u32) list" where
  "canonical_node_id_assignments_from_node_keys peer_node_keys =
    (let sorted = sort peer_node_keys in for_each insert_assignment (zip sorted [0..<length sorted]) [])"

definition node_key_for_canonical_node_id :: "u32 \<Rightarrow> string list \<Rightarrow> string option" where
  "node_key_for_canonical_node_id node_id peer_node_keys =
    (if node_id = 0 then None
     else case canonical_node_id_assignments_from_node_keys peer_node_keys of
            Inl _ \<Rightarrow> None
          | Inr assignments \<Rightarrow>
              map_option fst (find (\<lambda>(_, assigned_node_id). assigned_node_id = node_id) assignments))"

definition in_committee :: "string list \<Rightarrow> string \<Rightarrow> bool" where
  "in_committee committee our_node_key = list_ex (\<lambda>node_key. node_key = our_node_key) committee"

definition node_index_in :: "string list \<Rightarrow> string \<Rightarrow> string + u32" where
  "node_index_in sorted_committee our_node_key =
    ok_or ''node '{}' not found in sorted committee''
      (map_option (\<lambda>i. as_u32 (i + 1)) (position (\<lambda>node_key. node_key = our_node_key) sorted_committee))"

definition peer_node_keys_match :: "string list \<Rightarrow> string list \<Rightarrow> bool" where
  "peer_node_keys_match a b = (if length a \<noteq> length b then False else sort a = sort b)"

definition canonical_leader :: "string list \<Rightarrow> string option" where
  "canonical_leader peer_node_keys =
    (case peer_node_keys of [] \<Rightarrow> None | key # keys \<Rightarrow> Some (fold min keys key))"

text \<open>The loop succeeds exactly on distinct keys, and then lists them with their positions.\<close>

lemma assignment_loop_distinct:
  assumes "distinct (map fst ps)" "fst ` set ps \<inter> fst ` set acc = {}"
  shows "for_each insert_assignment ps acc = Inr (acc @ map (\<lambda>(k, i). (k, as_u32 (i + 1))) ps)"
  using assms
proof (induction ps arbitrary: acc)
  case (Cons p ps)
  obtain k i where p: "p = (k, i)" by (cases p)
  have "map_of acc k = None" using Cons.prems(2) p by (auto simp: map_of_eq_None_iff)
  moreover from this have "AList.update k x acc = acc @ [(k, x)]" for x
    by (induction acc) (auto split: if_splits)
  ultimately show ?case using Cons p by (auto simp: insert_assignment_def)
qed simp

lemma assignment_loop_duplicate:
  assumes "\<not> (distinct (map fst ps) \<and> fst ` set ps \<inter> fst ` set acc = {})"
  shows "for_each insert_assignment ps acc = Inl ''duplicate peer_node_key: {node_key}''"
  using assms
proof (induction ps arbitrary: acc)
  case (Cons p ps)
  obtain k i where p: "p = (k, i)" by (cases p)
  show ?case
  proof (cases "map_of acc k")
    case None
    with Cons.prems p have "\<not> (distinct (map fst ps) \<and>
        fst ` set ps \<inter> fst ` set (AList.update k (as_u32 (i + 1)) acc) = {})"
      by (auto simp: dom_update map_of_eq_None_iff)
    with Cons.IH None p show ?thesis by (simp add: insert_assignment_def)
  qed (simp add: p insert_assignment_def)
qed simp

lemma canonical_assignments:
  "canonical_node_id_assignments_from_node_keys ks =
    (if distinct ks then Inr (map (\<lambda>(k, i). (k, as_u32 (i + 1))) (zip (sort ks) [0..<length ks]))
     else Inl ''duplicate peer_node_key: {node_key}'')"
proof -
  have "map fst (zip (sort ks) [0..<length ks]) = sort ks" by simp
  then show ?thesis
    using assignment_loop_distinct [of "zip (sort ks) [0..<length ks]" "[]"]
      assignment_loop_duplicate [of "zip (sort ks) [0..<length ks]" "[]"]
    by (simp add: canonical_node_id_assignments_from_node_keys_def)
qed

lemma assignment_lookup:
  assumes "distinct ks" "length ks < 2 ^ 32"
    "canonical_node_id_assignments_from_node_keys ks = Inr a"
  shows "(k, x) \<in> set a \<longleftrightarrow> x \<noteq> 0 \<and> get (sort ks) (unat x - 1) = Some k"
proof -
  have z: "set (zip (sort ks) [0..<length ks]) = (\<lambda>i. (sort ks ! i, i)) ` {..<length ks}"
    by (fastforce simp: set_zip)
  have "set a = (\<lambda>i. (sort ks ! i, as_u32 (i + 1))) ` {..<length ks}"
    using assms(1,3) unfolding canonical_assignments by (auto simp: z image_image)
  then have "(k, x) \<in> set a \<longleftrightarrow> (\<exists>i < length ks. sort ks ! i = k \<and> as_u32 (i + 1) = x)"
    by auto
  also have "\<dots> \<longleftrightarrow> (\<exists>i < length ks. sort ks ! i = k \<and> unat x = i + 1)"
  proof (intro ex_cong1 conj_cong refl)
    fix i assume "i < length ks"
    with assms(2) show "as_u32 (i + 1) = x \<longleftrightarrow> unat x = i + 1" by (intro as_u32_Suc) simp
  qed
  also have "\<dots> \<longleftrightarrow> unat x \<noteq> 0 \<and> get (sort ks) (unat x - 1) = Some k"
    by (cases "unat x") (auto simp: get_def split: if_splits)
  finally show ?thesis by (simp add: unat_eq_0)
qed

section \<open>Scoped participants\<close>

datatype committee_scope = Current | Next

record participant_ref =
  pr_scope :: committee_scope
  pr_node_id :: u32

definition participant_current :: "u32 \<Rightarrow> participant_ref" where
  "participant_current node_id = \<lparr>pr_scope = Current, pr_node_id = node_id\<rparr>"

definition participant_next :: "u32 \<Rightarrow> participant_ref" where
  "participant_next node_id = \<lparr>pr_scope = Next, pr_node_id = node_id\<rparr>"

definition participant_serialize :: "participant_ref \<Rightarrow> string" where
  "participant_serialize p =
    (case pr_scope p of Current \<Rightarrow> ''current'' | Next \<Rightarrow> ''next'') @ CHR '':'' # decimal (unat (pr_node_id p))"

definition participant_deserialize :: "string \<Rightarrow> string + participant_ref" where
  "participant_deserialize encoded =
    rbind (ok_or ''participant must be <scope>:<node_id>'' (split_once CHR '':'' encoded)) (\<lambda>(scope, node_id).
    rbind (if scope = ''current'' then Inr Current
           else if scope = ''next'' then Inr Next
           else Inl ''unknown participant scope {scope}'') (\<lambda>scope.
    rbind (ok_or ''participant node ID is not a u32'' (parse_u32 node_id)) (\<lambda>node_id.
    if node_id = 0 then Inl ''participant node ID must be greater than zero''
    else Inr \<lparr>pr_scope = scope, pr_node_id = node_id\<rparr>)))"

section \<open>Committee configurations\<close>

definition MAX_DKG_COMMITTEE_SIZE :: nat where
  "MAX_DKG_COMMITTEE_SIZE = 50"

record committee_config =
  cc_node_keys :: "string list"
  cc_peer_routes :: "string list"
  cc_node_id_assignments :: "(string \<times> u32) list"
  cc_threshold :: u32

definition committee_participant ::
  "committee_config \<Rightarrow> committee_scope \<Rightarrow> string \<Rightarrow> participant_ref option" where
  "committee_participant c scope node_key =
    map_option (\<lambda>node_id. \<lparr>pr_scope = scope, pr_node_id = node_id\<rparr>) (map_of (cc_node_id_assignments c) node_key)"

definition committee_validate :: "committee_config \<Rightarrow> string + unit" where
  "committee_validate c =
    (if cc_node_keys c = [] then Inl ''{label} committee is empty''
     else if length (cc_node_keys c) > MAX_DKG_COMMITTEE_SIZE
     then Inl ''{label} committee has {} members, maximum is {MAX_DKG_COMMITTEE_SIZE}''
     else if length (cc_node_keys c) \<noteq> length (cc_peer_routes c) \<or>
       length (cc_node_keys c) \<noteq> length (cc_node_id_assignments c)
     then Inl ''{label} committee keys, routes, and assignments have different lengths''
     else if cc_threshold c = 0 \<or> unat (cc_threshold c) > length (cc_node_keys c)
     then Inl ''{label} committee threshold is outside 1..=size''
     else if set (map (\<lambda>i. as_u32 (i + 1)) [0..<length (cc_node_keys c)]) \<noteq> set (map snd (cc_node_id_assignments c)) \<or>
       list_ex (\<lambda>key. map_of (cc_node_id_assignments c) key = None) (cc_node_keys c)
     then Inl ''{label} committee node-ID assignments are not canonical and complete''
     else Inr ())"

record ceremony_config =
  cfg_current :: committee_config
  cfg_next :: "committee_config option"

definition ceremony_validate :: "ceremony_config \<Rightarrow> string + unit" where
  "ceremony_validate cfg =
    rbind (committee_validate (cfg_current cfg)) (\<lambda>_.
    case cfg_next cfg of Some c \<Rightarrow> committee_validate c | None \<Rightarrow> Inr ())"

text \<open>\<open>union_routes\<close>: the current committee's routes, then those of keys that are only in the next.\<close>

definition union_routes :: "ceremony_config \<Rightarrow> (string \<times> string) list" where
  "union_routes cfg =
    (let union = fold (\<lambda>(key, route). AList.update key route)
                   (zip (cc_node_keys (cfg_current cfg)) (cc_peer_routes (cfg_current cfg))) []
     in case cfg_next cfg of
          None \<Rightarrow> union
        | Some c \<Rightarrow> fold (\<lambda>(key, route) union. if map_of union key = None then AList.update key route union else union)
            (zip (cc_node_keys c) (cc_peer_routes c)) union)"

definition ceremony_committee :: "ceremony_config \<Rightarrow> committee_scope \<Rightarrow> committee_config option" where
  "ceremony_committee cfg scope = (case scope of Current \<Rightarrow> Some (cfg_current cfg) | Next \<Rightarrow> cfg_next cfg)"

definition ceremony_node_key :: "ceremony_config \<Rightarrow> participant_ref \<Rightarrow> string option" where
  "ceremony_node_key cfg p =
    Option.bind (ceremony_committee cfg (pr_scope p)) (\<lambda>c.
      map_option fst (find (\<lambda>(_, node_id). node_id = pr_node_id p) (cc_node_id_assignments c)))"

definition ceremony_route :: "ceremony_config \<Rightarrow> participant_ref \<Rightarrow> string option" where
  "ceremony_route cfg p =
    Option.bind (ceremony_committee cfg (pr_scope p)) (\<lambda>c.
    Option.bind (ceremony_node_key cfg p) (\<lambda>key.
    Option.bind (position (\<lambda>candidate. candidate = key) (cc_node_keys c)) (get (cc_peer_routes c))))"

definition canonical_pair_opener ::
  "ceremony_config \<Rightarrow> participant_ref \<Rightarrow> participant_ref \<Rightarrow> participant_ref option" where
  "canonical_pair_opener cfg first second =
    Option.bind (ceremony_node_key cfg first) (\<lambda>first_key.
    Option.bind (ceremony_node_key cfg second) (\<lambda>second_key.
      if first_key < second_key then Some first
      else if second_key < first_key then Some second
      else None))"

section \<open>Members agree on ids\<close>

text \<open>
  C35: the node id a member derives from the peer ids of its committee and the identity other members
  derive from that id are inverse to each other.  For any list of fewer than \<open>2^32\<close> peer ids, with
  or without addresses, in any order and with repetitions, the id of a peer is \<open>x\<close> exactly when the
  identity key at \<open>x\<close> is the node part of that peer.
\<close>

theorem session_node_id_round_trip:
  assumes "length ids < 2 ^ 32"
  shows "determine_session_node_id p ids = Some x \<longleftrightarrow> node_key_for_id x ids = Some (extract_node_part p)"
proof -
  let ?parts = "sorted_node_parts ids"
  have len: "length ?parts < 2 ^ 32" using length_sorted_node_parts [of ids] assms by simp
  have "determine_session_node_id p ids = Some x \<longleftrightarrow>
      (\<exists>i. get ?parts i = Some (extract_node_part p) \<and> as_u32 (i + 1) = x)"
    by (auto simp: determine_session_node_id_def position_get [OF distinct_sorted_node_parts])
  also have "\<dots> \<longleftrightarrow> (\<exists>i. get ?parts i = Some (extract_node_part p) \<and> unat x = i + 1)"
  proof (intro ex_cong1 conj_cong refl)
    fix i assume "get ?parts i = Some (extract_node_part p)"
    then have "Suc i < 2 ^ 32" using len by (simp add: get_def split: if_splits)
    then show "as_u32 (i + 1) = x \<longleftrightarrow> unat x = i + 1" by (rule as_u32_Suc)
  qed
  also have "\<dots> \<longleftrightarrow> unat x \<noteq> 0 \<and> get ?parts (unat x - 1) = Some (extract_node_part p)"
    by (cases "unat x") auto
  finally show ?thesis by (auto simp: node_key_for_id_def unat_eq_0)
qed

theorem session_node_id_round_trip_witness:
  "determine_session_node_id ''bb@h:1'' [''cc'', ''bb@x:2'', ''aa'', ''bb''] = Some 2 \<and>
    node_key_for_id 2 [''cc'', ''bb@x:2'', ''aa'', ''bb''] = Some ''bb''"
proof -
  have "length [''cc'', ''bb@x:2'', ''aa'', ''bb''] < 2 ^ 32" by simp
  moreover have "node_key_for_id 2 [''cc'', ''bb@x:2'', ''aa'', ''bb''] = Some ''bb''" by code_simp
  moreover have "extract_node_part ''bb@h:1'' = ''bb''" by code_simp
  ultimately show ?thesis
    using session_node_id_round_trip [of "[''cc'', ''bb@x:2'', ''aa'', ''bb'']" "''bb@h:1''" 2] by simp
qed

lemma find_snd_unique:
  assumes "distinct (map snd a)"
  shows "map_option fst (find (\<lambda>(_, y). y = x) a) = Some k \<longleftrightarrow> (k, x) \<in> set a"
  using assms by (induction a) (auto simp: rev_image_eqI split: if_splits)

lemma canonical_ids_distinct:
  assumes "distinct ks" "length ks < 2 ^ 32"
    "canonical_node_id_assignments_from_node_keys ks = Inr a"
  shows "map fst a = sort ks" "map snd a = map (\<lambda>i. as_u32 (i + 1)) [0..<length ks]" "distinct (map snd a)"
proof -
  have a: "a = map (\<lambda>(k, i). (k, as_u32 (i + 1))) (zip (sort ks) [0..<length ks])"
    using assms(1,3) by (simp add: canonical_assignments)
  show "map fst a = sort ks"
    unfolding a by (rule nth_equalityI) simp_all
  show ids: "map snd a = map (\<lambda>i. as_u32 (i + 1)) [0..<length ks]"
    unfolding a by (rule nth_equalityI) simp_all
  have "inj_on (\<lambda>i. as_u32 (i + 1)) {0..<length ks}"
  proof (rule inj_onI)
    fix i j assume "i \<in> {0..<length ks}" "j \<in> {0..<length ks}" "as_u32 (i + 1) = as_u32 (j + 1)"
    then show "i = j"
      using assms(2) as_u32_small [of "i + 1"] as_u32_small [of "j + 1"] by simp
  qed
  then show "distinct (map snd a)" by (simp add: ids distinct_map)
qed

text \<open>
  C36: canonical node ids do not depend on the order in which a member lists the committee, and
  identify its members.  Two members that hold the same distinct node keys in any two orders compute
  the same assignment; it numbers the keys \<open>1\<close> to \<open>n\<close>; and the key looked up for an id is the one
  key that has this id.
\<close>

theorem canonical_ids_agree:
  assumes "distinct ks" "mset ks' = mset ks" "length ks < 2 ^ 32"
  shows "\<exists>a. canonical_node_id_assignments_from_node_keys ks = Inr a \<and>
    canonical_node_id_assignments_from_node_keys ks' = Inr a \<and>
    fst ` set a = set ks \<and> unat ` snd ` set a = {1..length ks} \<and>
    (\<forall>k x. map_of a k = Some x \<longleftrightarrow> node_key_for_canonical_node_id x ks' = Some k)"
proof -
  have same: "sort ks' = sort ks" by (rule properties_for_sort) (simp_all add: assms(2))
  have len: "length ks' = length ks" using assms(2) by (metis size_mset)
  have dist': "distinct ks'" using same assms(1) by (metis distinct_sort)
  obtain a where a: "canonical_node_id_assignments_from_node_keys ks = Inr a"
    using assms(1) by (simp add: canonical_assignments)
  then have a': "canonical_node_id_assignments_from_node_keys ks' = Inr a"
    using assms(1) dist' by (simp add: canonical_assignments same len)
  note d = canonical_ids_distinct [OF assms(1,3) a]
  have keys: "fst ` set a = set ks"
    using arg_cong [OF d(1), of set] by simp
  have "unat ` snd ` set a = unat ` set (map snd a)" by simp
  also have "\<dots> = (\<lambda>i. unat (as_u32 (i + 1))) ` {0..<length ks}" unfolding d(2) by (simp add: image_image)
  also have "\<dots> = (\<lambda>i. i + 1) ` {0..<length ks}"
    using assms(3) by (intro image_cong refl as_u32_small) simp
  also have "\<dots> = {1..length ks}" by (simp add: image_Suc_atLeastLessThan atLeastLessThanSuc_atLeastAtMost)
  finally have ids: "unat ` snd ` set a = {1..length ks}" .
  have "map_of a k = Some x \<longleftrightarrow> node_key_for_canonical_node_id x ks' = Some k" for k x
  proof -
    have "map_of a k = Some x \<longleftrightarrow> (k, x) \<in> set a" using d(1) assms(1) by simp
    moreover have "(k, x) \<in> set a \<Longrightarrow> x \<noteq> 0"
      using assignment_lookup [OF assms(1,3) a] by blast
    ultimately show ?thesis
      using find_snd_unique [OF d(3)] by (auto simp: node_key_for_canonical_node_id_def a')
  qed
  with a a' keys ids show ?thesis by blast
qed

theorem canonical_ids_agree_witness:
  "\<exists>a. canonical_node_id_assignments_from_node_keys [''kb'', ''ka'', ''kc''] = Inr a \<and>
    canonical_node_id_assignments_from_node_keys [''ka'', ''kc'', ''kb''] = Inr a \<and>
    fst ` set a = set [''kb'', ''ka'', ''kc''] \<and> unat ` snd ` set a = {1..length [''kb'', ''ka'', ''kc'']} \<and>
    (\<forall>k x. map_of a k = Some x \<longleftrightarrow> node_key_for_canonical_node_id x [''ka'', ''kc'', ''kb''] = Some k)"
proof (rule canonical_ids_agree)
  show "distinct [''kb'', ''ka'', ''kc'']" by simp
  show "mset [''ka'', ''kc'', ''kb''] = mset [''kb'', ''ka'', ''kc'']" by simp
qed simp

text \<open>The two lists of keys need not even be compared: their assignments decide.\<close>

lemma canonical_ids_duplicate:
  "\<not> distinct ks \<Longrightarrow> canonical_node_id_assignments_from_node_keys ks = Inl ''duplicate peer_node_key: {node_key}''"
  by (simp add: canonical_assignments)

lemma peer_node_keys_match_iff: "peer_node_keys_match a b \<longleftrightarrow> mset a = mset b"
  unfolding peer_node_keys_match_def
  by (metis mset_eq_length mset_sort properties_for_sort sorted_sort)

lemma canonical_leader_least:
  "canonical_leader ks = Some l \<longleftrightarrow> l \<in> set ks \<and> (\<forall>k \<in> set ks. l \<le> k)"
proof (cases ks)
  case (Cons k rest)
  have "fold min rest k = Min (set (k # rest))"
    by (subst Min.set_eq_fold) (simp add: min.commute cong: fold_cong)
  then have "canonical_leader ks = Some (Min (set ks))" by (simp add: canonical_leader_def Cons)
  moreover have "l = Min (set ks) \<longleftrightarrow> l \<in> set ks \<and> (\<forall>k \<in> set ks. l \<le> k)"
    using Cons by (metis List.finite_set Min_eqI Min_in Min_le empty_iff list.set_intros(1))
  ultimately show ?thesis by auto
qed (simp add: canonical_leader_def)

text \<open>The wire form of a participant reads back; the one value it refuses is the node id zero.\<close>

lemma participant_round_trip:
  "participant_deserialize (participant_serialize p) =
    (if pr_node_id p = 0 then Inl ''participant node ID must be greater than zero'' else Inr p)"
proof -
  have "split_once CHR '':'' (participant_serialize p) =
      Some (case pr_scope p of Current \<Rightarrow> ''current'' | Next \<Rightarrow> ''next'', decimal (unat (pr_node_id p)))"
    unfolding participant_serialize_def by (rule split_once_append) (simp split: committee_scope.splits)
  then show ?thesis by (simp add: participant_deserialize_def split: committee_scope.splits)
qed

lemma committee_validate_ids:
  assumes "committee_validate c = Inr ()"
  shows "unat ` snd ` set (cc_node_id_assignments c) = {1..length (cc_node_keys c)}"
    "distinct (map snd (cc_node_id_assignments c))"
    "set (cc_node_keys c) \<subseteq> fst ` set (cc_node_id_assignments c)"
    "length (cc_peer_routes c) = length (cc_node_keys c)"
proof -
  let ?n = "length (cc_node_keys c)" and ?a = "cc_node_id_assignments c"
  have v: "?n \<le> 50" "?n = length (cc_peer_routes c)" "?n = length ?a"
    "(\<lambda>i. as_u32 (i + 1)) ` {0..<?n} = snd ` set ?a" "\<forall>k \<in> set (cc_node_keys c). map_of ?a k \<noteq> None"
    using assms by (auto simp: committee_validate_def MAX_DKG_COMMITTEE_SIZE_def list_ex_iff split: if_splits)
  have "unat ` snd ` set ?a = (\<lambda>i. unat (as_u32 (i + 1))) ` {0..<?n}"
    unfolding v(4) [symmetric] by (simp add: image_image)
  also have "\<dots> = (\<lambda>i. i + 1) ` {0..<?n}" using v(1) by (intro image_cong refl as_u32_small) simp
  also have "\<dots> = {1..?n}" by (simp add: image_Suc_atLeastLessThan atLeastLessThanSuc_atLeastAtMost)
  finally show ids: "unat ` snd ` set ?a = {1..?n}" .
  have "card (set (map snd ?a)) \<ge> card (unat ` set (map snd ?a))" by (simp add: card_image_le)
  then have "card (set (map snd ?a)) = length (map snd ?a)"
    using ids v(3) card_length [of "map snd ?a"] by simp
  then show "distinct (map snd ?a)" by (rule card_distinct)
  show "set (cc_node_keys c) \<subseteq> fst ` set ?a" using v(5) by (auto simp: map_of_eq_None_iff)
  show "length (cc_peer_routes c) = ?n" using v(2) by simp
qed

text \<open>
  C37: in a ceremony whose configuration passes validation, scoped participants and node keys
  correspond.  For each committee of the ceremony, a participant has a node key exactly when its id
  is between one and the size of the committee; the key of a participant is \<open>k\<close> exactly when the
  participant of \<open>k\<close> is that participant, so no two participants of a committee share a key; and two
  participants agree on which of them opens their stream, unless they are the same node.
\<close>

theorem validated_committee_bijection:
  assumes valid: "ceremony_validate cfg = Inr ()"
    and committee: "ceremony_committee cfg (pr_scope p) = Some c"
    and map: "distinct (map fst (cc_node_id_assignments c))"
  shows "(ceremony_node_key cfg p \<noteq> None \<longleftrightarrow> 1 \<le> unat (pr_node_id p) \<and> unat (pr_node_id p) \<le> length (cc_node_keys c)) \<and>
    (ceremony_node_key cfg p = Some k \<longleftrightarrow> committee_participant c (pr_scope p) k = Some p) \<and>
    canonical_pair_opener cfg p q = canonical_pair_opener cfg q p"
proof -
  have c: "committee_validate c = Inr ()"
    using valid committee by (auto simp: ceremony_validate_def ceremony_committee_def result_simps
        split: committee_scope.splits option.splits)
  let ?a = "cc_node_id_assignments c"
  have key: "ceremony_node_key cfg p = Some k \<longleftrightarrow> (k, pr_node_id p) \<in> set ?a" for k
    using find_snd_unique [OF committee_validate_ids(2) [OF c]] by (simp add: ceremony_node_key_def committee)
  have "ceremony_node_key cfg p \<noteq> None \<longleftrightarrow> pr_node_id p \<in> snd ` set ?a"
    using key by (force simp: image_iff)
  also have "\<dots> \<longleftrightarrow> unat (pr_node_id p) \<in> unat ` snd ` set ?a"
    by (subst inj_image_mem_iff) (simp_all add: inj_def word_unat_eq_iff)
  also have "\<dots> \<longleftrightarrow> 1 \<le> unat (pr_node_id p) \<and> unat (pr_node_id p) \<le> length (cc_node_keys c)"
    unfolding committee_validate_ids(1) [OF c] by simp
  finally have dom: "ceremony_node_key cfg p \<noteq> None \<longleftrightarrow>
      1 \<le> unat (pr_node_id p) \<and> unat (pr_node_id p) \<le> length (cc_node_keys c)" .
  have "committee_participant c (pr_scope p) k = Some p \<longleftrightarrow> (k, pr_node_id p) \<in> set ?a"
    using map by (cases p) (auto simp: committee_participant_def)
  moreover have "canonical_pair_opener cfg p q = canonical_pair_opener cfg q p"
    by (cases "ceremony_node_key cfg p"; cases "ceremony_node_key cfg q") (auto simp: canonical_pair_opener_def)
  ultimately show ?thesis using dom key by blast
qed

definition ex_committee :: committee_config where
  "ex_committee = \<lparr>cc_node_keys = [''ka'', ''kb'', ''kc''], cc_peer_routes = [''ra'', ''rb'', ''rc''],
    cc_node_id_assignments = [(''kb'', 2), (''kc'', 3), (''ka'', 1)], cc_threshold = 2\<rparr>"

definition ex_ceremony :: ceremony_config where
  "ex_ceremony = \<lparr>cfg_current = ex_committee, cfg_next = None\<rparr>"

theorem validated_committee_bijection_witness:
  "ceremony_node_key ex_ceremony (participant_current 2) = Some ''kb''"
proof -
  have "ceremony_validate ex_ceremony = Inr ()" by code_simp
  moreover have "ceremony_committee ex_ceremony (pr_scope (participant_current 2)) = Some ex_committee"
    by (simp add: participant_current_def ceremony_committee_def ex_ceremony_def)
  moreover have "distinct (map fst (cc_node_id_assignments ex_committee))" by code_simp
  moreover have "committee_participant ex_committee (pr_scope (participant_current 2)) ''kb'' = Some (participant_current 2)"
    by code_simp
  ultimately show ?thesis
    using validated_committee_bijection [of ex_ceremony "participant_current 2" ex_committee "''kb''"] by blast
qed

text \<open>
  What validation does not exclude: a committee that lists one key twice.  Its assignment then names
  a key that is not listed, and the participant with that key's id has no route.
\<close>

theorem committee_validate_repeated_key:
  "\<exists>c. committee_validate c = Inr () \<and> \<not> distinct (cc_node_keys c) \<and>
    (\<exists>p k. ceremony_node_key \<lparr>cfg_current = c, cfg_next = None\<rparr> p = Some k \<and> k \<notin> set (cc_node_keys c) \<and>
      ceremony_route \<lparr>cfg_current = c, cfg_next = None\<rparr> p = None)"
proof -
  let ?c = "\<lparr>cc_node_keys = [''ka'', ''ka''], cc_peer_routes = [''ra'', ''ra''],
    cc_node_id_assignments = [(''ka'', 1), (''kx'', 2)], cc_threshold = 1\<rparr>"
  have "committee_validate ?c = Inr () \<and> \<not> distinct (cc_node_keys ?c) \<and>
    ceremony_node_key \<lparr>cfg_current = ?c, cfg_next = None\<rparr> (participant_current 2) = Some ''kx'' \<and>
    ''kx'' \<notin> set (cc_node_keys ?c) \<and>
    ceremony_route \<lparr>cfg_current = ?c, cfg_next = None\<rparr> (participant_current 2) = None"
    by code_simp
  then show ?thesis by blast
qed

end
