(* ===== verification/Session_Ids.thy ===== *)
theory Session_Ids
  imports Committee Shares Reference_Field
begin

text \<open>
  Deterministic identities of ceremonies (\<open>dkg/v0/helpers/session_ids.rs\<close>), the hash a dealer
  publishes before it reveals its commitment and the wire form of commitments
  (\<open>dkg/v0/helpers/commitment.rs\<close>), and the digests of committees (\<open>dkg/v0/transport/digest.rs\<close>).
  A hasher is the bytes it has absorbed.
\<close>

section \<open>Labelled hashing\<close>

definition hash_labeled_bytes :: "bytes \<Rightarrow> bytes \<Rightarrow> bytes" where
  "hash_labeled_bytes label b = le_u32 (as_u32 (length label)) @ label @ le_u32 (as_u32 (length b)) @ b"

definition hash_labeled_str :: "bytes \<Rightarrow> string \<Rightarrow> bytes" where
  "hash_labeled_str label s = hash_labeled_bytes label (as_bytes s)"

definition hash_sorted_strings :: "bytes \<Rightarrow> string list \<Rightarrow> bytes" where
  "hash_sorted_strings label values =
    (let sorted_values = sort values in
     le_u32 (as_u32 (length label)) @ label @ le_u32 (as_u32 (length sorted_values)) @
     concat (map (hash_labeled_str (as_bytes ''value'')) sorted_values))"

section \<open>Session ids\<close>

definition PSS_SESSION_ID_DOMAIN :: bytes where
  "PSS_SESSION_ID_DOMAIN = as_bytes ''orbis-pss-session-v1''"

text \<open>The first sixteen bytes of the digest, little-endian; the slice of a 32-byte array never fails.\<close>

definition finish_session_id :: "('f, 'g) backend \<Rightarrow> bytes \<Rightarrow> u128" where
  "finish_session_id B hasher = u128_of_le (take 16 (sha256 B hasher))"

definition refresh_preimage :: "string \<Rightarrow> string list \<Rightarrow> u32 \<Rightarrow> string \<Rightarrow> bytes" where
  "refresh_preimage ring_pk_hex peer_node_keys threshold public_polynomial_hex =
    PSS_SESSION_ID_DOMAIN @ hash_labeled_str (as_bytes ''kind'') ''refresh'' @
    hash_labeled_str (as_bytes ''ring_pk'') ring_pk_hex @
    hash_sorted_strings (as_bytes ''peer_node_keys'') peer_node_keys @
    hash_labeled_bytes (as_bytes ''threshold'') (le_u32 threshold) @
    hash_labeled_str (as_bytes ''public_polynomial'') public_polynomial_hex"

definition derive_refresh_session_id ::
  "('f, 'g) backend \<Rightarrow> string \<Rightarrow> string list \<Rightarrow> u32 \<Rightarrow> string \<Rightarrow> u128" where
  "derive_refresh_session_id B ring_pk_hex peer_node_keys threshold public_polynomial_hex =
    finish_session_id B (refresh_preimage ring_pk_hex peer_node_keys threshold public_polynomial_hex)"

definition fresh_preimage :: "string \<Rightarrow> bytes" where
  "fresh_preimage ring_id =
    PSS_SESSION_ID_DOMAIN @ hash_labeled_str (as_bytes ''kind'') ''fresh'' @
    hash_labeled_str (as_bytes ''ring_id'') ring_id"

definition derive_fresh_dkg_session_id :: "('f, 'g) backend \<Rightarrow> string \<Rightarrow> u128" where
  "derive_fresh_dkg_session_id B ring_id = finish_session_id B (fresh_preimage ring_id)"

definition fresh_pet_preimage :: "string \<Rightarrow> bytes" where
  "fresh_pet_preimage ring_id =
    PSS_SESSION_ID_DOMAIN @ hash_labeled_str (as_bytes ''kind'') ''fresh-pet'' @
    hash_labeled_str (as_bytes ''ring_id'') ring_id"

definition derive_fresh_pet_dkg_session_id :: "('f, 'g) backend \<Rightarrow> string \<Rightarrow> u128" where
  "derive_fresh_pet_dkg_session_id B ring_id = finish_session_id B (fresh_pet_preimage ring_id)"

definition refresh_pet_preimage :: "string \<Rightarrow> string list \<Rightarrow> u32 \<Rightarrow> string \<Rightarrow> bytes" where
  "refresh_pet_preimage ring_id peer_node_keys threshold public_polynomial_hex =
    PSS_SESSION_ID_DOMAIN @ hash_labeled_str (as_bytes ''kind'') ''refresh-pet'' @
    hash_labeled_str (as_bytes ''ring_id'') ring_id @
    hash_sorted_strings (as_bytes ''peer_node_keys'') peer_node_keys @
    hash_labeled_bytes (as_bytes ''threshold'') (le_u32 threshold) @
    hash_labeled_str (as_bytes ''public_polynomial'') public_polynomial_hex"

definition derive_refresh_pet_session_id ::
  "('f, 'g) backend \<Rightarrow> string \<Rightarrow> string list \<Rightarrow> u32 \<Rightarrow> string \<Rightarrow> u128" where
  "derive_refresh_pet_session_id B ring_id peer_node_keys threshold public_polynomial_hex =
    finish_session_id B (refresh_pet_preimage ring_id peer_node_keys threshold public_polynomial_hex)"

definition reshare_preimage :: "string \<Rightarrow> string \<Rightarrow> string list \<Rightarrow> string list \<Rightarrow> u32 \<Rightarrow> bytes" where
  "reshare_preimage ring_pk_hex bulletin_post_id old_peer_node_keys new_peer_node_keys new_threshold =
    PSS_SESSION_ID_DOMAIN @ hash_labeled_str (as_bytes ''kind'') ''reshare'' @
    hash_labeled_str (as_bytes ''ring_pk'') ring_pk_hex @
    hash_labeled_str (as_bytes ''bulletin_post_id'') bulletin_post_id @
    hash_sorted_strings (as_bytes ''old_peer_node_keys'') old_peer_node_keys @
    hash_sorted_strings (as_bytes ''new_peer_node_keys'') new_peer_node_keys @
    hash_labeled_bytes (as_bytes ''new_threshold'') (le_u32 new_threshold)"

definition derive_reshare_session_id ::
  "('f, 'g) backend \<Rightarrow> string \<Rightarrow> string \<Rightarrow> string list \<Rightarrow> string list \<Rightarrow> u32 \<Rightarrow> u128" where
  "derive_reshare_session_id B ring_pk_hex bulletin_post_id old_peer_node_keys new_peer_node_keys new_threshold =
    finish_session_id B
      (reshare_preimage ring_pk_hex bulletin_post_id old_peer_node_keys new_peer_node_keys new_threshold)"

definition reshare_pet_preimage :: "string \<Rightarrow> string list \<Rightarrow> string list \<Rightarrow> u32 \<Rightarrow> bytes" where
  "reshare_pet_preimage ring_id old_peer_node_keys new_peer_node_keys new_threshold =
    PSS_SESSION_ID_DOMAIN @ hash_labeled_str (as_bytes ''kind'') ''reshare-pet'' @
    hash_labeled_str (as_bytes ''ring_id'') ring_id @
    hash_sorted_strings (as_bytes ''old_peer_node_keys'') old_peer_node_keys @
    hash_sorted_strings (as_bytes ''new_peer_node_keys'') new_peer_node_keys @
    hash_labeled_bytes (as_bytes ''new_threshold'') (le_u32 new_threshold)"

definition derive_reshare_pet_session_id ::
  "('f, 'g) backend \<Rightarrow> string \<Rightarrow> string list \<Rightarrow> string list \<Rightarrow> u32 \<Rightarrow> u128" where
  "derive_reshare_pet_session_id B ring_id old_peer_node_keys new_peer_node_keys new_threshold =
    finish_session_id B (reshare_pet_preimage ring_id old_peer_node_keys new_peer_node_keys new_threshold)"

section \<open>Commitments on the wire\<close>

definition DKG_COMMITMENT_HASH_DOMAIN :: bytes where
  "DKG_COMMITMENT_HASH_DOMAIN = as_bytes ''orbis-dkg-commitment-hash-v1''"

definition fresh_commitment_preimage :: "u128 \<Rightarrow> u32 \<Rightarrow> bytes \<Rightarrow> bytes" where
  "fresh_commitment_preimage session_id from_node_id commitment_bytes =
    DKG_COMMITMENT_HASH_DOMAIN @ le_bytes 16 (unat session_id) @ le_u32 from_node_id @ commitment_bytes"

definition fresh_commitment_hash :: "('f, 'g) backend \<Rightarrow> u128 \<Rightarrow> u32 \<Rightarrow> bytes \<Rightarrow> bytes" where
  "fresh_commitment_hash B session_id from_node_id commitment_bytes =
    sha256 B (fresh_commitment_preimage session_id from_node_id commitment_bytes)"

definition GROUP_POINT_SIZE :: nat where
  "GROUP_POINT_SIZE = 32"

definition serialize_commitment_coefficients :: "('f, 'g) backend \<Rightarrow> 'g list \<Rightarrow> bytes" where
  "serialize_commitment_coefficients B coeffs = concat (map (point_to_bytes B) coeffs)"

text \<open>\<open>as_chunks\<close> of a slice whose length is a multiple of the chunk size.\<close>

fun as_chunks :: "nat \<Rightarrow> nat \<Rightarrow> bytes \<Rightarrow> bytes list" where
  "as_chunks n 0 b = []"
| "as_chunks n (Suc k) b = take n b # as_chunks n k (drop n b)"

definition deserialize_wire_commitment :: "('f, 'g) backend \<Rightarrow> bytes \<Rightarrow> string + 'g polynomial_commitment" where
  "deserialize_wire_commitment B b =
    (if b = [] then Inl ''commitment cannot be empty''
     else if length b mod GROUP_POINT_SIZE \<noteq> 0 then Inl ''commitment length {} is not a multiple of {}''
     else
       rbind (traverse (\<lambda>chunk. map_err ''coefficient {index}: {error}'' (element_from_bytes B chunk))
         (as_chunks GROUP_POINT_SIZE (length b div GROUP_POINT_SIZE) b)) (\<lambda>cs.
       Inr \<lparr>coefficients = cs\<rparr>))"

section \<open>Committee digests\<close>

definition committee_digest_preimage :: "string list \<Rightarrow> bytes" where
  "committee_digest_preimage peer_node_keys =
    (let keys = sort peer_node_keys in
     as_bytes ''orbis-dkg-committee-v1'' @ be_bytes 8 (length keys) @
     concat (map (\<lambda>key. be_bytes 8 (length key) @ as_bytes key) keys))"

definition committee_digest :: "('f, 'g) backend \<Rightarrow> string list \<Rightarrow> bytes" where
  "committee_digest B peer_node_keys = sha256 B (committee_digest_preimage peer_node_keys)"

definition ceremony_committee_preimage :: "('f, 'g) backend \<Rightarrow> string list \<Rightarrow> string list option \<Rightarrow> bytes" where
  "ceremony_committee_preimage B current new =
    as_bytes ''orbis-dkg-ceremony-committees-v1'' @ committee_digest B current @
    (case new of Some keys \<Rightarrow> [1] @ committee_digest B keys | None \<Rightarrow> [0])"

definition ceremony_committee_digest :: "('f, 'g) backend \<Rightarrow> string list \<Rightarrow> string list option \<Rightarrow> bytes" where
  "ceremony_committee_digest B current new = sha256 B (ceremony_committee_preimage B current new)"

section \<open>Injectivity of the encodings\<close>

lemma le_u32_inject [simp]: "le_u32 x = le_u32 y \<longleftrightarrow> x = y"
  using le_bytes_inj [of 4 "unat x" "unat y"] unat_u32_bound [of x] unat_u32_bound [of y]
  by (auto simp: le_u32_def word_unat_eq_iff)

lemma le_prefix_inject:
  assumes "le_u32 (as_u32 (length a)) @ a @ r = le_u32 (as_u32 (length b)) @ b @ r'"
    and "length a < 2 ^ 32" "length b < 2 ^ 32"
  shows "a = b \<and> r = r'"
proof -
  have "as_u32 (length a) = as_u32 (length b)" and rest: "a @ r = b @ r'"
    using assms(1) by simp_all
  then have "length a = length b"
    using as_u32_small [OF assms(2)] as_u32_small [OF assms(3)] by metis
  with rest show ?thesis by simp
qed

lemma hash_labeled_bytes_inject:
  assumes "hash_labeled_bytes l a @ r = hash_labeled_bytes l' b @ r'"
    and "length l < 2 ^ 32" "length l' < 2 ^ 32" "length a < 2 ^ 32" "length b < 2 ^ 32"
  shows "l = l' \<and> a = b \<and> r = r'"
proof -
  have "le_u32 (as_u32 (length l)) @ l @ (le_u32 (as_u32 (length a)) @ a @ r) =
      le_u32 (as_u32 (length l')) @ l' @ (le_u32 (as_u32 (length b)) @ b @ r')"
    using assms(1) by (simp add: hash_labeled_bytes_def)
  from le_prefix_inject [OF this assms(2,3)] le_prefix_inject [OF _ assms(4,5), of r r'] show ?thesis by simp
qed

lemma hash_labeled_str_inject:
  assumes "hash_labeled_str (as_bytes l) s @ r = hash_labeled_str (as_bytes l') t @ r'"
    and "length l < 2 ^ 32" "length l' < 2 ^ 32" "length s < 2 ^ 32" "length t < 2 ^ 32"
  shows "l = l' \<and> s = t \<and> r = r'"
  using hash_labeled_bytes_inject [of "as_bytes l" "as_bytes s" r "as_bytes l'" "as_bytes t" r'] assms
  by (simp add: hash_labeled_str_def)

lemma hash_values_inject:
  assumes "concat (map (hash_labeled_str (as_bytes ''value'')) ss) @ r =
      concat (map (hash_labeled_str (as_bytes ''value'')) ts) @ r'"
    and "length ss = length ts" "\<forall>s \<in> set ss. length s < 2 ^ 32" "\<forall>t \<in> set ts. length t < 2 ^ 32"
  shows "ss = ts \<and> r = r'"
  using assms(2,1,3,4)
proof (induction ss ts rule: list_induct2)
  case (Cons s ss t ts)
  let ?v = "\<lambda>ss. concat (map (hash_labeled_str (as_bytes ''value'')) ss)"
  have "hash_labeled_str (as_bytes ''value'') s @ (?v ss @ r) = hash_labeled_str (as_bytes ''value'') t @ (?v ts @ r')"
    using Cons.prems(1) by simp
  from hash_labeled_str_inject [OF this] Cons show ?case by simp
qed simp

definition strings_fit :: "string list \<Rightarrow> bool" where
  "strings_fit ss \<longleftrightarrow> length ss < 2 ^ 32 \<and> (\<forall>s \<in> set ss. length s < 2 ^ 32)"

lemma hash_sorted_strings_inject:
  assumes "hash_sorted_strings (as_bytes l) ss @ r = hash_sorted_strings (as_bytes l) ts @ r'"
    and "strings_fit ss" "strings_fit ts"
  shows "sort ss = sort ts \<and> r = r'"
proof -
  have eq: "le_u32 (as_u32 (length ss)) @ concat (map (hash_labeled_str (as_bytes ''value'')) (sort ss)) @ r =
      le_u32 (as_u32 (length ts)) @ concat (map (hash_labeled_str (as_bytes ''value'')) (sort ts)) @ r'"
    using assms(1) by (simp add: hash_sorted_strings_def Let_def)
  then have "as_u32 (length ss) = as_u32 (length ts)" by simp
  then have "length ss = length ts"
    using assms(2,3) as_u32_small [of "length ss"] as_u32_small [of "length ts"] unfolding strings_fit_def by metis
  moreover have "concat (map (hash_labeled_str (as_bytes ''value'')) (sort ss)) @ r =
      concat (map (hash_labeled_str (as_bytes ''value'')) (sort ts)) @ r'"
    using eq by simp
  ultimately show ?thesis
    using hash_values_inject [of "sort ss" r "sort ts" r'] assms(2,3) by (simp add: strings_fit_def)
qed

text \<open>The inputs of the six derivations; committees are sets of keys, so their order is immaterial.\<close>

datatype ceremony =
    FreshCeremony string
  | FreshPetCeremony string
  | RefreshCeremony string "string list" u32 string
  | RefreshPetCeremony string "string list" u32 string
  | ReshareCeremony string string "string list" "string list" u32
  | ResharePetCeremony string "string list" "string list" u32

fun ceremony_session_id :: "('f, 'g) backend \<Rightarrow> ceremony \<Rightarrow> u128" where
  "ceremony_session_id B (FreshCeremony r) = derive_fresh_dkg_session_id B r"
| "ceremony_session_id B (FreshPetCeremony r) = derive_fresh_pet_dkg_session_id B r"
| "ceremony_session_id B (RefreshCeremony r ks t p) = derive_refresh_session_id B r ks t p"
| "ceremony_session_id B (RefreshPetCeremony r ks t p) = derive_refresh_pet_session_id B r ks t p"
| "ceremony_session_id B (ReshareCeremony r b old new t) = derive_reshare_session_id B r b old new t"
| "ceremony_session_id B (ResharePetCeremony r old new t) = derive_reshare_pet_session_id B r old new t"

fun ceremony_preimage :: "ceremony \<Rightarrow> bytes" where
  "ceremony_preimage (FreshCeremony r) = fresh_preimage r"
| "ceremony_preimage (FreshPetCeremony r) = fresh_pet_preimage r"
| "ceremony_preimage (RefreshCeremony r ks t p) = refresh_preimage r ks t p"
| "ceremony_preimage (RefreshPetCeremony r ks t p) = refresh_pet_preimage r ks t p"
| "ceremony_preimage (ReshareCeremony r b old new t) = reshare_preimage r b old new t"
| "ceremony_preimage (ResharePetCeremony r old new t) = reshare_pet_preimage r old new t"

fun canonical_ceremony :: "ceremony \<Rightarrow> ceremony" where
  "canonical_ceremony (FreshCeremony r) = FreshCeremony r"
| "canonical_ceremony (FreshPetCeremony r) = FreshPetCeremony r"
| "canonical_ceremony (RefreshCeremony r ks t p) = RefreshCeremony r (sort ks) t p"
| "canonical_ceremony (RefreshPetCeremony r ks t p) = RefreshPetCeremony r (sort ks) t p"
| "canonical_ceremony (ReshareCeremony r b old new t) = ReshareCeremony r b (sort old) (sort new) t"
| "canonical_ceremony (ResharePetCeremony r old new t) = ResharePetCeremony r (sort old) (sort new) t"

fun ceremony_fits :: "ceremony \<Rightarrow> bool" where
  "ceremony_fits (FreshCeremony r) = strings_fit [r]"
| "ceremony_fits (FreshPetCeremony r) = strings_fit [r]"
| "ceremony_fits (RefreshCeremony r ks t p) = (strings_fit [r, p] \<and> strings_fit ks)"
| "ceremony_fits (RefreshPetCeremony r ks t p) = (strings_fit [r, p] \<and> strings_fit ks)"
| "ceremony_fits (ReshareCeremony r b old new t) = (strings_fit [r, b] \<and> strings_fit old \<and> strings_fit new)"
| "ceremony_fits (ResharePetCeremony r old new t) = (strings_fit [r] \<and> strings_fit old \<and> strings_fit new)"

lemma ceremony_session_id_preimage:
  "ceremony_session_id B c = finish_session_id B (ceremony_preimage c)"
  by (cases c) (simp_all add: derive_fresh_dkg_session_id_def derive_fresh_pet_dkg_session_id_def
      derive_refresh_session_id_def derive_refresh_pet_session_id_def derive_reshare_session_id_def
      derive_reshare_pet_session_id_def)

lemmas preimage_defs = fresh_preimage_def fresh_pet_preimage_def refresh_preimage_def
  refresh_pet_preimage_def reshare_preimage_def reshare_pet_preimage_def

text \<open>The kind label comes first and separates the derivations; the rest is per kind.\<close>

fun ceremony_label :: "ceremony \<Rightarrow> string" where
  "ceremony_label (FreshCeremony r) = ''fresh''"
| "ceremony_label (FreshPetCeremony r) = ''fresh-pet''"
| "ceremony_label (RefreshCeremony r ks t p) = ''refresh''"
| "ceremony_label (RefreshPetCeremony r ks t p) = ''refresh-pet''"
| "ceremony_label (ReshareCeremony r b old new t) = ''reshare''"
| "ceremony_label (ResharePetCeremony r old new t) = ''reshare-pet''"

lemma ceremony_preimage_label:
  "\<exists>rest. ceremony_preimage c = PSS_SESSION_ID_DOMAIN @ hash_labeled_str (as_bytes ''kind'') (ceremony_label c) @ rest"
  by (cases c) (simp_all add: preimage_defs)

lemma ceremony_label_short: "length (ceremony_label c) < 2 ^ 32"
  by (cases c) simp_all

lemma ceremony_same_label:
  assumes "ceremony_preimage c = ceremony_preimage d"
  shows "ceremony_label c = ceremony_label d"
proof -
  obtain r where r: "ceremony_preimage c =
      PSS_SESSION_ID_DOMAIN @ hash_labeled_str (as_bytes ''kind'') (ceremony_label c) @ r"
    using ceremony_preimage_label by blast
  obtain r' where r': "ceremony_preimage d =
      PSS_SESSION_ID_DOMAIN @ hash_labeled_str (as_bytes ''kind'') (ceremony_label d) @ r'"
    using ceremony_preimage_label by blast
  have "hash_labeled_str (as_bytes ''kind'') (ceremony_label c) @ r =
      hash_labeled_str (as_bytes ''kind'') (ceremony_label d) @ r'"
    using assms unfolding r r' by simp
  from hash_labeled_str_inject [OF this _ _ ceremony_label_short ceremony_label_short] show ?thesis by simp
qed

text \<open>Equal preimages carry equal inputs, up to the order of committees.\<close>

lemma labeled_le_u32_inject:
  assumes "hash_labeled_bytes (as_bytes l) (le_u32 x) @ r = hash_labeled_bytes (as_bytes l) (le_u32 y) @ r'"
    and "length l < 2 ^ 32"
  shows "x = y \<and> r = r'"
  using hash_labeled_bytes_inject [OF assms(1)] assms(2) by simp

lemma labeled_str_inject:
  assumes "hash_labeled_str (as_bytes l) s @ r = hash_labeled_str (as_bytes l) t @ r'"
    and "length l < 2 ^ 32" "strings_fit [s]" "strings_fit [t]"
  shows "s = t \<and> r = r'"
  using hash_labeled_str_inject [OF assms(1)] assms(2-) by (simp add: strings_fit_def)

lemma last_str_inject:
  "hash_labeled_str (as_bytes l) s = hash_labeled_str (as_bytes l) t \<Longrightarrow> length l < 2 ^ 32 \<Longrightarrow>
    strings_fit [s] \<Longrightarrow> strings_fit [t] \<Longrightarrow> s = t"
  using labeled_str_inject [of l s "[]" t "[]"] by simp

lemma last_le_u32_inject:
  "hash_labeled_bytes (as_bytes l) (le_u32 x) = hash_labeled_bytes (as_bytes l) (le_u32 y) \<Longrightarrow>
    length l < 2 ^ 32 \<Longrightarrow> x = y"
  using labeled_le_u32_inject [of l x "[]" y "[]"] by simp

lemma strings_fit_split: "strings_fit [a, b] \<longleftrightarrow> strings_fit [a] \<and> strings_fit [b]"
  by (auto simp add: strings_fit_def)

lemma refresh_fields_inject:
  assumes "hash_labeled_str (as_bytes l) r @ hash_sorted_strings (as_bytes ''peer_node_keys'') ks @
      hash_labeled_bytes (as_bytes ''threshold'') (le_u32 t) @ hash_labeled_str (as_bytes ''public_polynomial'') p =
    hash_labeled_str (as_bytes l) r' @ hash_sorted_strings (as_bytes ''peer_node_keys'') ks' @
      hash_labeled_bytes (as_bytes ''threshold'') (le_u32 t') @ hash_labeled_str (as_bytes ''public_polynomial'') p'"
    and l: "length l < 2 ^ 32"
    and fit: "strings_fit [r]" "strings_fit [p]" "strings_fit ks" "strings_fit [r']" "strings_fit [p']" "strings_fit ks'"
  shows "r = r' \<and> sort ks = sort ks' \<and> t = t' \<and> p = p'"
proof -
  note 1 = labeled_str_inject [OF assms(1) l fit(1,4)]
  note 2 = hash_sorted_strings_inject [OF conjunct2 [OF 1] fit(3,6)]
  have 3: "t = t' \<and> hash_labeled_str (as_bytes ''public_polynomial'') p = hash_labeled_str (as_bytes ''public_polynomial'') p'"
    by (rule labeled_le_u32_inject [OF conjunct2 [OF 2]]) simp
  have "p = p'" by (rule last_str_inject [OF conjunct2 [OF 3] _ fit(2,5)]) simp
  with 1 2 3 show ?thesis by blast
qed

lemma reshare_fields_inject:
  assumes "hash_sorted_strings (as_bytes ''old_peer_node_keys'') old @
      hash_sorted_strings (as_bytes ''new_peer_node_keys'') new @ hash_labeled_bytes (as_bytes ''new_threshold'') (le_u32 t) =
    hash_sorted_strings (as_bytes ''old_peer_node_keys'') old' @
      hash_sorted_strings (as_bytes ''new_peer_node_keys'') new' @ hash_labeled_bytes (as_bytes ''new_threshold'') (le_u32 t')"
    and fit: "strings_fit old" "strings_fit new" "strings_fit old'" "strings_fit new'"
  shows "sort old = sort old' \<and> sort new = sort new' \<and> t = t'"
proof -
  note 1 = hash_sorted_strings_inject [OF assms(1) fit(1,3)]
  note 2 = hash_sorted_strings_inject [OF conjunct2 [OF 1] fit(2,4)]
  have "t = t'" by (rule last_le_u32_inject [OF conjunct2 [OF 2]]) simp
  with 1 2 show ?thesis by blast
qed

lemma reshare_main_inject:
  assumes "hash_labeled_str (as_bytes ''ring_pk'') r @ hash_labeled_str (as_bytes ''bulletin_post_id'') b @
      hash_sorted_strings (as_bytes ''old_peer_node_keys'') old @ hash_sorted_strings (as_bytes ''new_peer_node_keys'') new @
      hash_labeled_bytes (as_bytes ''new_threshold'') (le_u32 t) =
    hash_labeled_str (as_bytes ''ring_pk'') r' @ hash_labeled_str (as_bytes ''bulletin_post_id'') b' @
      hash_sorted_strings (as_bytes ''old_peer_node_keys'') old' @ hash_sorted_strings (as_bytes ''new_peer_node_keys'') new' @
      hash_labeled_bytes (as_bytes ''new_threshold'') (le_u32 t')"
    and fits: "strings_fit [r]" "strings_fit [b]" "strings_fit [r']" "strings_fit [b']"
      "strings_fit old" "strings_fit new" "strings_fit old'" "strings_fit new'"
  shows "r = r' \<and> b = b' \<and> sort old = sort old' \<and> sort new = sort new' \<and> t = t'"
proof -
  note 1 = labeled_str_inject [OF assms(1) _ fits(1,3), simplified]
  note 2 = labeled_str_inject [OF conjunct2 [OF 1] _ fits(2,4), simplified]
  from 1 2 reshare_fields_inject [OF conjunct2 [OF 2] fits(5-8)] show ?thesis by blast
qed

lemma reshare_pet_inject:
  assumes "hash_labeled_str (as_bytes ''ring_id'') r @
      hash_sorted_strings (as_bytes ''old_peer_node_keys'') old @ hash_sorted_strings (as_bytes ''new_peer_node_keys'') new @
      hash_labeled_bytes (as_bytes ''new_threshold'') (le_u32 t) =
    hash_labeled_str (as_bytes ''ring_id'') r' @
      hash_sorted_strings (as_bytes ''old_peer_node_keys'') old' @ hash_sorted_strings (as_bytes ''new_peer_node_keys'') new' @
      hash_labeled_bytes (as_bytes ''new_threshold'') (le_u32 t')"
    and fits: "strings_fit [r]" "strings_fit [r']"
      "strings_fit old" "strings_fit new" "strings_fit old'" "strings_fit new'"
  shows "r = r' \<and> sort old = sort old' \<and> sort new = sort new' \<and> t = t'"
proof -
  note 1 = labeled_str_inject [OF assms(1) _ fits(1,2), simplified]
  from 1 reshare_fields_inject [OF conjunct2 [OF 1] fits(3-6)] show ?thesis by blast
qed

lemma ceremony_preimage_inject:
  assumes "ceremony_preimage c = ceremony_preimage d" "ceremony_fits c" "ceremony_fits d"
  shows "canonical_ceremony c = canonical_ceremony d"
proof -
  have label: "ceremony_label c = ceremony_label d" by (rule ceremony_same_label [OF assms(1)])
  show ?thesis
  proof (cases c)
    case c: (FreshCeremony r)
    with label obtain r' where d: "d = FreshCeremony r'" by (cases d) simp_all
    show ?thesis using assms last_str_inject [of "''ring_id''" r r'] by (simp add: c d preimage_defs)
  next
    case c: (FreshPetCeremony r)
    with label obtain r' where d: "d = FreshPetCeremony r'" by (cases d) simp_all
    show ?thesis using assms last_str_inject [of "''ring_id''" r r'] by (simp add: c d preimage_defs)
  next
    case c: (RefreshCeremony r ks t p)
    with label obtain r' ks' t' p' where d: "d = RefreshCeremony r' ks' t' p'" by (cases d) simp_all
    show ?thesis
      using assms refresh_fields_inject [of "''ring_pk''" r ks t p r' ks' t' p']
      by (simp add: c d preimage_defs strings_fit_split)
  next
    case c: (RefreshPetCeremony r ks t p)
    with label obtain r' ks' t' p' where d: "d = RefreshPetCeremony r' ks' t' p'" by (cases d) simp_all
    show ?thesis
      using assms refresh_fields_inject [of "''ring_id''" r ks t p r' ks' t' p']
      by (simp add: c d preimage_defs strings_fit_split)
  next
    case c: (ReshareCeremony r b old new t)
    with label obtain r' b' old' new' t' where d: "d = ReshareCeremony r' b' old' new' t'" by (cases d) simp_all
    show ?thesis
      using assms reshare_main_inject [of r b old new t r' b' old' new' t']
      by (simp add: c d preimage_defs strings_fit_split)
  next
    case c: (ResharePetCeremony r old new t)
    with label obtain r' old' new' t' where d: "d = ResharePetCeremony r' old' new' t'" by (cases d) simp_all
    show ?thesis
      using assms reshare_pet_inject [of r old new t r' old' new' t']
      by (simp add: c d preimage_defs)
  qed
qed

lemma hash_sorted_strings_sort [simp]: "hash_sorted_strings l (sort ss) = hash_sorted_strings l ss"
  by (simp add: hash_sorted_strings_def Let_def sorted_sort_id)

lemma canonical_ceremony_preimage: "ceremony_preimage (canonical_ceremony c) = ceremony_preimage c"
  by (cases c) (simp_all add: preimage_defs)

context lawful_backend
begin

lemma u128_of_digest_inject:
  "u128_of_le (take 16 (sha256 B x)) = u128_of_le (take 16 (sha256 B y)) \<longleftrightarrow>
    take 16 (sha256 B x) = take 16 (sha256 B y)"
proof
  let ?p = "\<lambda>x. take 16 (sha256 B x)"
  have len: "length (?p x) = 16" for x by (simp add: sha256_width)
  have bound: "of_le_bytes (?p x) < 2 ^ 128" for x using of_le_bytes_bound [of "?p x"] unfolding len by simp
  assume "u128_of_le (?p x) = u128_of_le (?p y)"
  then have "unat (u128_of_le (?p x)) = unat (u128_of_le (?p y))" by simp
  then have "of_le_bytes (?p x) = of_le_bytes (?p y)"
    using bound [of x] bound [of y] by (simp add: u128_of_le_def unat_of_nat)
  then show "?p x = ?p y" using le_bytes_of_le_bytes [OF len] by metis
qed simp

lemma finish_session_id_inject:
  "finish_session_id B x = finish_session_id B y \<longleftrightarrow> take 16 (sha256 B x) = take 16 (sha256 B y)"
  by (simp add: finish_session_id_def u128_of_digest_inject)

lemma chunks_of_points:
  "as_chunks 32 (length ps) (concat (map (point_to_bytes B) ps)) = map (point_to_bytes B) ps"
  by (induction ps) simp_all

lemma points_of_chunks:
  assumes "length b = 32 * k"
    and "traverse (\<lambda>chunk. map_err e (element_from_bytes B chunk)) (as_chunks 32 k b) = Inr ps"
  shows "b = concat (map (point_to_bytes B) ps)"
  using assms
proof (induction k arbitrary: b ps)
  case (Suc k)
  then obtain p qs where "ps = p # qs" "element_from_bytes B (take 32 b) = Inr p"
    "traverse (\<lambda>chunk. map_err e (element_from_bytes B chunk)) (as_chunks 32 k (drop 32 b)) = Inr qs"
    by (auto simp: rbind_eq_Inr map_err_eq_Inr)
  with Suc.IH [of "drop 32 b" qs] Suc.prems(1) show ?case
    by (simp add: element_from_bytes_iff) (metis append_take_drop_id)
qed simp

end

text \<open>
  C38: the wire form of a commitment is canonical.  Decoding accepts a byte string exactly when it is
  the encoding of a commitment with at least one coefficient, and returns that commitment.
\<close>

theorem wire_commitment_canonical:
  assumes "lawful_backend B"
  shows "deserialize_wire_commitment B b = Inr C \<longleftrightarrow>
    coefficients C \<noteq> [] \<and> b = serialize_commitment_coefficients B (coefficients C)"
proof
  assume d: "deserialize_wire_commitment B b = Inr C"
  have "b \<noteq> []" using d by (auto simp: deserialize_wire_commitment_def)
  have mult: "length b mod 32 = 0"
    using d by (rule contrapos_pp) (simp add: deserialize_wire_commitment_def GROUP_POINT_SIZE_def)
  have t: "traverse (\<lambda>chunk. map_err ''coefficient {index}: {error}'' (element_from_bytes B chunk))
      (as_chunks 32 (length b div 32) b) = Inr (coefficients C)"
    using d mult \<open>b \<noteq> []\<close> by (auto simp: deserialize_wire_commitment_def GROUP_POINT_SIZE_def rbind_eq_Inr)
  have "length b = 32 * (length b div 32)" using mult by presburger
  from lawful_backend.points_of_chunks [OF assms this t]
  have "b = concat (map (point_to_bytes B) (coefficients C))" .
  with \<open>b \<noteq> []\<close> show "coefficients C \<noteq> [] \<and> b = serialize_commitment_coefficients B (coefficients C)"
    by (auto simp: serialize_commitment_coefficients_def)
next
  assume C: "coefficients C \<noteq> [] \<and> b = serialize_commitment_coefficients B (coefficients C)"
  note w = lawful_backend.point_width [OF assms]
  have len: "length b = 32 * length (coefficients C)"
    using C by (simp add: serialize_commitment_coefficients_def length_concat comp_def w sum_list_triv)
  have "traverse (\<lambda>chunk. map_err ''coefficient {index}: {error}'' (element_from_bytes B chunk))
      (map (point_to_bytes B) (coefficients C)) = Inr (coefficients C)"
    by (simp add: traverse_eq_Inr list_all2_map1 list_all2_same map_err_eq_Inr
        lawful_backend.element_from_bytes_to_bytes [OF assms])
  moreover have "as_chunks 32 (length (coefficients C)) b = map (point_to_bytes B) (coefficients C)"
    using C lawful_backend.chunks_of_points [OF assms] by (simp add: serialize_commitment_coefficients_def)
  moreover have "b \<noteq> []" using C len by auto
  ultimately show "deserialize_wire_commitment B b = Inr C"
    by (simp add: deserialize_wire_commitment_def GROUP_POINT_SIZE_def len)
qed

text \<open>
  C39: a session id identifies its ceremony.  Two ceremonies of any of the six kinds have the same
  session id exactly when they are the same kind with the same inputs, committees compared without
  regard to order, or else their two preimages differ and collide on the first sixteen bytes of
  SHA-256.  In particular a ring's main key and its PET key never share a session without a
  collision.
\<close>

theorem session_id_binding:
  assumes "lawful_backend B" "ceremony_fits c" "ceremony_fits d"
  shows "ceremony_session_id B c = ceremony_session_id B d \<longleftrightarrow>
    canonical_ceremony c = canonical_ceremony d \<or>
    ceremony_preimage c \<noteq> ceremony_preimage d \<and>
      take 16 (sha256 B (ceremony_preimage c)) = take 16 (sha256 B (ceremony_preimage d))"
  using ceremony_preimage_inject [OF _ assms(2,3)] canonical_ceremony_preimage
    lawful_backend.finish_session_id_inject [OF assms(1)]
  unfolding ceremony_session_id_preimage by metis

text \<open>
  What the pre-round of a fresh ceremony commits to: two reveals with the hash that was published
  are the same reveal, by the same node in the same session, or a collision of SHA-256.
\<close>

lemma fresh_commitment_preimage_inject:
  "fresh_commitment_preimage s n c = fresh_commitment_preimage s' n' c' \<longleftrightarrow> s = s' \<and> n = n' \<and> c = c'"
  using le_bytes_inj [of 16 "unat s" "unat s'"] unat_u128_bound [of s] unat_u128_bound [of s']
  by (auto simp: fresh_commitment_preimage_def word_unat_eq_iff)

lemma fresh_commitment_binding:
  assumes "fresh_commitment_hash B s n c = fresh_commitment_hash B s' n' c'"
  shows "s = s' \<and> n = n' \<and> c = c' \<or>
    (fresh_commitment_preimage s n c \<noteq> fresh_commitment_preimage s' n' c' \<and>
      sha256 B (fresh_commitment_preimage s n c) = sha256 B (fresh_commitment_preimage s' n' c'))"
  using assms unfolding fresh_commitment_hash_def fresh_commitment_preimage_inject by blast

section \<open>Witnesses\<close>

definition ex_wire_commitment :: "ref_scalar polynomial_commitment" where
  "ex_wire_commitment = \<lparr>coefficients = [3, 5]\<rparr>"

theorem wire_commitment_canonical_witness:
  "deserialize_wire_commitment ref_backend (serialize_commitment_coefficients ref_backend (coefficients ex_wire_commitment))
    = Inr ex_wire_commitment"
  using wire_commitment_canonical [OF reference.lawful_backend_axioms,
      of "serialize_commitment_coefficients ref_backend (coefficients ex_wire_commitment)" ex_wire_commitment]
  by (simp add: ex_wire_commitment_def)

text \<open>A refresh whose committee two starters list in different orders.\<close>

theorem session_id_binding_witness:
  "ceremony_session_id ref_backend (RefreshCeremony ''r'' [''kb'', ''ka''] 2 ''p'') =
    ceremony_session_id ref_backend (RefreshCeremony ''r'' [''ka'', ''kb''] 2 ''p'')"
proof -
  have fits: "ceremony_fits (RefreshCeremony ''r'' [''kb'', ''ka''] 2 ''p'')"
    "ceremony_fits (RefreshCeremony ''r'' [''ka'', ''kb''] 2 ''p'')"
    by (simp_all add: strings_fit_def)
  have "canonical_ceremony (RefreshCeremony ''r'' [''kb'', ''ka''] 2 ''p'') =
      canonical_ceremony (RefreshCeremony ''r'' [''ka'', ''kb''] 2 ''p'')"
    by code_simp
  then show ?thesis
    using session_id_binding [OF reference.lawful_backend_axioms fits] by blast
qed

end
