(* ===== verification/Node_Types.thy ===== *)
theory Node_Types
  imports Committee
begin

text \<open>
  The identities and messages that the key-generation coordinator of a node handles
  (\<open>dkg/v0/transport/types.rs\<close>, \<open>dkg/v0/messages.rs\<close>).
\<close>

datatype ceremony_id = CeremonyId u128
datatype attempt_id = AttemptId bytes
datatype message_id = MessageId bytes

record attempt_key =
  ak_ceremony_id :: ceremony_id
  ak_attempt_id :: attempt_id

fun attempt_session_id :: "attempt_key \<Rightarrow> u128" where
  "attempt_session_id a = (case ak_ceremony_id a of CeremonyId i \<Rightarrow> i)"

datatype session_kind =
    Fresh
  | FreshPet string
  | Refresh string
  | RefreshPet string
  | Reshare string "string list" u32 string
  | ResharePet string "string list" u32

fun ring_key :: "session_kind \<Rightarrow> string option" where
  "ring_key Fresh = None"
| "ring_key (FreshPet ring_id) = Some ring_id"
| "ring_key (Refresh ring_pk_hex) = Some ring_pk_hex"
| "ring_key (RefreshPet ring_id) = Some ring_id"
| "ring_key (Reshare ring_pk_hex _ _ _) = Some ring_pk_hex"
| "ring_key (ResharePet ring_id _ _) = Some ring_id"

definition kind_is_fresh :: "session_kind \<Rightarrow> bool" where
  "kind_is_fresh k = (case k of Fresh \<Rightarrow> True | FreshPet _ \<Rightarrow> True | _ \<Rightarrow> False)"

definition kind_is_reshare :: "session_kind \<Rightarrow> bool" where
  "kind_is_reshare k = (case k of Reshare _ _ _ _ \<Rightarrow> True | ResharePet _ _ _ \<Rightarrow> True | _ \<Rightarrow> False)"

datatype public_phase =
    CommitmentHashes
  | Commitments
  | CommitmentAudit
  | RefreshHealthCheck
  | ReshareParticipantSet

record signed_payload =
  sp_origin :: bytes
  sp_signature :: bytes
  sp_data :: bytes

record control_signature =
  cs_signer_node_key :: string
  cs_signed_at :: u64
  cs_signature :: bytes

record ring_share_bundle =
  rb_share_bytes :: bytes
  rb_public_polynomial :: string
  rb_last_pss :: u64

lemma attempt_key_eq_iff:
  "a = b \<longleftrightarrow> attempt_session_id a = attempt_session_id b \<and> ak_attempt_id a = ak_attempt_id b"
  by (cases a; cases b) (auto split: ceremony_id.splits)

end
