(* ===== verification/Receipts.thy ===== *)
theory Receipts
  imports Caches Node_Types
begin

text \<open>
  The collection of peer responses (\<open>helpers/response_manager.rs\<close>) and the receipts that outlive a
  ceremony (\<open>dkg/v0/session_state/receipts.rs\<close>).  The hex encoding of a sender's bytes is a
  third-party function, an argument of the definition that uses it.
\<close>

section \<open>Collecting responses\<close>

record 'm authenticated_response =
  ar_message :: 'm
  ar_sender_peer_hex :: string

datatype response_init_outcome = Created | InitAlreadyExists | InitLimitReached

datatype response_store_outcome = Stored | UnexpectedOrDuplicatePeer | MissingRequest

record 'm response_entry =
  re_responses :: "'m authenticated_response list"
  re_expected_peers :: "string set"
  re_created_at :: instant

type_synonym 'm response_map = "(string \<times> 'm response_entry) list"

text \<open>One tick of the expiration worker.\<close>

definition response_expire :: "'m response_map \<Rightarrow> duration \<Rightarrow> instant \<Rightarrow> 'm response_map" where
  "response_expire m ttl now = filter (\<lambda>(_, entry). \<not> now - re_created_at entry > ttl) m"

definition init_response ::
  "nat \<Rightarrow> 'm response_map \<Rightarrow> string \<Rightarrow> string list \<Rightarrow> instant \<Rightarrow> 'm response_map \<times> response_init_outcome" where
  "init_response max_entries m request_id expected_peer_ids now =
    (if map_of m request_id \<noteq> None then (m, InitAlreadyExists)
     else if max_entries \<le> length m then (m, InitLimitReached)
     else
       (AList.update request_id
         \<lparr>re_responses = [], re_expected_peers = set (map extract_node_part expected_peer_ids),
          re_created_at = now\<rparr> m, Created))"

definition store_response ::
  "(bytes \<Rightarrow> string) \<Rightarrow> 'm response_map \<Rightarrow> string \<Rightarrow> 'm \<Rightarrow> bytes \<Rightarrow> 'm response_map \<times> response_store_outcome" where
  "store_response hex m request_id message sender_peer_bytes =
    (let sender_hex = hex sender_peer_bytes in
     case map_of m request_id of
       Some entry \<Rightarrow>
         if sender_hex \<notin> re_expected_peers entry then (m, UnexpectedOrDuplicatePeer)
         else
           (AList.update request_id
             (entry\<lparr>re_expected_peers := re_expected_peers entry - {sender_hex},
                re_responses := re_responses entry @
                  [\<lparr>ar_message = message, ar_sender_peer_hex = sender_hex\<rparr>]\<rparr>) m, Stored)
     | None \<Rightarrow> (m, MissingRequest))"

definition take_authenticated_responses ::
  "'m response_map \<Rightarrow> string \<Rightarrow> 'm response_map \<times> 'm authenticated_response list option" where
  "take_authenticated_responses m request_id =
    (AList.delete request_id m, map_option re_responses (map_of m request_id))"

definition remove_response :: "'m response_map \<Rightarrow> string \<Rightarrow> 'm response_map" where
  "remove_response m request_id = AList.delete request_id m"

datatype 'm response_event =
    InitResponse string "string list" instant
  | StoreResponse string 'm bytes
  | TakeResponses string
  | RemoveResponse string
  | ExpireResponses instant

fun response_step ::
  "nat \<Rightarrow> duration \<Rightarrow> (bytes \<Rightarrow> string) \<Rightarrow> 'm response_event \<Rightarrow> 'm response_map \<Rightarrow> 'm response_map" where
  "response_step cap ttl hex (InitResponse r ps now) m = fst (init_response cap m r ps now)"
| "response_step cap ttl hex (StoreResponse r msg sender) m = fst (store_response hex m r msg sender)"
| "response_step cap ttl hex (TakeResponses r) m = fst (take_authenticated_responses m r)"
| "response_step cap ttl hex (RemoveResponse r) m = remove_response m r"
| "response_step cap ttl hex (ExpireResponses now) m = response_expire m ttl now"

lemma response_step_bounded: "bounded cap m \<Longrightarrow> bounded cap (response_step cap ttl hex e m)"
  by (cases e) (auto simp: init_response_def store_response_def take_authenticated_responses_def
      remove_response_def response_expire_def Let_def not_le bounded_filter
      intro: bounded_insert bounded_delete bounded_replace dest: map_of_key split: option.splits)

interpretation responses: bounded_cache cap "response_step cap ttl hex" for cap ttl hex
  by unfold_locales (rule response_step_bounded)

text \<open>
  What a collection should be: the first response of each expected sender, in the order of arrival.
\<close>

fun first_responses :: "string set \<Rightarrow> 'm authenticated_response list \<Rightarrow> 'm authenticated_response list" where
  "first_responses S [] = []"
| "first_responses S (r # rs) =
    (if ar_sender_peer_hex r \<in> S then r # first_responses (S - {ar_sender_peer_hex r}) rs
     else first_responses S rs)"

text \<open>The responses to one request among the events of a history.\<close>

fun responses_to :: "(bytes \<Rightarrow> string) \<Rightarrow> string \<Rightarrow> 'm response_event list \<Rightarrow> 'm authenticated_response list" where
  "responses_to hex r [] = []"
| "responses_to hex r (StoreResponse r' msg sender # es) =
    (if r' = r then [\<lparr>ar_message = msg, ar_sender_peer_hex = hex sender\<rparr>] else []) @ responses_to hex r es"
| "responses_to hex r (_ # es) = responses_to hex r es"

text \<open>Whether an event may end the collection of a request that was opened at a given time.\<close>

fun ends_request :: "duration \<Rightarrow> string \<Rightarrow> instant \<Rightarrow> 'm response_event \<Rightarrow> bool" where
  "ends_request ttl r opened (TakeResponses r') = (r' = r)"
| "ends_request ttl r opened (RemoveResponse r') = (r' = r)"
| "ends_request ttl r opened (ExpireResponses now) = (now - opened > ttl)"
| "ends_request ttl r opened _ = False"

lemma first_responses_senders:
  "distinct (map ar_sender_peer_hex (first_responses S rs)) \<and> ar_sender_peer_hex ` set (first_responses S rs) \<subseteq> S"
proof (induction rs arbitrary: S)
  case (Cons r rs)
  from Cons [of "S - {ar_sender_peer_hex r}"] Cons [of S] show ?case by auto
qed simp

lemma response_step_entry:
  assumes "bounded cap m" "map_of m r = Some entry" "\<not> ends_request ttl r (re_created_at entry) e"
  shows "\<exists>entry'. map_of (response_step cap ttl hex e m) r = Some entry' \<and>
    re_created_at entry' = re_created_at entry \<and>
    re_responses entry' @ first_responses (re_expected_peers entry') rs =
      re_responses entry @ first_responses (re_expected_peers entry) (responses_to hex r [e] @ rs)"
proof (cases e)
  case (InitResponse r' ps now)
  with assms(2) show ?thesis
    by (cases "r' = r") (auto simp: init_response_def update_conv)
next
  case (StoreResponse r' msg sender)
  with assms(2) show ?thesis
    by (cases "r' = r") (auto simp: store_response_def Let_def update_conv split: option.splits)
next
  case (TakeResponses r')
  with assms(2,3) show ?thesis by (simp add: take_authenticated_responses_def delete_conv)
next
  case (RemoveResponse r')
  with assms(2,3) show ?thesis by (simp add: remove_response_def delete_conv)
next
  case (ExpireResponses now)
  with assms have "map_of (response_expire m ttl now) r = Some entry"
    by (auto simp: response_expire_def bounded_def intro: map_of_filter_keep)
  with ExpireResponses show ?thesis by simp
qed

lemma responses_to_Cons: "responses_to hex r (e # es) = responses_to hex r [e] @ responses_to hex r es"
  by (cases e) simp_all

lemma response_run_entry:
  assumes "bounded cap m" "map_of m r = Some entry"
    "\<And>e. e \<in> set es \<Longrightarrow> \<not> ends_request ttl r (re_created_at entry) e"
  shows "\<exists>entry'. map_of (fold (response_step cap ttl hex) es m) r = Some entry' \<and>
    re_responses entry' = re_responses entry @ first_responses (re_expected_peers entry) (responses_to hex r es)"
  using assms
proof (induction es arbitrary: m entry)
  case (Cons e es)
  obtain entry' where e: "map_of (response_step cap ttl hex e m) r = Some entry'"
    "re_created_at entry' = re_created_at entry"
    "re_responses entry' @ first_responses (re_expected_peers entry') (responses_to hex r es) =
      re_responses entry @ first_responses (re_expected_peers entry) (responses_to hex r [e] @ responses_to hex r es)"
    using response_step_entry [OF Cons.prems(1,2), of ttl e hex "responses_to hex r es"] Cons.prems(3) by auto
  with Cons.IH [of "response_step cap ttl hex e m" entry'] Cons.prems
    response_step_bounded [OF Cons.prems(1), of ttl hex e]
  show ?case by (simp add: responses_to_Cons [of hex r e es])
qed simp

text \<open>
  C33: a collection of responses is exactly the first response of every expected peer.  After a
  request is opened for a list of peers, whatever other requests, responses and sweeps follow in any
  order, taking the responses returns, in the order of arrival, the first response that each expected
  peer sent to this request; unexpected senders and repeated responses leave no trace.
\<close>

theorem collected_responses:
  assumes opened: "init_response cap (fold (response_step cap ttl hex) before []) r peers now = (m, Created)"
    and running: "\<forall>e \<in> set es. \<not> ends_request ttl r now e"
  shows "snd (take_authenticated_responses (fold (response_step cap ttl hex) es m) r) =
      Some (first_responses (extract_node_part ` set peers) (responses_to hex r es)) \<and>
    distinct (map ar_sender_peer_hex (first_responses (extract_node_part ` set peers) (responses_to hex r es)))"
proof -
  have "m = response_step cap ttl hex (InitResponse r peers now) (fold (response_step cap ttl hex) before [])"
    using opened by simp
  then have "bounded cap m" by (simp only: response_step_bounded responses.run_bounded bounded_Nil)
  moreover have "map_of m r = Some \<lparr>re_responses = [], re_expected_peers = extract_node_part ` set peers,
      re_created_at = now\<rparr>"
    using opened by (auto simp: init_response_def update_conv split: if_splits)
  ultimately obtain entry' where "map_of (fold (response_step cap ttl hex) es m) r = Some entry'"
    "re_responses entry' = first_responses (extract_node_part ` set peers) (responses_to hex r es)"
    using response_run_entry [of cap m r _ es ttl hex] running by fastforce
  then show ?thesis
    using first_responses_senders by (auto simp: take_authenticated_responses_def)
qed

definition ex_hex :: "bytes \<Rightarrow> string" where
  "ex_hex b = map (\<lambda>x. char_of (unat x + 97)) b"

definition ex_responses :: "nat response_event list" where
  "ex_responses = [StoreResponse ''q'' 1 [1], StoreResponse ''q'' 2 [7], StoreResponse ''p'' 3 [0],
    StoreResponse ''q'' 4 [0], StoreResponse ''q'' 5 [1], ExpireResponses 50]"

theorem collected_responses_witness:
  "snd (take_authenticated_responses (fold (response_step 5 100 ex_hex) ex_responses
      (fst (init_response 5 [] ''q'' [''a@h:1'', ''b'', ''c''] 10))) ''q'') =
    Some (first_responses (extract_node_part ` set [''a@h:1'', ''b'', ''c'']) (responses_to ex_hex ''q'' ex_responses))"
proof -
  have "init_response 5 (fold (response_step 5 100 ex_hex) [] []) ''q'' [''a@h:1'', ''b'', ''c''] 10 =
      (fst (init_response 5 [] ''q'' [''a@h:1'', ''b'', ''c''] 10), Created)"
    by (simp add: init_response_def)
  moreover have "\<forall>e \<in> set ex_responses. \<not> ends_request 100 ''q'' 10 e" by (simp add: ex_responses_def)
  ultimately show ?thesis by (rule conjunct1 [OF collected_responses])
qed

section \<open>Receipts of completed commits\<close>

definition MAX_PUBLIC_COMMIT_RECEIPTS :: nat where
  "MAX_PUBLIC_COMMIT_RECEIPTS = 4096"

definition MAX_OFFLINE_RELAY_RECEIPTS :: nat where
  "MAX_OFFLINE_RELAY_RECEIPTS = 4096"

definition MAX_OFFLINE_CANDIDATE_CLAIMS :: nat where
  "MAX_OFFLINE_CANDIDATE_CLAIMS = 4096"

definition MAX_OFFLINE_RELAY_RECEIPT_PROCESSED_KEYS :: nat where
  "MAX_OFFLINE_RELAY_RECEIPT_PROCESSED_KEYS = 4096"

definition DKG_ATTEMPT_TIMEOUT :: duration where
  "DKG_ATTEMPT_TIMEOUT = from_secs (15 * 60)"

type_synonym commit_receipts = "((ceremony_id \<times> attempt_id \<times> message_id) \<times> bytes \<times> instant) list"

definition public_commit_receipt ::
  "commit_receipts \<Rightarrow> ceremony_id \<times> attempt_id \<times> message_id \<Rightarrow> instant \<Rightarrow> commit_receipts \<times> bytes option" where
  "public_commit_receipt receipts key now =
    (let receipts = filter (\<lambda>(_, _, recorded_at). now - recorded_at \<le> DKG_ATTEMPT_TIMEOUT) receipts in
     (receipts, map_option fst (map_of receipts key)))"

definition record_public_commit_receipt ::
  "commit_receipts \<Rightarrow> ceremony_id \<times> attempt_id \<times> message_id \<Rightarrow> bytes \<Rightarrow> instant \<Rightarrow> commit_receipts" where
  "record_public_commit_receipt receipts key leader_peer now =
    AList.update key (leader_peer, now) (fst (make_room MAX_PUBLIC_COMMIT_RECEIPTS snd receipts))"

section \<open>Receipts for offline relays\<close>

record dkg_offline_relay_receipt =
  or_kind :: session_kind
  or_ring_id :: string
  or_protocol_version :: u64
  or_committees :: ceremony_config
  or_leader_node_key :: string
  or_recorded_at :: instant
  or_processed :: "message_id set"

type_synonym relay_receipts = "(attempt_key \<times> dkg_offline_relay_receipt) list"

definition offline_relay_receipt ::
  "relay_receipts \<Rightarrow> attempt_key \<Rightarrow> instant \<Rightarrow> relay_receipts \<times> dkg_offline_relay_receipt option" where
  "offline_relay_receipt receipts attempt now =
    (let receipts = filter (\<lambda>(_, receipt). now - or_recorded_at receipt \<le> DKG_ATTEMPT_TIMEOUT) receipts in
     (receipts, map_of receipts attempt))"

definition claim_offline_relay_idempotency ::
  "relay_receipts \<Rightarrow> attempt_key \<Rightarrow> message_id \<Rightarrow> instant \<Rightarrow> relay_receipts \<times> bool option" where
  "claim_offline_relay_idempotency receipts attempt idempotency_key now =
    (let expired = (case map_of receipts attempt of
                      Some receipt \<Rightarrow> now - or_recorded_at receipt > DKG_ATTEMPT_TIMEOUT
                    | None \<Rightarrow> False)
     in if expired then (AList.delete attempt receipts, None)
        else case map_of receipts attempt of
               None \<Rightarrow> (receipts, None)
             | Some receipt \<Rightarrow>
                 if idempotency_key \<in> or_processed receipt then (receipts, Some False)
                 else if MAX_OFFLINE_RELAY_RECEIPT_PROCESSED_KEYS \<le> card (or_processed receipt) then (receipts, None)
                 else (AList.update attempt (receipt\<lparr>or_processed := insert idempotency_key (or_processed receipt)\<rparr>) receipts,
                   Some True))"

definition record_offline_relay_receipt ::
  "relay_receipts \<Rightarrow> attempt_key \<Rightarrow> dkg_offline_relay_receipt \<Rightarrow> instant \<Rightarrow> relay_receipts" where
  "record_offline_relay_receipt receipts attempt receipt now =
    (let receipts = filter (\<lambda>(existing, r).
           now - or_recorded_at r \<le> DKG_ATTEMPT_TIMEOUT \<and>
           (ak_ceremony_id existing \<noteq> ak_ceremony_id attempt \<or> ak_attempt_id existing = ak_attempt_id attempt)) receipts
     in AList.update attempt receipt (fst (make_room MAX_OFFLINE_RELAY_RECEIPTS or_recorded_at receipts)))"

section \<open>Claims on offline candidates\<close>

type_synonym candidate_claims = "((ceremony_id \<times> string) \<times> instant) list"

definition prune_offline_candidate_claims :: "candidate_claims \<Rightarrow> instant \<Rightarrow> candidate_claims" where
  "prune_offline_candidate_claims claims now =
    filter (\<lambda>(_, recorded_at). now - recorded_at \<le> DKG_ATTEMPT_TIMEOUT) claims"

definition claim_offline_candidate ::
  "candidate_claims \<Rightarrow> ceremony_id \<Rightarrow> string \<Rightarrow> instant \<Rightarrow> candidate_claims \<times> bool" where
  "claim_offline_candidate claims ceremony_id subject now =
    (let key = (ceremony_id, subject) in
     if map_of claims key \<noteq> None then (AList.update key now claims, False)
     else (AList.update key now (fst (make_room MAX_OFFLINE_CANDIDATE_CLAIMS id claims)), True))"

section \<open>Histories and bounds\<close>

datatype commit_event =
    LookupCommit "ceremony_id \<times> attempt_id \<times> message_id" instant
  | RecordCommit "ceremony_id \<times> attempt_id \<times> message_id" bytes instant

fun commit_step :: "commit_event \<Rightarrow> commit_receipts \<Rightarrow> commit_receipts" where
  "commit_step (LookupCommit key now) m = fst (public_commit_receipt m key now)"
| "commit_step (RecordCommit key leader now) m = record_public_commit_receipt m key leader now"

datatype relay_event =
    LookupRelay attempt_key instant
  | ClaimRelay attempt_key message_id instant
  | RecordRelay attempt_key dkg_offline_relay_receipt instant

fun relay_step :: "relay_event \<Rightarrow> relay_receipts \<Rightarrow> relay_receipts" where
  "relay_step (LookupRelay a now) m = fst (offline_relay_receipt m a now)"
| "relay_step (ClaimRelay a key now) m = fst (claim_offline_relay_idempotency m a key now)"
| "relay_step (RecordRelay a receipt now) m = record_offline_relay_receipt m a receipt now"

datatype candidate_event =
    PruneCandidates instant
  | ClaimCandidate ceremony_id string instant

fun candidate_step :: "candidate_event \<Rightarrow> candidate_claims \<Rightarrow> candidate_claims" where
  "candidate_step (PruneCandidates now) m = prune_offline_candidate_claims m now"
| "candidate_step (ClaimCandidate c s now) m = fst (claim_offline_candidate m c s now)"

interpretation commits: bounded_cache MAX_PUBLIC_COMMIT_RECEIPTS commit_step
proof
  fix m :: commit_receipts and e assume m: "bounded MAX_PUBLIC_COMMIT_RECEIPTS m"
  show "bounded MAX_PUBLIC_COMMIT_RECEIPTS (commit_step e m)"
  proof (cases e)
    case (RecordCommit key leader now)
    from m show ?thesis
      unfolding RecordCommit commit_step.simps record_public_commit_receipt_def
      by (rule bounded_make_room_insert) (simp add: MAX_PUBLIC_COMMIT_RECEIPTS_def)
  qed (use m in \<open>simp add: public_commit_receipt_def Let_def bounded_filter\<close>)
qed

lemma claim_relay_state:
  obtains (same) "fst (claim_offline_relay_idempotency m a key now) = m"
  | (expired) "fst (claim_offline_relay_idempotency m a key now) = AList.delete a m"
  | (granted) receipt where "map_of m a = Some receipt"
      "fst (claim_offline_relay_idempotency m a key now) =
        AList.update a (receipt\<lparr>or_processed := insert key (or_processed receipt)\<rparr>) m"
proof (cases "map_of m a")
  case None
  then show thesis by (intro same) (simp add: claim_offline_relay_idempotency_def)
next
  case (Some r)
  show thesis
  proof (cases "now - or_recorded_at r > DKG_ATTEMPT_TIMEOUT")
    case True
    with Some show thesis by (intro expired) (simp add: claim_offline_relay_idempotency_def)
  next
    case False
    show thesis
    proof (cases "key \<in> or_processed r \<or> MAX_OFFLINE_RELAY_RECEIPT_PROCESSED_KEYS \<le> card (or_processed r)")
      case True
      with Some False show thesis by (intro same) (auto simp: claim_offline_relay_idempotency_def)
    next
      case 2: False
      with Some False show thesis by (intro granted [of r]) (simp_all add: claim_offline_relay_idempotency_def)
    qed
  qed
qed

interpretation relays: bounded_cache MAX_OFFLINE_RELAY_RECEIPTS relay_step
proof
  fix m :: relay_receipts and e assume m: "bounded MAX_OFFLINE_RELAY_RECEIPTS m"
  show "bounded MAX_OFFLINE_RELAY_RECEIPTS (relay_step e m)"
  proof (cases e)
    case (ClaimRelay a key now)
    show ?thesis
      unfolding ClaimRelay relay_step.simps using m
      by (cases rule: claim_relay_state [of m a key now])
        (simp_all add: bounded_delete bounded_replace map_of_key)
  next
    case (RecordRelay a receipt now)
    from m show ?thesis
      unfolding RecordRelay relay_step.simps record_offline_relay_receipt_def Let_def
      by (intro bounded_make_room_insert bounded_filter) (simp_all add: MAX_OFFLINE_RELAY_RECEIPTS_def)
  qed (use m in \<open>simp add: offline_relay_receipt_def Let_def bounded_filter\<close>)
qed

interpretation candidates: bounded_cache MAX_OFFLINE_CANDIDATE_CLAIMS candidate_step
proof
  fix m :: candidate_claims and e assume m: "bounded MAX_OFFLINE_CANDIDATE_CLAIMS m"
  show "bounded MAX_OFFLINE_CANDIDATE_CLAIMS (candidate_step e m)"
  proof (cases e)
    case (ClaimCandidate c s now)
    have "bounded MAX_OFFLINE_CANDIDATE_CLAIMS (AList.update (c, s) now (fst (make_room MAX_OFFLINE_CANDIDATE_CLAIMS id m)))"
      using m by (rule bounded_make_room_insert) (simp add: MAX_OFFLINE_CANDIDATE_CLAIMS_def)
    with m show ?thesis
      by (auto simp: ClaimCandidate claim_offline_candidate_def Let_def intro: bounded_replace dest: map_of_key)
  qed (use m in \<open>simp add: prune_offline_candidate_claims_def bounded_filter\<close>)
qed

section \<open>Claims are granted once\<close>

text \<open>
  A receipt, while it stays, remembers every key it granted.  Only recording a new receipt for the
  attempt can forget one.
\<close>

lemma relay_step_remembers:
  assumes "bounded MAX_OFFLINE_RELAY_RECEIPTS m"
    and "\<forall>receipt. map_of m a = Some receipt \<longrightarrow> key \<in> or_processed receipt"
    and "\<forall>receipt now. e \<noteq> RecordRelay a receipt now"
  shows "\<forall>receipt. map_of (relay_step e m) a = Some receipt \<longrightarrow> key \<in> or_processed receipt"
proof (cases e)
  case (LookupRelay b now)
  have "map_of (relay_step e m) a = Some r \<Longrightarrow> map_of m a = Some r" for r
    using LookupRelay map_of_filter_drop [OF bounded_distinct [OF assms(1)]]
    by (simp add: offline_relay_receipt_def Let_def)
  with assms(2) show ?thesis by blast
next
  case (ClaimRelay b key' now)
  show ?thesis
    unfolding ClaimRelay relay_step.simps using assms(2)
    by (cases rule: claim_relay_state [of m b key' now]) (auto simp: update_conv delete_conv)
next
  case (RecordRelay b receipt now)
  with assms(3) have b: "b \<noteq> a" by blast
  let ?kept = "filter (\<lambda>(existing, r). now - or_recorded_at r \<le> DKG_ATTEMPT_TIMEOUT \<and>
      (ak_ceremony_id existing \<noteq> ak_ceremony_id b \<or> ak_attempt_id existing = ak_attempt_id b)) m"
  let ?m' = "fst (make_room MAX_OFFLINE_RELAY_RECEIPTS or_recorded_at ?kept)"
  have "map_of ?m' a = Some r \<Longrightarrow> map_of m a = Some r" for r
    by (rule conjunct1 [OF map_of_filter_drop [OF bounded_distinct [OF assms(1)] make_room_map_of]])
  moreover have "map_of (relay_step e m) a = map_of ?m' a"
    using RecordRelay b by (simp add: record_offline_relay_receipt_def Let_def update_conv)
  ultimately show ?thesis using assms(2) by auto
qed

lemma relay_run_remembers:
  assumes "bounded MAX_OFFLINE_RELAY_RECEIPTS m"
    and "\<forall>receipt. map_of m a = Some receipt \<longrightarrow> key \<in> or_processed receipt"
    and "\<forall>e \<in> set es. \<forall>receipt now. e \<noteq> RecordRelay a receipt now"
  shows "\<forall>receipt. map_of (fold relay_step es m) a = Some receipt \<longrightarrow> key \<in> or_processed receipt"
  using assms
proof (induction es arbitrary: m)
  case (Cons e es)
  have "bounded MAX_OFFLINE_RELAY_RECEIPTS (relay_step e m)" by (rule relays.step_bounded [OF Cons.prems(1)])
  moreover have "\<forall>receipt. map_of (relay_step e m) a = Some receipt \<longrightarrow> key \<in> or_processed receipt"
    by (rule relay_step_remembers [OF Cons.prems(1,2) bspec [OF Cons.prems(3) list.set_intros(1)]])
  moreover have "\<forall>e \<in> set es. \<forall>receipt now. e \<noteq> RecordRelay a receipt now"
    by (rule ballI) (rule bspec [OF Cons.prems(3) list.set_intros(2)])
  ultimately show ?case unfolding fold_simps(2) by (rule Cons.IH)
qed simp

text \<open>
  C34: an offline relay is acted on once.  In any history of the receipts from start-up, once a key is
  granted for an attempt, no later claim of the same key for the attempt is granted, whatever lookups,
  claims, expiries, evictions and receipts of other attempts come in between, as long as no new
  receipt is recorded for the attempt itself.
\<close>

theorem relay_claim_once:
  assumes granted: "claim_offline_relay_idempotency (fold relay_step before []) a key now = (m, Some True)"
    and same: "\<forall>e \<in> set es. \<forall>receipt now. e \<noteq> RecordRelay a receipt now"
  shows "snd (claim_offline_relay_idempotency (fold relay_step es m) a key now') \<noteq> Some True"
proof -
  have "m = relay_step (ClaimRelay a key now) (fold relay_step before [])" using granted by simp
  then have m: "bounded MAX_OFFLINE_RELAY_RECEIPTS m"
    by (simp only: relays.step_bounded relays.run_bounded bounded_Nil)
  moreover have "\<forall>receipt. map_of m a = Some receipt \<longrightarrow> key \<in> or_processed receipt"
    using granted by (auto simp: claim_offline_relay_idempotency_def Let_def update_conv split: option.splits if_splits)
  ultimately have "\<forall>receipt. map_of (fold relay_step es m) a = Some receipt \<longrightarrow> key \<in> or_processed receipt"
    using same by (rule relay_run_remembers)
  then show ?thesis
    by (auto simp: claim_offline_relay_idempotency_def Let_def split: option.splits)
qed

definition ex_attempt :: attempt_key where
  "ex_attempt = \<lparr>ak_ceremony_id = CeremonyId 7, ak_attempt_id = AttemptId [1]\<rparr>"

definition ex_relay_receipt :: dkg_offline_relay_receipt where
  "ex_relay_receipt = \<lparr>or_kind = Refresh ''r'', or_ring_id = ''r'', or_protocol_version = 0,
    or_committees = ex_ceremony, or_leader_node_key = ''ka'', or_recorded_at = 0, or_processed = {}\<rparr>"

definition ex_relay_granted :: relay_receipts where
  "ex_relay_granted = [(ex_attempt, ex_relay_receipt\<lparr>or_processed := {MessageId [3]}\<rparr>)]"

theorem relay_claim_once_witness:
  "snd (claim_offline_relay_idempotency
    (fold relay_step [LookupRelay ex_attempt 6, ClaimRelay ex_attempt (MessageId [4]) 7] ex_relay_granted)
    ex_attempt (MessageId [3]) 8) \<noteq> Some True"
proof (rule relay_claim_once)
  show "claim_offline_relay_idempotency (fold relay_step [RecordRelay ex_attempt ex_relay_receipt 0] [])
      ex_attempt (MessageId [3]) 5 = (ex_relay_granted, Some True)"
    by (simp add: record_offline_relay_receipt_def make_room_def claim_offline_relay_idempotency_def
        ex_relay_receipt_def ex_relay_granted_def MAX_OFFLINE_RELAY_RECEIPTS_def
        MAX_OFFLINE_RELAY_RECEIPT_PROCESSED_KEYS_def DKG_ATTEMPT_TIMEOUT_def from_secs_def)
qed simp

end
