(* ===== verification/Session.thy ===== *)
theory Session
  imports Dkg Receipts
begin

text \<open>
  The state of key-generation sessions and the operations of the session manager
  (\<open>dkg/v0/session_state/\<close>).  The manager's maps are guarded by locks, and each operation takes its
  lock once, so an operation is a function of the map it locks.  The readings of the clock are
  arguments; the two consecutive readings of \<open>transition_phase\<close> are one argument.  Left out of the records are the handles
  of the runtime (notifiers, abort handles, cancellation channels, metrics guards) and the evidence
  kept for reports.  A topic, an \<open>Arc\<close> of a trait object, is a handle.
\<close>

section \<open>Session state\<close>

datatype dkg_phase =
    Initializing
  | Phase0CommitmentHashes
  | Phase1Commitments
  | Phase2Shares
  | Phase4Completing
  | Phase4Complete

type_synonym topic_handle = nat

record configured_transport =
  ct_committee_digest :: bytes
  ct_config_digest :: bytes
  ct_topic_id :: bytes
  ct_leader_node_key :: string
  ct_leader_peer_route :: string
  ct_participant_routes :: "string list"
  ct_committees :: ceremony_config
  ct_topic :: topic_handle
  ct_prepared_at :: instant
  ct_hard_deadline :: instant

record activated_transport =
  at_activation_digest :: bytes
  at_active_dealers :: "participant_ref list"

datatype transport_lifecycle =
    Unset
  | Reserved attempt_key
  | Configured attempt_key configured_transport
  | Activated attempt_key configured_transport activated_transport
  | Begun attempt_key configured_transport activated_transport

fun lifecycle_attempt :: "transport_lifecycle \<Rightarrow> attempt_key option" where
  "lifecycle_attempt Unset = None"
| "lifecycle_attempt (Reserved a) = Some a"
| "lifecycle_attempt (Configured a _) = Some a"
| "lifecycle_attempt (Activated a _ _) = Some a"
| "lifecycle_attempt (Begun a _ _) = Some a"

fun lifecycle_configured :: "transport_lifecycle \<Rightarrow> configured_transport option" where
  "lifecycle_configured Unset = None"
| "lifecycle_configured (Reserved _) = None"
| "lifecycle_configured (Configured _ t) = Some t"
| "lifecycle_configured (Activated _ t _) = Some t"
| "lifecycle_configured (Begun _ t _) = Some t"

fun lifecycle_activation :: "transport_lifecycle \<Rightarrow> activated_transport option" where
  "lifecycle_activation Unset = None"
| "lifecycle_activation (Reserved _) = None"
| "lifecycle_activation (Configured _ _) = None"
| "lifecycle_activation (Activated _ _ x) = Some x"
| "lifecycle_activation (Begun _ _ x) = Some x"

record peer_no_progress_info =
  np_first_failure_at :: instant
  np_consecutive_failures :: u32

record public_repair_state =
  rp_in_flight :: bool
  rp_next_allowed_at :: instant

type_synonym contributions = "(participant_ref \<times> signed_payload) list"

record transport_state =
  ts_lifecycle :: transport_lifecycle
  ts_topology_probe_nonce :: "bytes option"
  ts_topology_probe_acknowledgements :: "string set"
  ts_topology_probe_responses :: "string set"
  ts_last_progress_at :: instant
  ts_public_contributions :: "(public_phase \<times> contributions) list"
  ts_public_phase_started_at :: "(public_phase \<times> instant) list"
  ts_peer_no_progress :: "(u32 \<times> peer_no_progress_info) list"
  ts_soft_stall_reported :: bool
  ts_public_repairs :: "(public_phase \<times> public_repair_state) list"
  ts_publishing_public_phases :: "public_phase set"
  ts_published_public_phases :: "public_phase set"
  ts_publishing_public_messages :: "message_id set"
  ts_published_public_messages :: "message_id set"
  ts_outbound_private_messages :: "(message_id \<times> bytes) list"
  ts_acknowledged_private_messages :: "message_id set"
  ts_private_peer_responses :: "participant_ref set"
  ts_processing_message_ids :: "message_id set"
  ts_processed_message_ids :: "message_id set"
  ts_control_ack_receipts :: "((string \<times> string) \<times> bytes \<times> control_signature) list"

definition transport_default :: "instant \<Rightarrow> transport_state" where
  "transport_default now =
    \<lparr>ts_lifecycle = Unset, ts_topology_probe_nonce = None, ts_topology_probe_acknowledgements = {},
     ts_topology_probe_responses = {}, ts_last_progress_at = now, ts_public_contributions = [],
     ts_public_phase_started_at = [], ts_peer_no_progress = [], ts_soft_stall_reported = False, ts_public_repairs = [],
     ts_publishing_public_phases = {}, ts_published_public_phases = {},
     ts_publishing_public_messages = {}, ts_published_public_messages = {},
     ts_outbound_private_messages = [], ts_acknowledged_private_messages = {},
     ts_private_peer_responses = {}, ts_processing_message_ids = {}, ts_processed_message_ids = {},
     ts_control_ack_receipts = []\<rparr>"

definition ts_attempt :: "transport_state \<Rightarrow> attempt_key option" where
  "ts_attempt t = lifecycle_attempt (ts_lifecycle t)"

definition ts_attempt_id :: "transport_state \<Rightarrow> attempt_id option" where
  "ts_attempt_id t = map_option ak_attempt_id (ts_attempt t)"

definition ts_configured :: "transport_state \<Rightarrow> configured_transport option" where
  "ts_configured t = lifecycle_configured (ts_lifecycle t)"

definition ts_activation :: "transport_state \<Rightarrow> activated_transport option" where
  "ts_activation t = lifecycle_activation (ts_lifecycle t)"

definition ts_is_activated :: "transport_state \<Rightarrow> bool" where
  "ts_is_activated t = (ts_activation t \<noteq> None)"

definition ts_active_dealers :: "transport_state \<Rightarrow> participant_ref list" where
  "ts_active_dealers t = (case ts_activation t of Some x \<Rightarrow> at_active_dealers x | None \<Rightarrow> [])"

record session_routing =
  sr_node_id_to_peer_id :: "(u32 \<times> string) list"
  sr_peer_id_to_node_id :: "(string \<times> u32) list"
  sr_reshare_new_node_id_to_peer_id :: "(u32 \<times> string) list"
  sr_reshare_new_peer_id_to_node_id :: "(string \<times> u32) list"
  sr_peer_ids :: "string list"
  sr_peer_node_keys :: "string list"
  sr_ring_id :: string

record 'f reshare_params =
  rp_old_share :: "'f option"
  rp_participating_ids :: "u32 list"
  rp_new_threshold :: nat
  rp_new_total_nodes :: nat
  rp_new_peer_node_keys :: "string list"
  rp_new_node_id :: "u32 option"
  rp_bulletin_post_id :: string

record 'f reshare_session =
  rs_params :: "'f reshare_params option"
  rs_valid_share_dealers :: "u32 set"
  rs_share_acks :: "(u32 \<times> u32 set) list"
  rs_dealer_completion_order :: "u32 list"
  rs_selected_dealers :: "u32 list option"

record ('f, 'g) session_state =
  st_node :: "('f, 'g) dkg_node"
  st_created_at :: instant
  st_phase :: dkg_phase
  st_phase_started_at :: instant
  st_routing :: session_routing
  st_commitments_received :: nat
  st_shares_received :: nat
  st_reshare :: "'f reshare_session"
  st_received_hashes :: "(u32 \<times> bytes) list"
  st_own_hash_broadcast_complete :: bool
  st_received_shares :: "u32 set"
  st_pending_shares :: "(u32 \<times> 'f distributed_share) list"
  st_pending_commitments :: "(u32 \<times> bytes) list"
  st_kind :: session_kind
  st_transport :: transport_state

definition session_new :: "('f, 'g) dkg_node \<Rightarrow> instant \<Rightarrow> ('f, 'g) session_state" where
  "session_new node now =
    \<lparr>st_node = node, st_created_at = now, st_phase = Initializing, st_phase_started_at = now,
     st_routing = \<lparr>sr_node_id_to_peer_id = [], sr_peer_id_to_node_id = [],
       sr_reshare_new_node_id_to_peer_id = [], sr_reshare_new_peer_id_to_node_id = [],
       sr_peer_ids = [], sr_peer_node_keys = [], sr_ring_id = []\<rparr>,
     st_commitments_received = 0, st_shares_received = 0,
     st_reshare = \<lparr>rs_params = None, rs_valid_share_dealers = {}, rs_share_acks = [],
       rs_dealer_completion_order = [], rs_selected_dealers = None\<rparr>,
     st_received_hashes = [], st_own_hash_broadcast_complete = False, st_received_shares = {},
     st_pending_shares = [], st_pending_commitments = [], st_kind = session_kind.Fresh,
     st_transport = transport_default now\<rparr>"

text \<open>\<open>transition_phase\<close>; the metric it records is left out.\<close>

definition transition_phase :: "dkg_phase \<Rightarrow> instant \<Rightarrow> ('f, 'g) session_state \<Rightarrow> ('f, 'g) session_state" where
  "transition_phase phase now st =
    (if st_phase st = phase then st
     else st\<lparr>st_phase := phase, st_phase_started_at := now,
            st_transport := (st_transport st)\<lparr>ts_last_progress_at := now\<rparr>\<rparr>)"

definition expected_commitment_size :: "('f, 'g) session_state \<Rightarrow> nat" where
  "expected_commitment_size st =
    (case rs_params (st_reshare st) of
       Some p \<Rightarrow> rp_new_threshold p
     | None \<Rightarrow> nd_threshold (st_node st))"

section \<open>Locked access\<close>

type_synonym ('f, 'g) sessions = "(u128 \<times> ('f, 'g) session_state) list"

datatype attempt_state_error = MissingSession | StaleAttempt

definition with_state :: "('f, 'g) sessions \<Rightarrow> u128 \<Rightarrow> (('f, 'g) session_state \<Rightarrow> 'r) \<Rightarrow> 'r option" where
  "with_state states session_id f = map_option f (map_of states session_id)"

definition with_state_mut ::
  "('f, 'g) sessions \<Rightarrow> u128 \<Rightarrow> (('f, 'g) session_state \<Rightarrow> ('f, 'g) session_state \<times> 'r) \<Rightarrow> ('f, 'g) sessions \<times> 'r option" where
  "with_state_mut states session_id f =
    (case map_of states session_id of
       None \<Rightarrow> (states, None)
     | Some st \<Rightarrow> let (st', r) = f st in (AList.update session_id st' states, Some r))"

definition with_attempt_state ::
  "('f, 'g) sessions \<Rightarrow> attempt_key \<Rightarrow> (('f, 'g) session_state \<Rightarrow> 'r) \<Rightarrow> attempt_state_error + 'r" where
  "with_attempt_state states attempt f =
    (case map_of states (attempt_session_id attempt) of
       None \<Rightarrow> Inl MissingSession
     | Some st \<Rightarrow>
         if ts_attempt (st_transport st) \<noteq> Some attempt then Inl StaleAttempt else Inr (f st))"

definition with_attempt_state_mut ::
  "('f, 'g) sessions \<Rightarrow> attempt_key \<Rightarrow> (('f, 'g) session_state \<Rightarrow> ('f, 'g) session_state \<times> 'r)
    \<Rightarrow> ('f, 'g) sessions \<times> (attempt_state_error + 'r)" where
  "with_attempt_state_mut states attempt f =
    (case map_of states (attempt_session_id attempt) of
       None \<Rightarrow> (states, Inl MissingSession)
     | Some st \<Rightarrow>
         if ts_attempt (st_transport st) \<noteq> Some attempt then (states, Inl StaleAttempt)
         else let (st', r) = f st in (AList.update (attempt_session_id attempt) st' states, Inr r))"

definition MAX_DKG_SESSIONS :: nat where
  "MAX_DKG_SESSIONS = 100"

datatype create_session_outcome =
    SessionCreated | SessionAlreadyExists | InvalidParticipantCount | SessionLimitReached

definition create_session ::
  "('f, 'g) sessions \<Rightarrow> u128 \<Rightarrow> ('f, 'g) dkg_node \<Rightarrow> nat
    \<Rightarrow> (('f, 'g) session_state \<Rightarrow> ('f, 'g) session_state) \<Rightarrow> instant \<Rightarrow> ('f, 'g) sessions \<times> create_session_outcome" where
  "create_session states session_id node total_participants init_fn now =
    (if total_participants = 0 then (states, InvalidParticipantCount)
     else if map_of states session_id \<noteq> None then (states, SessionAlreadyExists)
     else if MAX_DKG_SESSIONS \<le> length states then (states, SessionLimitReached)
     else (AList.update session_id (init_fn (session_new node now)) states, SessionCreated))"

section \<open>Transport lifecycle\<close>

definition DKG_PREPARATION_TIMEOUT :: duration where
  "DKG_PREPARATION_TIMEOUT = from_secs (2 * 60)"

datatype transport_configure_outcome =
    TransportConfigured | TransportAlreadyConfigured | ConflictingAttempt | ConfigureMissingSession

datatype transport_activation_outcome =
    TransportActivated | TransportAlreadyActivated | ActivateStaleAttempt | ActivateMissingSession

datatype transport_begin_outcome =
    TransportBegun | TransportAlreadyBegun | NotActivated | BeginStaleAttempt | BeginMissingSession

text \<open>Changing the transport part of a session, and moving its lifecycle on.\<close>

definition on_transport ::
  "(transport_state \<Rightarrow> transport_state \<times> 'r) \<Rightarrow> ('f, 'g) session_state \<Rightarrow> ('f, 'g) session_state \<times> 'r" where
  "on_transport f st = (let (t, r) = f (st_transport st) in (st\<lparr>st_transport := t\<rparr>, r))"

definition advance :: "transport_lifecycle \<Rightarrow> instant \<Rightarrow> transport_state \<Rightarrow> transport_state" where
  "advance l now t = t\<lparr>ts_lifecycle := l, ts_last_progress_at := now\<rparr>"

definition configure_transport ::
  "('f, 'g) sessions \<Rightarrow> u128 \<Rightarrow> ceremony_id \<Rightarrow> attempt_id \<Rightarrow> bytes \<Rightarrow> bytes \<Rightarrow> bytes \<Rightarrow> string \<Rightarrow> string
    \<Rightarrow> string list \<Rightarrow> ceremony_config \<Rightarrow> topic_handle \<Rightarrow> instant \<Rightarrow> ('f, 'g) sessions \<times> transport_configure_outcome" where
  "configure_transport states session_id ceremony_id attempt_id committee_digest config_digest topic_id
      leader_node_key leader_peer_route participant_routes committees topic now =
    (let attempt = \<lparr>ak_ceremony_id = ceremony_id, ak_attempt_id = attempt_id\<rparr>;
         (states, r) = with_state_mut states session_id (on_transport (\<lambda>t.
           if ts_attempt t \<noteq> None \<and> ts_attempt t \<noteq> Some attempt then (t, ConflictingAttempt)
           else case ts_configured t of
                  Some c \<Rightarrow> (t, if ct_config_digest c = config_digest then TransportAlreadyConfigured else ConflictingAttempt)
                | None \<Rightarrow>
                    (advance (Configured attempt
                      \<lparr>ct_committee_digest = committee_digest, ct_config_digest = config_digest, ct_topic_id = topic_id,
                       ct_leader_node_key = leader_node_key, ct_leader_peer_route = leader_peer_route,
                       ct_participant_routes = participant_routes, ct_committees = committees, ct_topic = topic,
                       ct_prepared_at = now, ct_hard_deadline = now + DKG_ATTEMPT_TIMEOUT\<rparr>) now t, TransportConfigured)))
     in (states, case r of Some outcome \<Rightarrow> outcome | None \<Rightarrow> ConfigureMissingSession))"

definition set_participating_ids :: "participant_ref list \<Rightarrow> ('f, 'g) session_state \<Rightarrow> ('f, 'g) session_state" where
  "set_participating_ids active_dealers st =
    (case rs_params (st_reshare st) of
       None \<Rightarrow> st
     | Some p \<Rightarrow> st\<lparr>st_reshare := (st_reshare st)\<lparr>rs_params :=
         Some (p\<lparr>rp_participating_ids := map pr_node_id active_dealers\<rparr>)\<rparr>\<rparr>)"

definition same_activation :: "activated_transport \<Rightarrow> bytes \<Rightarrow> participant_ref list \<Rightarrow> bool" where
  "same_activation x activation_digest active_dealers \<longleftrightarrow>
    at_activation_digest x = activation_digest \<and> at_active_dealers x = active_dealers"

definition activate_transport ::
  "('f, 'g) sessions \<Rightarrow> u128 \<Rightarrow> attempt_id \<Rightarrow> bytes \<Rightarrow> participant_ref list \<Rightarrow> instant
    \<Rightarrow> ('f, 'g) sessions \<times> transport_activation_outcome" where
  "activate_transport states session_id attempt_id activation_digest active_dealers now =
    (let (states, r) = with_state_mut states session_id (\<lambda>st.
       if ts_attempt_id (st_transport st) \<noteq> Some attempt_id then (st, ActivateStaleAttempt)
       else case ts_lifecycle (st_transport st) of
              Configured attempt transport \<Rightarrow>
                (let st = set_participating_ids active_dealers st in
                 (st\<lparr>st_transport := advance (Activated attempt transport
                    \<lparr>at_activation_digest = activation_digest, at_active_dealers = active_dealers\<rparr>) now (st_transport st)\<rparr>,
                  TransportActivated))
            | Activated attempt transport activation \<Rightarrow>
                (st, if same_activation activation activation_digest active_dealers
                     then TransportAlreadyActivated else ActivateStaleAttempt)
            | Begun attempt transport activation \<Rightarrow>
                (st, if same_activation activation activation_digest active_dealers
                     then TransportAlreadyActivated else ActivateStaleAttempt)
            | other \<Rightarrow> (st, ActivateStaleAttempt))
     in (states, case r of Some outcome \<Rightarrow> outcome | None \<Rightarrow> ActivateMissingSession))"

definition begin_transport ::
  "('f, 'g) sessions \<Rightarrow> u128 \<Rightarrow> attempt_id \<Rightarrow> bytes \<Rightarrow> instant \<Rightarrow> ('f, 'g) sessions \<times> transport_begin_outcome" where
  "begin_transport states session_id attempt_id activation_digest now =
    (let (states, r) = with_state_mut states session_id (on_transport (\<lambda>t.
       if ts_attempt_id t \<noteq> Some attempt_id then (t, BeginStaleAttempt)
       else case ts_lifecycle t of
              Activated attempt transport activation \<Rightarrow>
                if at_activation_digest activation \<noteq> activation_digest then (t, BeginStaleAttempt)
                else (advance (Begun attempt transport activation) now t, TransportBegun)
            | Begun attempt transport activation \<Rightarrow>
                (t, if at_activation_digest activation = activation_digest
                    then TransportAlreadyBegun else BeginStaleAttempt)
            | other \<Rightarrow> (t, NotActivated)))
     in (states, case r of Some outcome \<Rightarrow> outcome | None \<Rightarrow> BeginMissingSession))"

definition transport_configuration :: "('f, 'g) sessions \<Rightarrow> u128 \<Rightarrow> (ceremony_id \<times> attempt_id \<times> bytes) option" where
  "transport_configuration states session_id =
    Option.bind (with_state states session_id (\<lambda>st.
      Option.bind (ts_attempt (st_transport st)) (\<lambda>attempt.
      map_option (\<lambda>c. (ak_ceremony_id attempt, ak_attempt_id attempt, ct_config_digest c))
        (ts_configured (st_transport st))))) id"

definition transport_attempt :: "('f, 'g) sessions \<Rightarrow> u128 \<Rightarrow> attempt_id option" where
  "transport_attempt states session_id =
    Option.bind (with_state states session_id (\<lambda>st. ts_attempt_id (st_transport st))) id"

text \<open>The readers that answer only for the attempt that owns the session.\<close>

definition if_attempt :: "attempt_id \<Rightarrow> (transport_state \<Rightarrow> 'r option) \<Rightarrow> ('f, 'g) session_state \<Rightarrow> 'r option" where
  "if_attempt attempt_id f st =
    (if ts_attempt_id (st_transport st) = Some attempt_id then f (st_transport st) else None)"

definition transport_hard_deadline :: "('f, 'g) sessions \<Rightarrow> u128 \<Rightarrow> attempt_id \<Rightarrow> instant option" where
  "transport_hard_deadline states session_id attempt_id =
    Option.bind (with_state states session_id
      (if_attempt attempt_id (\<lambda>t. map_option ct_hard_deadline (ts_configured t)))) id"

definition transport_preparation_deadline :: "('f, 'g) sessions \<Rightarrow> u128 \<Rightarrow> attempt_id \<Rightarrow> instant option" where
  "transport_preparation_deadline states session_id attempt_id =
    Option.bind (with_state states session_id
      (if_attempt attempt_id (\<lambda>t. map_option (\<lambda>c. ct_prepared_at c + DKG_PREPARATION_TIMEOUT) (ts_configured t)))) id"

definition transport_topic :: "('f, 'g) sessions \<Rightarrow> u128 \<Rightarrow> topic_handle option" where
  "transport_topic states session_id =
    Option.bind (with_state states session_id (\<lambda>st. map_option ct_topic (ts_configured (st_transport st)))) id"

definition transport_topic_for_attempt :: "('f, 'g) sessions \<Rightarrow> u128 \<Rightarrow> attempt_id \<Rightarrow> topic_handle option" where
  "transport_topic_for_attempt states session_id attempt_id =
    Option.bind (with_state states session_id (if_attempt attempt_id (\<lambda>t. map_option ct_topic (ts_configured t)))) id"

definition transport_committees :: "('f, 'g) sessions \<Rightarrow> u128 \<Rightarrow> ceremony_config option" where
  "transport_committees states session_id =
    Option.bind (with_state states session_id (\<lambda>st. map_option ct_committees (ts_configured (st_transport st)))) id"

fun lifecycle_with_topic :: "topic_handle \<Rightarrow> transport_lifecycle \<Rightarrow> transport_lifecycle \<times> bool" where
  "lifecycle_with_topic topic (Configured a t) = (Configured a (t\<lparr>ct_topic := topic\<rparr>), True)"
| "lifecycle_with_topic topic (Activated a t x) = (Activated a (t\<lparr>ct_topic := topic\<rparr>) x, True)"
| "lifecycle_with_topic topic (Begun a t x) = (Begun a (t\<lparr>ct_topic := topic\<rparr>) x, True)"
| "lifecycle_with_topic topic Unset = (Unset, False)"
| "lifecycle_with_topic topic (Reserved a) = (Reserved a, False)"

definition replace_transport_topic ::
  "('f, 'g) sessions \<Rightarrow> u128 \<Rightarrow> attempt_id \<Rightarrow> topic_handle \<Rightarrow> instant \<Rightarrow> ('f, 'g) sessions \<times> bool option" where
  "replace_transport_topic states session_id attempt_id topic now =
    with_state_mut states session_id (on_transport (\<lambda>t.
      if ts_attempt_id t \<noteq> Some attempt_id then (t, False)
      else
        let (l, replaced) = lifecycle_with_topic topic (ts_lifecycle t);
            t = t\<lparr>ts_lifecycle := l\<rparr>
        in (if replaced then t\<lparr>ts_last_progress_at := now\<rparr> else t, replaced)))"

section \<open>Topology probes\<close>

datatype topology_ack_record_outcome =
    AckRecorded | AckDuplicate | AckStaleAttempt | AckWrongNonce | AckMissingSession

definition begin_topology_probe ::
  "('f, 'g) sessions \<Rightarrow> u128 \<Rightarrow> attempt_id \<Rightarrow> bytes \<Rightarrow> string \<Rightarrow> instant \<Rightarrow> ('f, 'g) sessions \<times> unit option" where
  "begin_topology_probe states session_id attempt_id nonce self_peer now =
    (let (states, r) = with_state_mut states session_id (on_transport (\<lambda>t.
       if ts_attempt_id t \<noteq> Some attempt_id then (t, None)
       else (t\<lparr>ts_topology_probe_nonce := Some nonce, ts_topology_probe_acknowledgements := {self_peer},
              ts_topology_probe_responses := {self_peer}, ts_last_progress_at := now\<rparr>, Some ())))
     in (states, Option.bind r id))"

definition record_topology_probe ::
  "('f, 'g) sessions \<Rightarrow> u128 \<Rightarrow> attempt_id \<Rightarrow> bytes \<Rightarrow> instant \<Rightarrow> ('f, 'g) sessions \<times> bool option" where
  "record_topology_probe states session_id attempt_id nonce now =
    with_state_mut states session_id (on_transport (\<lambda>t.
      if ts_attempt_id t \<noteq> Some attempt_id then (t, False)
      else if ts_topology_probe_nonce t \<noteq> None \<and> ts_topology_probe_nonce t \<noteq> Some nonce then (t, False)
      else (t\<lparr>ts_topology_probe_nonce := Some nonce, ts_last_progress_at := now\<rparr>, True)))"

definition record_topology_probe_ack ::
  "('f, 'g) sessions \<Rightarrow> u128 \<Rightarrow> attempt_id \<Rightarrow> bytes \<Rightarrow> string \<Rightarrow> instant
    \<Rightarrow> ('f, 'g) sessions \<times> topology_ack_record_outcome" where
  "record_topology_probe_ack states session_id attempt_id nonce peer now =
    (let (states, r) = with_state_mut states session_id (on_transport (\<lambda>t.
       if ts_attempt_id t \<noteq> Some attempt_id then (t, AckStaleAttempt)
       else
         let t = t\<lparr>ts_topology_probe_responses := insert peer (ts_topology_probe_responses t)\<rparr>
         in if ts_topology_probe_nonce t \<noteq> Some nonce then (t, AckWrongNonce)
            else if peer \<in> ts_topology_probe_acknowledgements t then (t, AckDuplicate)
            else (t\<lparr>ts_topology_probe_acknowledgements := insert peer (ts_topology_probe_acknowledgements t),
                   ts_last_progress_at := now\<rparr>, AckRecorded)))
     in (states, case r of Some outcome \<Rightarrow> outcome | None \<Rightarrow> AckMissingSession))"

definition topology_probe_acknowledgements ::
  "('f, 'g) sessions \<Rightarrow> u128 \<Rightarrow> attempt_id \<Rightarrow> bytes \<Rightarrow> string set option" where
  "topology_probe_acknowledgements states session_id attempt_id nonce =
    Option.bind (with_state states session_id (if_attempt attempt_id (\<lambda>t.
      if ts_topology_probe_nonce t = Some nonce then Some (ts_topology_probe_acknowledgements t) else None))) id"

definition topology_probe_responses :: "('f, 'g) sessions \<Rightarrow> u128 \<Rightarrow> attempt_id \<Rightarrow> string set option" where
  "topology_probe_responses states session_id attempt_id =
    Option.bind (with_state states session_id (if_attempt attempt_id (\<lambda>t. Some (ts_topology_probe_responses t)))) id"

section \<open>Public contributions\<close>

datatype public_contribution_record_outcome =
    ContributionRecorded
  | ContributionDuplicateSame
  | ContributionConflict signed_payload signed_payload
  | ContributionStaleAttempt
  | ContributionMissingSession

datatype public_batch_record_outcome =
    BatchRecorded
  | BatchDuplicateSame
  | BatchConflict participant_ref signed_payload signed_payload
  | BatchStaleAttempt
  | BatchMissingSession

definition phase_contributions :: "transport_state \<Rightarrow> public_phase \<Rightarrow> contributions" where
  "phase_contributions t phase = (case map_of (ts_public_contributions t) phase of Some c \<Rightarrow> c | None \<Rightarrow> [])"

text \<open>
  What both recorders do once something new is retained: start the phase's clock, drop a repair that
  is not running, note the progress, and clear the failure streaks of the origins.
\<close>

definition note_contributions ::
  "public_phase \<Rightarrow> participant_ref list \<Rightarrow> instant \<Rightarrow> instant \<Rightarrow> transport_state \<Rightarrow> transport_state" where
  "note_contributions phase origins started now t =
    t\<lparr>ts_public_phase_started_at :=
        (if map_of (ts_public_phase_started_at t) phase = None
         then AList.update phase started (ts_public_phase_started_at t) else ts_public_phase_started_at t),
      ts_public_repairs :=
        (case map_of (ts_public_repairs t) phase of
           Some repair \<Rightarrow> if \<not> rp_in_flight repair then AList.delete phase (ts_public_repairs t) else ts_public_repairs t
         | None \<Rightarrow> ts_public_repairs t),
      ts_last_progress_at := now,
      ts_peer_no_progress := fold (\<lambda>origin. AList.delete (pr_node_id origin)) origins (ts_peer_no_progress t)\<rparr>"

definition record_public_contribution ::
  "('f, 'g) sessions \<Rightarrow> u128 \<Rightarrow> attempt_id \<Rightarrow> public_phase \<Rightarrow> participant_ref \<Rightarrow> signed_payload \<Rightarrow> instant \<Rightarrow> instant
    \<Rightarrow> ('f, 'g) sessions \<times> public_contribution_record_outcome" where
  "record_public_contribution states session_id attempt_id phase origin contribution started now =
    (let (states, r) = with_state_mut states session_id (on_transport (\<lambda>t.
       if ts_attempt_id t \<noteq> Some attempt_id then (t, ContributionStaleAttempt)
       else case map_of (phase_contributions t phase) origin of
              Some existing \<Rightarrow>
                (t, if existing = contribution then ContributionDuplicateSame
                    else ContributionConflict existing contribution)
            | None \<Rightarrow>
                (note_contributions phase [origin] started now
                  (t\<lparr>ts_public_contributions :=
                     AList.update phase (AList.update origin contribution (phase_contributions t phase))
                       (ts_public_contributions t)\<rparr>), ContributionRecorded)))
     in (states, case r of Some outcome \<Rightarrow> outcome | None \<Rightarrow> ContributionMissingSession))"

text \<open>The first pass over a batch: the first origin whose retained payload differs.\<close>

fun batch_conflict :: "contributions \<Rightarrow> contributions \<Rightarrow> (participant_ref \<times> signed_payload \<times> signed_payload) option" where
  "batch_conflict retained [] = None"
| "batch_conflict retained ((origin, contribution) # rest) =
    (case map_of retained origin of
       Some existing \<Rightarrow>
         if existing \<noteq> contribution then Some (origin, existing, contribution) else batch_conflict retained rest
     | None \<Rightarrow> batch_conflict retained rest)"

text \<open>The second pass: vacant entries are filled, and their origins listed.\<close>

fun batch_insert :: "contributions \<Rightarrow> contributions \<Rightarrow> contributions \<times> participant_ref list" where
  "batch_insert retained [] = (retained, [])"
| "batch_insert retained ((origin, contribution) # rest) =
    (if map_of retained origin = None
     then let (retained, new) = batch_insert (AList.update origin contribution retained) rest in (retained, origin # new)
     else batch_insert retained rest)"

definition record_public_batch ::
  "('f, 'g) sessions \<Rightarrow> u128 \<Rightarrow> attempt_id \<Rightarrow> public_phase \<Rightarrow> contributions \<Rightarrow> instant \<Rightarrow> instant
    \<Rightarrow> ('f, 'g) sessions \<times> public_batch_record_outcome" where
  "record_public_batch states session_id attempt_id phase contributions started now =
    (let (states, r) = with_state_mut states session_id (on_transport (\<lambda>t.
       if ts_attempt_id t \<noteq> Some attempt_id then (t, BatchStaleAttempt)
       else
         let retained = phase_contributions t phase
         in case batch_conflict retained contributions of
              Some (origin, existing, contribution) \<Rightarrow>
                (t\<lparr>ts_public_contributions := AList.update phase retained (ts_public_contributions t)\<rparr>,
                 BatchConflict origin existing contribution)
            | None \<Rightarrow>
                let (retained, new) = batch_insert retained contributions;
                    t = t\<lparr>ts_public_contributions := AList.update phase retained (ts_public_contributions t)\<rparr>
                in if new \<noteq> [] then (note_contributions phase new started now t, BatchRecorded)
                   else (t, BatchDuplicateSame)))
     in (states, case r of Some outcome \<Rightarrow> outcome | None \<Rightarrow> BatchMissingSession))"

definition public_contributions ::
  "('f, 'g) sessions \<Rightarrow> u128 \<Rightarrow> attempt_id \<Rightarrow> public_phase \<Rightarrow> contributions option" where
  "public_contributions states session_id attempt_id phase =
    Option.bind (with_state states session_id (if_attempt attempt_id (\<lambda>t. Some (phase_contributions t phase)))) id"

definition public_phase_collection_elapsed ::
  "('f, 'g) sessions \<Rightarrow> u128 \<Rightarrow> attempt_id \<Rightarrow> public_phase \<Rightarrow> instant \<Rightarrow> duration option" where
  "public_phase_collection_elapsed states session_id attempt_id phase now =
    Option.bind (with_state states session_id (if_attempt attempt_id (\<lambda>t.
      map_option (\<lambda>started. now - started) (map_of (ts_public_phase_started_at t) phase)))) id"

section \<open>Publishing\<close>

definition claim_public_phase_publish ::
  "('f, 'g) sessions \<Rightarrow> u128 \<Rightarrow> attempt_id \<Rightarrow> public_phase \<Rightarrow> nat \<Rightarrow> ('f, 'g) sessions \<times> bool" where
  "claim_public_phase_publish states session_id attempt_id phase expected =
    (let (states, r) = with_state_mut states session_id (on_transport (\<lambda>t.
       if ts_attempt_id t \<noteq> Some attempt_id \<or> length (phase_contributions t phase) \<noteq> expected \<or>
          phase \<in> ts_publishing_public_phases t \<or> phase \<in> ts_published_public_phases t
       then (t, False)
       else (t\<lparr>ts_publishing_public_phases := insert phase (ts_publishing_public_phases t)\<rparr>, True)))
     in (states, r = Some True))"

definition finish_public_phase_publish ::
  "('f, 'g) sessions \<Rightarrow> u128 \<Rightarrow> attempt_id \<Rightarrow> public_phase \<Rightarrow> bool \<Rightarrow> ('f, 'g) sessions \<times> bool" where
  "finish_public_phase_publish states session_id attempt_id phase published =
    (let (states, r) = with_state_mut states session_id (on_transport (\<lambda>t.
       if ts_attempt_id t \<noteq> Some attempt_id \<or> phase \<notin> ts_publishing_public_phases t then (t, False)
       else (t\<lparr>ts_publishing_public_phases := ts_publishing_public_phases t - {phase},
              ts_published_public_phases :=
                (if published then insert phase (ts_published_public_phases t) else ts_published_public_phases t)\<rparr>, True)))
     in (states, r = Some True))"

text \<open>The claimed ids come out of a \<open>BTreeSet\<close>: sorted by their bytes, without repetition.\<close>

definition message_bytes :: "message_id \<Rightarrow> bytes" where
  "message_bytes m = (case m of MessageId b \<Rightarrow> b)"

definition btree_set :: "message_id list \<Rightarrow> message_id list" where
  "btree_set ids = sort_key message_bytes (remdups ids)"

definition claim_public_messages_publish ::
  "('f, 'g) sessions \<Rightarrow> u128 \<Rightarrow> attempt_id \<Rightarrow> message_id list \<Rightarrow> ('f, 'g) sessions \<times> message_id list" where
  "claim_public_messages_publish states session_id attempt_id message_ids =
    (let (states, r) = with_state_mut states session_id (on_transport (\<lambda>t.
       if ts_attempt_id t \<noteq> Some attempt_id then (t, [])
       else
         let claimed = filter (\<lambda>m. m \<notin> ts_publishing_public_messages t \<and> m \<notin> ts_published_public_messages t)
                         (btree_set message_ids)
         in (t\<lparr>ts_publishing_public_messages := ts_publishing_public_messages t \<union> set claimed\<rparr>, claimed)))
     in (states, case r of Some claimed \<Rightarrow> claimed | None \<Rightarrow> []))"

definition finish_public_messages_publish ::
  "('f, 'g) sessions \<Rightarrow> u128 \<Rightarrow> attempt_id \<Rightarrow> message_id list \<Rightarrow> bool \<Rightarrow> ('f, 'g) sessions \<times> bool" where
  "finish_public_messages_publish states session_id attempt_id message_ids published =
    (let (states, r) = with_state_mut states session_id (on_transport (\<lambda>t.
       if ts_attempt_id t \<noteq> Some attempt_id \<or> list_ex (\<lambda>m. m \<notin> ts_publishing_public_messages t) message_ids
       then (t, False)
       else (t\<lparr>ts_publishing_public_messages := ts_publishing_public_messages t - set message_ids,
              ts_published_public_messages :=
                (if published then ts_published_public_messages t \<union> set message_ids
                 else ts_published_public_messages t)\<rparr>, True)))
     in (states, r = Some True))"

section \<open>Repairs\<close>

datatype public_repair_claim_outcome = RepairClaimed | RepairInFlight | RepairBackoff | RepairStaleAttempt

definition transport_repair_due :: "('f, 'g) sessions \<Rightarrow> u128 \<Rightarrow> attempt_id \<Rightarrow> duration \<Rightarrow> instant \<Rightarrow> bool" where
  "transport_repair_due states session_id attempt_id stall_interval now =
    (with_state states session_id (\<lambda>st.
       let t = st_transport st in
       ts_attempt_id t = Some attempt_id \<and> ts_is_activated t \<and> stall_interval \<le> now - ts_last_progress_at t) = Some True)"

definition claim_public_phase_repair ::
  "('f, 'g) sessions \<Rightarrow> u128 \<Rightarrow> attempt_id \<Rightarrow> public_phase \<Rightarrow> instant
    \<Rightarrow> ('f, 'g) sessions \<times> public_repair_claim_outcome" where
  "claim_public_phase_repair states session_id attempt_id phase now =
    (let (states, r) = with_state_mut states session_id (on_transport (\<lambda>t.
       if ts_attempt_id t \<noteq> Some attempt_id then (t, RepairStaleAttempt)
       else case map_of (ts_public_repairs t) phase of
              Some repair \<Rightarrow>
                if rp_in_flight repair then (t, RepairInFlight)
                else if rp_next_allowed_at repair > now then (t, RepairBackoff)
                else (t\<lparr>ts_public_repairs := AList.update phase (repair\<lparr>rp_in_flight := True\<rparr>) (ts_public_repairs t)\<rparr>, RepairClaimed)
            | None \<Rightarrow>
                (t\<lparr>ts_public_repairs := AList.update phase \<lparr>rp_in_flight = True, rp_next_allowed_at = now\<rparr> (ts_public_repairs t)\<rparr>,
                 RepairClaimed)))
     in (states, case r of Some outcome \<Rightarrow> outcome | None \<Rightarrow> RepairStaleAttempt))"

definition finish_public_phase_repair ::
  "('f, 'g) sessions \<Rightarrow> u128 \<Rightarrow> attempt_id \<Rightarrow> public_phase \<Rightarrow> bool \<Rightarrow> duration \<Rightarrow> instant \<Rightarrow> ('f, 'g) sessions \<times> bool" where
  "finish_public_phase_repair states session_id attempt_id phase made_progress no_progress_backoff now =
    (let (states, r) = with_state_mut states session_id (on_transport (\<lambda>t.
       if ts_attempt_id t \<noteq> Some attempt_id then (t, False)
       else if made_progress then (t\<lparr>ts_public_repairs := AList.delete phase (ts_public_repairs t)\<rparr>, True)
       else (t\<lparr>ts_public_repairs :=
              AList.update phase \<lparr>rp_in_flight = False, rp_next_allowed_at = now + no_progress_backoff\<rparr> (ts_public_repairs t)\<rparr>, True)))
     in (states, r = Some True))"

section \<open>Private messages\<close>

definition cache_private_message_for_attempt ::
  "('f, 'g) sessions \<Rightarrow> attempt_key \<Rightarrow> message_id \<Rightarrow> bytes \<Rightarrow> ('f, 'g) sessions \<times> (attempt_state_error + bool)" where
  "cache_private_message_for_attempt states attempt message_id exact_bytes =
    with_attempt_state_mut states attempt (on_transport (\<lambda>t.
      case map_of (ts_outbound_private_messages t) message_id of
        Some existing \<Rightarrow> (t, existing = exact_bytes)
      | None \<Rightarrow> (t\<lparr>ts_outbound_private_messages := AList.update message_id exact_bytes (ts_outbound_private_messages t)\<rparr>, True)))"

definition acknowledge_private_message ::
  "('f, 'g) sessions \<Rightarrow> u128 \<Rightarrow> attempt_id \<Rightarrow> message_id \<Rightarrow> instant \<Rightarrow> ('f, 'g) sessions \<times> bool option" where
  "acknowledge_private_message states session_id attempt_id message_id now =
    with_state_mut states session_id (on_transport (\<lambda>t.
      if ts_attempt_id t \<noteq> Some attempt_id then (t, False)
      else (t\<lparr>ts_acknowledged_private_messages := insert message_id (ts_acknowledged_private_messages t),
             ts_last_progress_at := now\<rparr>, True)))"

definition private_message_acknowledged_for_attempt ::
  "('f, 'g) sessions \<Rightarrow> attempt_key \<Rightarrow> message_id \<Rightarrow> attempt_state_error + bool" where
  "private_message_acknowledged_for_attempt states attempt message_id =
    with_attempt_state states attempt (\<lambda>st. message_id \<in> ts_acknowledged_private_messages (st_transport st))"

definition record_private_peer_response ::
  "('f, 'g) sessions \<Rightarrow> attempt_key \<Rightarrow> participant_ref \<Rightarrow> ('f, 'g) sessions \<times> (attempt_state_error + unit)" where
  "record_private_peer_response states attempt participant =
    with_attempt_state_mut states attempt (on_transport (\<lambda>t.
      (t\<lparr>ts_private_peer_responses := insert participant (ts_private_peer_responses t)\<rparr>, ())))"

definition private_peer_responses_for_attempt ::
  "('f, 'g) sessions \<Rightarrow> attempt_key \<Rightarrow> attempt_state_error + participant_ref set" where
  "private_peer_responses_for_attempt states attempt =
    with_attempt_state states attempt (\<lambda>st. ts_private_peer_responses (st_transport st))"

datatype message_processing_claim =
    Claimed | AlreadyProcessed | AlreadyProcessing | ClaimMissingSession | ClaimStaleAttempt

definition claim_transport_message ::
  "('f, 'g) sessions \<Rightarrow> attempt_key \<Rightarrow> message_id \<Rightarrow> ('f, 'g) sessions \<times> message_processing_claim" where
  "claim_transport_message states attempt message_id =
    (let (states, r) = with_attempt_state_mut states attempt (on_transport (\<lambda>t.
       if message_id \<in> ts_processed_message_ids t then (t, AlreadyProcessed)
       else if message_id \<in> ts_processing_message_ids t then (t, AlreadyProcessing)
       else (t\<lparr>ts_processing_message_ids := insert message_id (ts_processing_message_ids t)\<rparr>, Claimed)))
     in (states,
         case r of
           Inr claim \<Rightarrow> claim
         | Inl MissingSession \<Rightarrow> ClaimMissingSession
         | Inl StaleAttempt \<Rightarrow> ClaimStaleAttempt))"

definition finish_transport_message ::
  "('f, 'g) sessions \<Rightarrow> attempt_key \<Rightarrow> message_id \<Rightarrow> bool \<Rightarrow> ('f, 'g) sessions" where
  "finish_transport_message states attempt message_id success =
    fst (with_attempt_state_mut states attempt (on_transport (\<lambda>t.
      (t\<lparr>ts_processing_message_ids := ts_processing_message_ids t - {message_id},
         ts_processed_message_ids :=
           (if success then insert message_id (ts_processed_message_ids t) else ts_processed_message_ids t)\<rparr>, ()))))"

section \<open>Acknowledgements of control messages\<close>

definition record_control_ack ::
  "('f, 'g) sessions \<Rightarrow> attempt_key \<Rightarrow> string \<Rightarrow> string \<Rightarrow> bytes \<Rightarrow> control_signature
    \<Rightarrow> ('f, 'g) sessions \<times> (bytes \<times> control_signature) option" where
  "record_control_ack states attempt follower_node_key message_kind digest signature =
    (let (states, r) = with_attempt_state_mut states attempt (on_transport (\<lambda>t.
       let key = (follower_node_key, message_kind) in
       case map_of (ts_control_ack_receipts t) key of
         Some (existing_digest, existing_signature) \<Rightarrow>
           (t, if existing_digest \<noteq> digest then Some (existing_digest, existing_signature) else None)
       | None \<Rightarrow> (t\<lparr>ts_control_ack_receipts := AList.update key (digest, signature) (ts_control_ack_receipts t)\<rparr>, None)))
     in (states, case r of Inr x \<Rightarrow> x | Inl _ \<Rightarrow> None))"

section \<open>Shares and phases\<close>

definition store_pending_share_for_attempt ::
  "('f, 'g) sessions \<Rightarrow> attempt_key \<Rightarrow> 'f distributed_share \<Rightarrow> ('f, 'g) sessions \<times> (attempt_state_error + bool)" where
  "store_pending_share_for_attempt states attempt share =
    with_attempt_state_mut states attempt (\<lambda>st.
      if map_of (st_pending_shares st) (ds_from_id share) \<noteq> None then (st, False)
      else (st\<lparr>st_pending_shares := AList.update (ds_from_id share) share (st_pending_shares st)\<rparr>, True))"

definition take_pending_share_for_attempt ::
  "('f, 'g) sessions \<Rightarrow> attempt_key \<Rightarrow> u32 \<Rightarrow> ('f, 'g) sessions \<times> (attempt_state_error + 'f distributed_share option)" where
  "take_pending_share_for_attempt states attempt from_node_id =
    with_attempt_state_mut states attempt (\<lambda>st.
      (st\<lparr>st_pending_shares := AList.delete from_node_id (st_pending_shares st)\<rparr>,
       map_of (st_pending_shares st) from_node_id))"

definition mark_commitment_hash_broadcast_complete_for_attempt ::
  "('f, 'g) sessions \<Rightarrow> attempt_key \<Rightarrow> ('f, 'g) sessions \<times> (attempt_state_error + unit)" where
  "mark_commitment_hash_broadcast_complete_for_attempt states attempt =
    with_attempt_state_mut states attempt (\<lambda>st. (st\<lparr>st_own_hash_broadcast_complete := True\<rparr>, ()))"

definition update_phase_for_attempt ::
  "('f, 'g) sessions \<Rightarrow> attempt_key \<Rightarrow> dkg_phase \<Rightarrow> instant \<Rightarrow> ('f, 'g) sessions \<times> (attempt_state_error + unit)" where
  "update_phase_for_attempt states attempt phase now =
    with_attempt_state_mut states attempt (\<lambda>st. (transition_phase phase now st, ()))"

definition record_received_share :: "u32 \<Rightarrow> ('f, 'g) session_state \<Rightarrow> ('f, 'g) session_state" where
  "record_received_share dealer_id st =
    st\<lparr>st_received_shares := insert dealer_id (st_received_shares st),
       st_shares_received :=
         (if dealer_id \<in> st_received_shares st then st_shares_received st else st_shares_received st + 1),
       st_transport := (st_transport st)\<lparr>ts_peer_no_progress := AList.delete dealer_id (ts_peer_no_progress (st_transport st))\<rparr>\<rparr>"

definition record_received_share_for_attempt ::
  "('f, 'g) sessions \<Rightarrow> attempt_key \<Rightarrow> u32 \<Rightarrow> ('f, 'g) sessions \<times> (attempt_state_error + unit)" where
  "record_received_share_for_attempt states attempt dealer_id =
    with_attempt_state_mut states attempt (\<lambda>st. (record_received_share dealer_id st, ()))"

end
