(* ===== verification/Teardown.thy ===== *)
theory Teardown
  imports Session
begin

text \<open>
  Which ceremony owns a ring, which reshare results may be signed, and how a session is taken down
  (\<open>session_state/ring_pss.rs\<close>, \<open>session_state/teardown.rs\<close>).  The manager holds three locked maps,
  the sessions, the owners of rings and the reshare results that are ready; the take-down touches all
  three, each under its own lock.
\<close>

section \<open>Ring ownership\<close>

record ring_pss_owner =
  ow_session_id :: u128
  ow_attempt_id :: "attempt_id option"

type_synonym ring_claims = "(string \<times> ring_pss_owner) list"

datatype ring_pss_claim_outcome = RingClaimed | AlreadyClaimedBySameSession | RingConflict u128

definition attempt_owner :: "attempt_key \<Rightarrow> ring_pss_owner" where
  "attempt_owner attempt =
    \<lparr>ow_session_id = attempt_session_id attempt, ow_attempt_id = Some (ak_attempt_id attempt)\<rparr>"

definition claim_ring_pss_attempt ::
  "ring_claims \<Rightarrow> string \<Rightarrow> attempt_key \<Rightarrow> ring_claims \<times> ring_pss_claim_outcome" where
  "claim_ring_pss_attempt claims ring_pk_hex attempt =
    (let owner = attempt_owner attempt in
     case map_of claims ring_pk_hex of
       None \<Rightarrow> (AList.update ring_pk_hex owner claims, RingClaimed)
     | Some existing \<Rightarrow>
         if existing = owner then (claims, AlreadyClaimedBySameSession)
         else if ow_session_id existing = ow_session_id owner \<and> ow_attempt_id existing = None
         then (AList.update ring_pk_hex owner claims, AlreadyClaimedBySameSession)
         else (claims, RingConflict (ow_session_id existing)))"

definition is_ring_pss_active :: "ring_claims \<Rightarrow> string \<Rightarrow> bool" where
  "is_ring_pss_active claims ring_pk_key \<longleftrightarrow> map_of claims ring_pk_key \<noteq> None"

definition active_ring_pss_session :: "ring_claims \<Rightarrow> string \<Rightarrow> u128 option" where
  "active_ring_pss_session claims ring_pk_key = map_option ow_session_id (map_of claims ring_pk_key)"

definition unmark_ring_pss_if_matches :: "ring_claims \<Rightarrow> string \<Rightarrow> u128 \<Rightarrow> ring_claims" where
  "unmark_ring_pss_if_matches claims ring_pk_hex session_id =
    (if map_option ow_session_id (map_of claims ring_pk_hex) = Some session_id
     then AList.delete ring_pk_hex claims else claims)"

definition unmark_ring_pss_for_attempt :: "ring_claims \<Rightarrow> string \<Rightarrow> attempt_key \<Rightarrow> ring_claims" where
  "unmark_ring_pss_for_attempt claims ring_pk_hex attempt =
    (if map_of claims ring_pk_hex = Some (attempt_owner attempt)
     then AList.delete ring_pk_hex claims else claims)"

section \<open>Reshare results that are ready to sign\<close>

record ready_key =
  rk_ring_key :: string
  rk_session_id :: u128
  rk_attempt_id :: attempt_id
  rk_ring_id :: string
  rk_current_ring_sha256 :: string
  rk_finalized_ring_sha256 :: string

datatype ready_material = Staged ring_share_bundle instant | Promoted instant

fun marked_at :: "ready_material \<Rightarrow> instant" where
  "marked_at (Staged _ t) = t"
| "marked_at (Promoted t) = t"

type_synonym ready_map = "(ready_key \<times> ready_material) list"

text \<open>
  The operation looks at the sessions twice and may be overtaken in between: \<open>states\<close> and \<open>states'\<close>
  are the sessions at the two looks.
\<close>

definition mark_reshare_signature_ready_for_attempt ::
  "('f, 'g) sessions \<Rightarrow> ('f, 'g) sessions \<Rightarrow> ready_map \<Rightarrow> attempt_key \<Rightarrow> ready_key \<Rightarrow> ring_share_bundle \<Rightarrow> instant
    \<Rightarrow> ready_map \<times> bool" where
  "mark_reshare_signature_ready_for_attempt states states' ready attempt key bundle now =
    (if isl (with_attempt_state states attempt (\<lambda>_. ())) then (ready, False)
     else
       let ready = AList.update key (Staged bundle now) ready
       in if \<not> isl (with_attempt_state states' attempt (\<lambda>_. ())) then (ready, True)
          else (AList.delete key ready, False))"

definition reshare_signature_ready_material ::
  "ready_map \<Rightarrow> string \<Rightarrow> u128 \<Rightarrow> string \<Rightarrow> string \<Rightarrow> string \<Rightarrow> ring_share_bundle option option" where
  "reshare_signature_ready_material ready ring_pk_key session_id ring_id current_ring_sha256 finalized_ring_sha256 =
    map_option (\<lambda>(_, material). case material of Staged bundle _ \<Rightarrow> Some bundle | Promoted _ \<Rightarrow> None)
      (List.find (\<lambda>(key, _).
        rk_ring_key key = ring_pk_key \<and> rk_session_id key = session_id \<and> rk_ring_id key = ring_id \<and>
        rk_current_ring_sha256 key = current_ring_sha256 \<and>
        rk_finalized_ring_sha256 key = finalized_ring_sha256) ready)"

definition peek_staged_reshare_bundle :: "ready_map \<Rightarrow> ready_key \<Rightarrow> ring_share_bundle option" where
  "peek_staged_reshare_bundle ready key =
    (case map_of ready key of Some (Staged bundle _) \<Rightarrow> Some bundle | _ \<Rightarrow> None)"

definition mark_reshare_promoted :: "ready_map \<Rightarrow> ready_key \<Rightarrow> ready_map" where
  "mark_reshare_promoted ready key =
    (case map_of ready key of
       Some material \<Rightarrow> AList.update key (Promoted (marked_at material)) ready
     | None \<Rightarrow> ready)"

section \<open>Taking a session down\<close>

record ('f, 'g) manager =
  mg_states :: "('f, 'g) sessions"
  mg_rings_pss :: ring_claims
  mg_ready :: ready_map

definition finish_removed_session ::
  "('f, 'g) manager \<Rightarrow> u128 \<Rightarrow> ('f, 'g) session_state \<Rightarrow> bool \<Rightarrow> ('f, 'g) manager" where
  "finish_removed_session m session_id st completed =
    (let removed_attempt = ts_attempt (st_transport st);
         m = (case ring_key (st_kind st) of
                None \<Rightarrow> m
              | Some key \<Rightarrow> m\<lparr>mg_rings_pss :=
                  (case removed_attempt of
                     Some attempt \<Rightarrow> unmark_ring_pss_for_attempt (mg_rings_pss m) key attempt
                   | None \<Rightarrow> unmark_ring_pss_if_matches (mg_rings_pss m) key session_id)\<rparr>)
     in if completed then m
        else m\<lparr>mg_ready := filter (\<lambda>(k, _).
               case removed_attempt of
                 None \<Rightarrow> True
               | Some attempt \<Rightarrow> rk_session_id k \<noteq> attempt_session_id attempt \<or> rk_attempt_id k \<noteq> ak_attempt_id attempt)
               (mg_ready m)\<rparr>)"

definition remove_transport_attempt :: "('f, 'g) manager \<Rightarrow> attempt_key \<Rightarrow> bool \<Rightarrow> ('f, 'g) manager \<times> bool" where
  "remove_transport_attempt m attempt completed =
    (let session_id = attempt_session_id attempt in
     case map_of (mg_states m) session_id of
       None \<Rightarrow> (m, False)
     | Some st \<Rightarrow>
         if ts_attempt (st_transport st) \<noteq> Some attempt then (m, False)
         else (finish_removed_session (m\<lparr>mg_states := AList.delete session_id (mg_states m)\<rparr>) session_id st completed, True))"

definition abort_transport_attempt :: "('f, 'g) manager \<Rightarrow> attempt_key \<Rightarrow> ('f, 'g) manager \<times> bool" where
  "abort_transport_attempt m attempt = remove_transport_attempt m attempt False"

definition complete_transport_attempt :: "('f, 'g) manager \<Rightarrow> attempt_key \<Rightarrow> ('f, 'g) manager \<times> bool" where
  "complete_transport_attempt m attempt = remove_transport_attempt m attempt True"

definition abort_transport_preparation :: "('f, 'g) manager \<Rightarrow> u128 \<Rightarrow> attempt_id \<Rightarrow> ('f, 'g) manager \<times> bool" where
  "abort_transport_preparation m session_id attempt_id =
    (case map_of (mg_states m) session_id of
       None \<Rightarrow> (m, False)
     | Some st \<Rightarrow>
         if ts_attempt_id (st_transport st) \<noteq> None \<and> ts_attempt_id (st_transport st) \<noteq> Some attempt_id then (m, False)
         else (finish_removed_session (m\<lparr>mg_states := AList.delete session_id (mg_states m)\<rparr>) session_id st False, True))"

end
