(* ===== verification/Lifecycle.thy ===== *)
theory Lifecycle
  imports Teardown
begin

text \<open>
  Starting sessions, watching them and letting them expire (\<open>coordinator/mod.rs\<close>, the end of
  \<open>message_handlers/session_init.rs\<close>, \<open>session_state/lifecycle.rs\<close>).  An operation here touches
  several of the manager's maps, one lock after the other; it is a function of the manager, so what
  another operation does between two of its locks is not modelled.  The channel on which the expiry
  sweep publishes dealers it never heard from is left out with the evidence it reports.
\<close>

section \<open>Errors\<close>

text \<open>The errors of \<open>DkgError\<close> that the modelled code raises; a text is the format string.\<close>

datatype dkg_error =
    Unauthorized string
  | Serialization string
  | Deserialization string
  | Crypto string
  | SessionNotFound
  | StaleDkgAttempt ceremony_id
  | ProtocolError string
  | DkgSessionAlreadyExists
  | MaxSessionsReached
  | DkgInvalidParticipantCount nat
  | InvalidInput string
  | InvalidState string
  | CommitmentVerificationFailed string
  | ShareVerificationFailed string
  | Generic string

section \<open>Starting a session\<close>

text \<open>
  \<open>DkgCoordinator::create_session\<close>: a cryptographic node, and a session that is reserved for the
  attempt before it becomes visible.
\<close>

definition reserve :: "attempt_key \<Rightarrow> ('f, 'g) session_state \<Rightarrow> ('f, 'g) session_state" where
  "reserve attempt st = st\<lparr>st_transport := (st_transport st)\<lparr>ts_lifecycle := Reserved attempt\<rparr>\<rparr>"

definition coordinator_create_session ::
  "('f, 'g) sessions \<Rightarrow> attempt_key \<Rightarrow> u32 \<Rightarrow> nat \<Rightarrow> nat \<Rightarrow> dkg_role
    \<Rightarrow> (('f, 'g) session_state \<Rightarrow> ('f, 'g) session_state) \<Rightarrow> instant \<Rightarrow> ('f, 'g) sessions \<times> (dkg_error + unit)" where
  "coordinator_create_session states attempt node_id threshold total_nodes role init_fn now =
    (let session_id = attempt_session_id attempt in
     if total_nodes = 0 then (states, Inl (DkgInvalidParticipantCount total_nodes))
     else case dkg_new node_id threshold total_nodes session_id role of
       Inl e \<Rightarrow> (states, Inl (Crypto ''Failed to create DKG node: {}''))
     | Inr dkg_node \<Rightarrow>
         let (states, outcome) =
           create_session states session_id dkg_node total_nodes (\<lambda>st. init_fn (reserve attempt st)) now
         in (states,
             case outcome of
               SessionCreated \<Rightarrow> Inr ()
             | SessionAlreadyExists \<Rightarrow> Inl DkgSessionAlreadyExists
             | InvalidParticipantCount \<Rightarrow> Inl (DkgInvalidParticipantCount total_nodes)
             | SessionLimitReached \<Rightarrow> Inl MaxSessionsReached))"

text \<open>
  The closure with which a validated \<open>SessionInit\<close> initialises the session.  Its arguments are what
  the handler derived before: the kind with the new committee sorted, the routing tables and the
  reshare parameters.
\<close>

definition init_session ::
  "session_kind \<Rightarrow> session_routing \<Rightarrow> 'f reshare_params option \<Rightarrow> ('f, 'g) session_state \<Rightarrow> ('f, 'g) session_state" where
  "init_session kind routing params st =
    (let st = st\<lparr>st_kind := kind, st_routing := routing\<rparr>
     in case params of
          Some p \<Rightarrow> st\<lparr>st_reshare := (st_reshare st)\<lparr>rs_params := Some p\<rparr>\<rparr>
        | None \<Rightarrow> st)"

text \<open>
  The state-changing end of the handler of \<open>SessionInit\<close>: claim the ring, create the session unless
  it exists, and give the claim back when the session could not be created.
\<close>

definition start_session ::
  "('f, 'g) manager \<Rightarrow> attempt_key \<Rightarrow> session_kind \<Rightarrow> u32 \<Rightarrow> nat \<Rightarrow> nat \<Rightarrow> dkg_role \<Rightarrow> session_routing
    \<Rightarrow> 'f reshare_params option \<Rightarrow> instant \<Rightarrow> ('f, 'g) manager \<times> (dkg_error + unit)" where
  "start_session m attempt kind node_id threshold total_nodes role routing params now =
    (let (claims, claim) =
       (case ring_key kind of
          Some key \<Rightarrow> claim_ring_pss_attempt (mg_rings_pss m) key attempt
        | None \<Rightarrow> (mg_rings_pss m, RingClaimed))
     in case claim of
          RingConflict active_session_id \<Rightarrow>
            (m, Inl (Unauthorized ''Ring {} already has conflicting in-progress PSS session {} (got {})''))
        | _ \<Rightarrow>
            let m = m\<lparr>mg_rings_pss := claims\<rparr>
            in if map_of (mg_states m) (attempt_session_id attempt) \<noteq> None then (m, Inr ())
               else
                 let (states, r) = coordinator_create_session (mg_states m) attempt node_id threshold total_nodes role
                                     (init_session kind routing params) now;
                     m = m\<lparr>mg_states := states\<rparr>
                 in case r of
                      Inr () \<Rightarrow> (m, Inr ())
                    | Inl DkgSessionAlreadyExists \<Rightarrow> (m, Inr ())
                    | Inl e \<Rightarrow>
                        (case ring_key kind of
                           Some key \<Rightarrow>
                             (m\<lparr>mg_rings_pss := unmark_ring_pss_for_attempt (mg_rings_pss m) key attempt\<rparr>, Inl e)
                         | None \<Rightarrow> (m, Inl e)))"

section \<open>Peers that make no progress\<close>

text \<open>The \<open>u32\<close> counter of failures wraps as release builds do.\<close>

definition record_peer_no_progress :: "('f, 'g) sessions \<Rightarrow> attempt_key \<Rightarrow> u32 \<Rightarrow> instant \<Rightarrow> ('f, 'g) sessions" where
  "record_peer_no_progress states attempt node_id now =
    fst (with_attempt_state_mut states attempt (on_transport (\<lambda>t.
      let entry = (case map_of (ts_peer_no_progress t) node_id of
                     Some entry \<Rightarrow> entry
                   | None \<Rightarrow> \<lparr>np_first_failure_at = now, np_consecutive_failures = 0\<rparr>)
      in (t\<lparr>ts_peer_no_progress :=
             AList.update node_id (entry\<lparr>np_consecutive_failures := np_consecutive_failures entry + 1\<rparr>)
               (ts_peer_no_progress t)\<rparr>, ()))))"

definition clear_peer_no_progress :: "('f, 'g) sessions \<Rightarrow> attempt_key \<Rightarrow> u32 \<Rightarrow> ('f, 'g) sessions" where
  "clear_peer_no_progress states attempt node_id =
    fst (with_attempt_state_mut states attempt (on_transport (\<lambda>t.
      (t\<lparr>ts_peer_no_progress := AList.delete node_id (ts_peer_no_progress t)\<rparr>, ()))))"

definition soft_stalled_peer_ids :: "duration \<Rightarrow> u32 \<Rightarrow> instant \<Rightarrow> ('f, 'g) session_state \<Rightarrow> u32 set" where
  "soft_stalled_peer_ids threshold min_attempts now st =
    fst ` set (filter (\<lambda>(_, info).
      min_attempts \<le> np_consecutive_failures info \<and> threshold \<le> now - np_first_failure_at info)
      (ts_peer_no_progress (st_transport st)))"

section \<open>Whose contribution is missing\<close>

record missing_participant =
  mp_node_id :: u32
  mp_node_key :: string

text \<open>\<open>1..=total_nodes\<close> without this node.\<close>

definition other_ids :: "('f, 'g) session_state \<Rightarrow> u32 list" where
  "other_ids st = filter (\<lambda>i. i \<noteq> nd_id (st_node st))
    (map of_nat [1..<Suc (unat (as_u32 (nd_total_nodes (st_node st))))])"

definition missing_public :: "public_phase \<Rightarrow> ('f, 'g) session_state \<Rightarrow> u32 list" where
  "missing_public phase st =
    filter (\<lambda>i. map_of (phase_contributions (st_transport st) phase) (participant_current i) = None) (other_ids st)"

definition missing_ids :: "('f, 'g) session_state \<Rightarrow> u32 list" where
  "missing_ids st =
    (case st_phase st of
       Phase0CommitmentHashes \<Rightarrow> missing_public CommitmentHashes st
     | Phase1Commitments \<Rightarrow> missing_public Commitments st
     | Phase2Shares \<Rightarrow> filter (\<lambda>i. i \<notin> st_received_shares st) (other_ids st)
     | _ \<Rightarrow> [])"

text \<open>The inverted assignment is keyed by node id, as the source collects it into a map.\<close>

definition missing_fresh_participants :: "('f, 'g) session_state \<Rightarrow> missing_participant list" where
  "missing_fresh_participants st =
    (if \<not> kind_is_fresh (st_kind st) then []
     else case canonical_node_id_assignments_from_node_keys (sr_peer_node_keys (st_routing st)) of
            Inl _ \<Rightarrow> []
          | Inr assignments \<Rightarrow>
              let node_key_by_id = fold (\<lambda>(key, i). AList.update i key) assignments []
              in List.map_filter (\<lambda>i.
                   map_option (\<lambda>key. \<lparr>mp_node_id = i, mp_node_key = key\<rparr>) (map_of node_key_by_id i)) (missing_ids st))"

definition is_local_leader :: "('f, 'g) session_state \<Rightarrow> bool" where
  "is_local_leader st =
    (case ts_configured (st_transport st) of
       None \<Rightarrow> False
     | Some c \<Rightarrow>
         (case canonical_node_id_assignments_from_node_keys (sr_peer_node_keys (st_routing st)) of
            Inl _ \<Rightarrow> False
          | Inr assignments \<Rightarrow>
              list_ex (\<lambda>(key, i). i = nd_id (st_node st) \<and> key = ct_leader_node_key c) assignments))"

section \<open>Failure records\<close>

datatype failure_stage = StagePreparing | StageCommitmentHashes | StageCommitments | StageShareExchange | StageUnknown

definition failure_stage_of :: "dkg_phase \<Rightarrow> failure_stage" where
  "failure_stage_of phase =
    (case phase of
       Phase0CommitmentHashes \<Rightarrow> StageCommitmentHashes
     | Phase1Commitments \<Rightarrow> StageCommitments
     | Phase2Shares \<Rightarrow> StageShareExchange
     | _ \<Rightarrow> StageUnknown)"

record failed_session =
  fs_session_id :: u128
  fs_ring_id :: string
  fs_attempt_id :: "attempt_id option"
  fs_stage :: failure_stage
  fs_missing :: "missing_participant list"
  fs_reason :: string

type_synonym failed_map = "(u128 \<times> failed_session \<times> instant) list"

definition record_failed_session :: "failed_map \<Rightarrow> failed_session \<Rightarrow> instant \<Rightarrow> failed_map" where
  "record_failed_session failed r now = AList.update (fs_session_id r) (r, now) failed"

definition failed_session_lookup :: "failed_map \<Rightarrow> u128 \<Rightarrow> failed_session option" where
  "failed_session_lookup failed session_id = map_option fst (map_of failed session_id)"

section \<open>The soft-stall scan\<close>

definition DKG_SOFT_STALL_NO_PROGRESS_THRESHOLD :: duration where
  "DKG_SOFT_STALL_NO_PROGRESS_THRESHOLD = from_secs 60"

definition DKG_SOFT_STALL_MIN_REPAIR_ATTEMPTS :: u32 where
  "DKG_SOFT_STALL_MIN_REPAIR_ATTEMPTS = 2"

record soft_stalled_attempt =
  ss_session_id :: u128
  ss_attempt_id :: attempt_id
  ss_ring_id :: string
  ss_missing :: "missing_participant list"
  ss_stage :: failure_stage

text \<open>What the scan would publish for one session.\<close>

definition soft_stall_event :: "u128 \<Rightarrow> instant \<Rightarrow> ('f, 'g) session_state \<Rightarrow> soft_stalled_attempt option" where
  "soft_stall_event session_id now st =
    (if \<not> kind_is_fresh (st_kind st) then None
     else if ts_soft_stall_reported (st_transport st) then None
     else if st_phase st \<notin> {Phase0CommitmentHashes, Phase1Commitments, Phase2Shares} then None
     else if \<not> is_local_leader st then None
     else case ts_attempt_id (st_transport st) of
            None \<Rightarrow> None
          | Some attempt_id \<Rightarrow>
              let stalled = soft_stalled_peer_ids DKG_SOFT_STALL_NO_PROGRESS_THRESHOLD
                              DKG_SOFT_STALL_MIN_REPAIR_ATTEMPTS now st;
                  missing = filter (\<lambda>p. mp_node_id p \<in> stalled) (missing_fresh_participants st)
              in if stalled = {} \<or> missing = [] then None
                 else Some \<lparr>ss_session_id = session_id, ss_attempt_id = attempt_id,
                   ss_ring_id = sr_ring_id (st_routing st), ss_missing = missing,
                   ss_stage = failure_stage_of (st_phase st)\<rparr>)"

text \<open>
  The scan over all sessions; \<open>capacity\<close> is what is left of the bounded channel, and an event that
  does not fit leaves the session unmarked.
\<close>

fun soft_stall_scan ::
  "nat \<Rightarrow> instant \<Rightarrow> ('f, 'g) sessions \<Rightarrow> ('f, 'g) sessions \<times> soft_stalled_attempt list" where
  "soft_stall_scan capacity now [] = ([], [])"
| "soft_stall_scan capacity now ((session_id, st) # rest) =
    (case soft_stall_event session_id now st of
       None \<Rightarrow> let (rest, sent) = soft_stall_scan capacity now rest in ((session_id, st) # rest, sent)
     | Some event \<Rightarrow>
         if capacity = 0
         then let (rest, sent) = soft_stall_scan capacity now rest in ((session_id, st) # rest, sent)
         else let (rest, sent) = soft_stall_scan (capacity - 1) now rest in
              ((session_id, st\<lparr>st_transport := (st_transport st)\<lparr>ts_soft_stall_reported := True\<rparr>\<rparr>) # rest, event # sent))"

text \<open>
  The worker that drains the channel; the broadcast of the abort is left out.  The record is written
  and the attempt aborted unless it is gone or already completing.
\<close>

definition handle_soft_stalled ::
  "('f, 'g) manager \<Rightarrow> failed_map \<Rightarrow> soft_stalled_attempt \<Rightarrow> instant \<Rightarrow> ('f, 'g) manager \<times> failed_map" where
  "handle_soft_stalled m failed event now =
    (let attempt = \<lparr>ak_ceremony_id = CeremonyId (ss_session_id event), ak_attempt_id = ss_attempt_id event\<rparr>
     in case with_attempt_state (mg_states m) attempt st_phase of
          Inl _ \<Rightarrow> (m, failed)
        | Inr phase \<Rightarrow>
            if phase \<in> {Phase4Completing, Phase4Complete} then (m, failed)
            else
              let failed = record_failed_session failed
                    \<lparr>fs_session_id = ss_session_id event, fs_ring_id = ss_ring_id event,
                     fs_attempt_id = Some (ss_attempt_id event), fs_stage = ss_stage event, fs_missing = ss_missing event,
                     fs_reason = ''soft-stall: repair/private-exchange retries against the listed peers kept failing''\<rparr> now
              in (fst (abort_transport_attempt m attempt), failed))"

section \<open>The expiry sweep\<close>

definition DKG_COMPLETED_SESSION_TTL :: duration where
  "DKG_COMPLETED_SESSION_TTL = from_secs 600"

definition DKG_FAILED_SESSION_RECORD_TTL :: duration where
  "DKG_FAILED_SESSION_RECORD_TTL = from_secs (10 * 60)"

definition hard_deadline :: "('f, 'g) session_state \<Rightarrow> instant" where
  "hard_deadline st =
    (case ts_configured (st_transport st) of
       Some c \<Rightarrow> ct_hard_deadline c
     | None \<Rightarrow> st_created_at st + DKG_ATTEMPT_TIMEOUT)"

definition session_expired :: "instant \<Rightarrow> ('f, 'g) session_state \<Rightarrow> bool" where
  "session_expired now st =
    (if st_phase st = Phase4Complete then DKG_COMPLETED_SESSION_TTL \<le> now - st_phase_started_at st
     else hard_deadline st \<le> now)"

definition deadline_failures :: "instant \<Rightarrow> ('f, 'g) sessions \<Rightarrow> failed_session list" where
  "deadline_failures now states =
    map (\<lambda>(session_id, st).
      \<lparr>fs_session_id = session_id, fs_ring_id = sr_ring_id (st_routing st),
       fs_attempt_id = ts_attempt_id (st_transport st), fs_stage = failure_stage_of (st_phase st),
       fs_missing = missing_fresh_participants st,
       fs_reason = ''attempt reached the 15-minute hard deadline without completing''\<rparr>)
     (filter (\<lambda>(_, st). session_expired now st \<and> st_phase st \<noteq> Phase4Complete \<and> kind_is_fresh (st_kind st)) states)"

text \<open>The ring a removed session frees: only when the claim is exactly its own.\<close>

definition clear_expired_claim :: "u128 \<times> ('f, 'g) session_state \<Rightarrow> ring_claims \<Rightarrow> ring_claims" where
  "clear_expired_claim = (\<lambda>(session_id, st) claims.
    case ring_key (st_kind st) of
      None \<Rightarrow> claims
    | Some key \<Rightarrow>
        if map_of claims key = Some \<lparr>ow_session_id = session_id, ow_attempt_id = ts_attempt_id (st_transport st)\<rparr>
        then AList.delete key claims else claims)"

definition keeps_marker :: "('f, 'g) sessions \<Rightarrow> ready_key \<Rightarrow> bool" where
  "keeps_marker removed k \<longleftrightarrow>
    list_all (\<lambda>(session_id, st).
      session_id = rk_session_id k \<longrightarrow>
        (case ts_attempt_id (st_transport st) of Some a \<Rightarrow> a \<noteq> rk_attempt_id k | None \<Rightarrow> False)) removed"

text \<open>One tick of \<open>expiration_worker\<close> at \<open>now\<close>; \<open>inserted_at\<close> is the reading for the failure records.\<close>

definition expire_sessions ::
  "('f, 'g) manager \<Rightarrow> failed_map \<Rightarrow> instant \<Rightarrow> instant \<Rightarrow> ('f, 'g) manager \<times> failed_map" where
  "expire_sessions m failed now inserted_at =
    (let removed = filter (\<lambda>(_, st). session_expired now st) (mg_states m);
         failed = fold (\<lambda>r failed. record_failed_session failed r inserted_at) (deadline_failures now (mg_states m)) failed
     in (m\<lparr>mg_states := filter (\<lambda>(_, st). \<not> session_expired now st) (mg_states m),
           mg_rings_pss := fold clear_expired_claim removed (mg_rings_pss m),
           mg_ready := filter (\<lambda>(k, material).
             keeps_marker removed k \<and> now - marked_at material < DKG_COMPLETED_SESSION_TTL) (mg_ready m)\<rparr>,
         filter (\<lambda>(_, _, stored). now - stored < DKG_FAILED_SESSION_RECORD_TTL) failed))"

end
