(* ===== verification/Attempts.thy ===== *)
theory Attempts
  imports Lifecycle Reference_Field
begin

text \<open>
  The operations of the session manager on behalf of an attempt, as events, and what they share: an
  event changes one session, only when the attempt owns it, and never moves its transport back.
\<close>

section \<open>Events\<close>

datatype 'f attempt_event =
    EvConfigure bytes bytes bytes string string "string list" ceremony_config topic_handle instant
  | EvActivate bytes "participant_ref list" instant
  | EvBegin bytes instant
  | EvReplaceTopic topic_handle instant
  | EvBeginProbe bytes string instant
  | EvProbe bytes instant
  | EvProbeAck bytes string instant
  | EvContribution public_phase participant_ref signed_payload instant instant
  | EvBatch public_phase contributions instant instant
  | EvClaimPhase public_phase nat
  | EvFinishPhase public_phase bool
  | EvClaimMessages "message_id list"
  | EvFinishMessages "message_id list" bool
  | EvClaimRepair public_phase instant
  | EvFinishRepair public_phase bool duration instant
  | EvCache message_id bytes
  | EvAcknowledge message_id instant
  | EvPeerResponse participant_ref
  | EvClaimMessage message_id
  | EvFinishMessage message_id bool
  | EvControlAck string string bytes control_signature
  | EvNoProgress u32 instant
  | EvClearProgress u32
  | EvStoreShare "'f distributed_share"
  | EvTakeShare u32
  | EvHashBroadcast
  | EvPhase dkg_phase instant
  | EvShare u32

fun attempt_step :: "attempt_key \<Rightarrow> 'f attempt_event \<Rightarrow> ('f, 'g) sessions \<Rightarrow> ('f, 'g) sessions" where
  "attempt_step a (EvConfigure cd gd tid leader lroute routes cfg topic now) s =
    fst (configure_transport s (attempt_session_id a) (ak_ceremony_id a) (ak_attempt_id a) cd gd tid leader lroute routes cfg topic now)"
| "attempt_step a (EvActivate d dealers now) s = fst (activate_transport s (attempt_session_id a) (ak_attempt_id a) d dealers now)"
| "attempt_step a (EvBegin d now) s = fst (begin_transport s (attempt_session_id a) (ak_attempt_id a) d now)"
| "attempt_step a (EvReplaceTopic topic now) s = fst (replace_transport_topic s (attempt_session_id a) (ak_attempt_id a) topic now)"
| "attempt_step a (EvBeginProbe nonce peer now) s = fst (begin_topology_probe s (attempt_session_id a) (ak_attempt_id a) nonce peer now)"
| "attempt_step a (EvProbe nonce now) s = fst (record_topology_probe s (attempt_session_id a) (ak_attempt_id a) nonce now)"
| "attempt_step a (EvProbeAck nonce peer now) s = fst (record_topology_probe_ack s (attempt_session_id a) (ak_attempt_id a) nonce peer now)"
| "attempt_step a (EvContribution ph origin c started now) s = fst (record_public_contribution s (attempt_session_id a) (ak_attempt_id a) ph origin c started now)"
| "attempt_step a (EvBatch ph cs started now) s = fst (record_public_batch s (attempt_session_id a) (ak_attempt_id a) ph cs started now)"
| "attempt_step a (EvClaimPhase ph n) s = fst (claim_public_phase_publish s (attempt_session_id a) (ak_attempt_id a) ph n)"
| "attempt_step a (EvFinishPhase ph ok) s = fst (finish_public_phase_publish s (attempt_session_id a) (ak_attempt_id a) ph ok)"
| "attempt_step a (EvClaimMessages ms) s = fst (claim_public_messages_publish s (attempt_session_id a) (ak_attempt_id a) ms)"
| "attempt_step a (EvFinishMessages ms ok) s = fst (finish_public_messages_publish s (attempt_session_id a) (ak_attempt_id a) ms ok)"
| "attempt_step a (EvClaimRepair ph now) s = fst (claim_public_phase_repair s (attempt_session_id a) (ak_attempt_id a) ph now)"
| "attempt_step a (EvFinishRepair ph ok backoff now) s = fst (finish_public_phase_repair s (attempt_session_id a) (ak_attempt_id a) ph ok backoff now)"
| "attempt_step a (EvCache m b) s = fst (cache_private_message_for_attempt s a m b)"
| "attempt_step a (EvAcknowledge m now) s = fst (acknowledge_private_message s (attempt_session_id a) (ak_attempt_id a) m now)"
| "attempt_step a (EvPeerResponse p) s = fst (record_private_peer_response s a p)"
| "attempt_step a (EvClaimMessage m) s = fst (claim_transport_message s a m)"
| "attempt_step a (EvFinishMessage m ok) s = finish_transport_message s a m ok"
| "attempt_step a (EvControlAck key kind d sig) s = fst (record_control_ack s a key kind d sig)"
| "attempt_step a (EvNoProgress i now) s = record_peer_no_progress s a i now"
| "attempt_step a (EvClearProgress i) s = clear_peer_no_progress s a i"
| "attempt_step a (EvStoreShare sh) s = fst (store_pending_share_for_attempt s a sh)"
| "attempt_step a (EvTakeShare i) s = fst (take_pending_share_for_attempt s a i)"
| "attempt_step a EvHashBroadcast s = fst (mark_commitment_hash_broadcast_complete_for_attempt s a)"
| "attempt_step a (EvPhase ph now) s = fst (update_phase_for_attempt s a ph now)"
| "attempt_step a (EvShare i) s = fst (record_received_share_for_attempt s a i)"

section \<open>Locality\<close>

definition on_session ::
  "u128 \<Rightarrow> (('f, 'g) session_state \<Rightarrow> ('f, 'g) session_state) \<Rightarrow> ('f, 'g) sessions \<Rightarrow> ('f, 'g) sessions" where
  "on_session k f s = (case map_of s k of None \<Rightarrow> s | Some st \<Rightarrow> AList.update k (f st) s)"

text \<open>The effect of an event on the one session it names.\<close>

definition local_step :: "attempt_key \<Rightarrow> 'f attempt_event \<Rightarrow> ('f, 'g) session_state \<Rightarrow> ('f, 'g) session_state" where
  "local_step a e st = snd (hd (attempt_step a e [(attempt_session_id a, st)]))"

lemma update_same: "map_of s k = Some v \<Longrightarrow> AList.update k v s = s"
  by (induction s) auto

lemma fst_with_state_mut [simp]: "fst (with_state_mut s k f) = on_session k (\<lambda>st. fst (f st)) s"
  by (simp add: with_state_mut_def on_session_def split: option.split prod.split)

lemma fst_with_attempt_state_mut [simp]:
  "fst (with_attempt_state_mut s a f) =
    on_session (attempt_session_id a) (\<lambda>st. if ts_attempt (st_transport st) = Some a then fst (f st) else st) s"
  by (auto simp: with_attempt_state_mut_def on_session_def update_same split: option.split prod.split)

lemma fst_outcome [simp]: "fst (case x of (s, r) \<Rightarrow> (s, h s r)) = fst x"
  by (simp split: prod.split)

lemmas operation_defs =
  configure_transport_def activate_transport_def begin_transport_def replace_transport_topic_def
  begin_topology_probe_def record_topology_probe_def record_topology_probe_ack_def
  record_public_contribution_def record_public_batch_def claim_public_phase_publish_def
  finish_public_phase_publish_def claim_public_messages_publish_def finish_public_messages_publish_def
  claim_public_phase_repair_def finish_public_phase_repair_def cache_private_message_for_attempt_def
  acknowledge_private_message_def record_private_peer_response_def claim_transport_message_def
  finish_transport_message_def record_control_ack_def record_peer_no_progress_def clear_peer_no_progress_def
  store_pending_share_for_attempt_def take_pending_share_for_attempt_def
  mark_commitment_hash_broadcast_complete_for_attempt_def update_phase_for_attempt_def
  record_received_share_for_attempt_def

lemma on_session_single [simp]: "on_session k f [(k, st)] = [(k, f st)]"
  by (simp add: on_session_def)

lemma attempt_step_local: "attempt_step a e s = on_session (attempt_session_id a) (local_step a e) s"
  unfolding local_step_def
  by (cases e) (simp_all add: operation_defs Let_def)

section \<open>Ownership\<close>

lemma ts_attempt_id_Some: "ts_attempt t = Some a \<Longrightarrow> ts_attempt_id t = Some (ak_attempt_id a)"
  by (simp add: ts_attempt_id_def)

lemma fst_on_transport [simp]: "fst (on_transport f st) = st\<lparr>st_transport := fst (f (st_transport st))\<rparr>"
  by (simp add: on_transport_def split: prod.split)

lemma session_state_id: "st\<lparr>st_transport := st_transport st\<rparr> = st"
  by simp

text \<open>An event of another attempt of the same ceremony leaves an owned session as it is.\<close>

lemma local_step_stale:
  assumes owner: "ts_attempt (st_transport st) = Some b"
    and other: "b \<noteq> a" "attempt_session_id b = attempt_session_id a"
  shows "local_step a e st = st"
proof -
  have i: "ts_attempt_id (st_transport st) = Some (ak_attempt_id b)" using owner by (rule ts_attempt_id_Some)
  have ne: "ak_attempt_id b \<noteq> ak_attempt_id a" using other by (auto simp: attempt_key_eq_iff)
  have a: "\<lparr>ak_ceremony_id = ak_ceremony_id a, ak_attempt_id = ak_attempt_id a\<rparr> = a" by simp
  show ?thesis
    by (cases e) (simp_all only: local_step_def attempt_step.simps operation_defs Let_def fst_outcome
        fst_with_state_mut fst_with_attempt_state_mut on_session_single list.sel snd_conv fst_on_transport
        i owner ne other a option.inject not_False_eq_True if_True if_False fst_conv session_state_id simp_thms option.simps)
qed

section \<open>Progress of the transport\<close>

fun lifecycle_rank :: "transport_lifecycle \<Rightarrow> nat" where
  "lifecycle_rank Unset = 0"
| "lifecycle_rank (Reserved _) = 1"
| "lifecycle_rank (Configured _ _) = 2"
| "lifecycle_rank (Activated _ _ _) = 3"
| "lifecycle_rank (Begun _ _ _) = 4"

text \<open>
  A later lifecycle: not an earlier stage, with the attempt, the configuration (its topic may be
  rejoined) and the activation that were fixed before.
\<close>

definition lifecycle_le :: "transport_lifecycle \<Rightarrow> transport_lifecycle \<Rightarrow> bool" where
  "lifecycle_le l l' \<longleftrightarrow>
    lifecycle_rank l \<le> lifecycle_rank l' \<and>
    (\<forall>a. lifecycle_attempt l = Some a \<longrightarrow> lifecycle_attempt l' = Some a) \<and>
    (\<forall>c. lifecycle_configured l = Some c \<longrightarrow> (\<exists>topic. lifecycle_configured l' = Some (c\<lparr>ct_topic := topic\<rparr>))) \<and>
    (\<forall>x. lifecycle_activation l = Some x \<longrightarrow> lifecycle_activation l' = Some x)"

lemma same_topic: "\<exists>topic. c = c\<lparr>ct_topic := topic\<rparr>"
  by (rule exI [of _ "ct_topic c"]) simp

lemma lifecycle_le_refl [simp]: "lifecycle_le l l"
  by (auto simp: lifecycle_le_def same_topic)

lemma lifecycle_le_trans: "lifecycle_le l l' \<Longrightarrow> lifecycle_le l' l'' \<Longrightarrow> lifecycle_le l l''"
  unfolding lifecycle_le_def by fastforce

lemma lifecycle_le_topic: "lifecycle_le l (fst (lifecycle_with_topic topic l))"
  by (cases l) (auto simp: lifecycle_le_def)

lemma transition_phase_lifecycle [simp]: "ts_lifecycle (st_transport (transition_phase ph now st)) = ts_lifecycle (st_transport st)"
  by (simp add: transition_phase_def)

lemma note_contributions_lifecycle [simp]: "ts_lifecycle (note_contributions ph os started now t) = ts_lifecycle t"
  by (simp add: note_contributions_def)

lemma set_participating_ids_transport [simp]: "st_transport (set_participating_ids ds st) = st_transport st"
  by (simp add: set_participating_ids_def split: option.split)

lemma local_step_lifecycle:
  "lifecycle_le (ts_lifecycle (st_transport st)) (ts_lifecycle (st_transport (local_step a e st)))"
proof (cases e)
  case (EvConfigure cd gd tid leader lroute routes cfg topic now)
  then show ?thesis
    by (cases "ts_lifecycle (st_transport st)")
      (simp_all add: local_step_def operation_defs Let_def advance_def ts_attempt_def ts_configured_def lifecycle_le_def same_topic)
next
  case (EvActivate d dealers now)
  then show ?thesis
    by (cases "ts_lifecycle (st_transport st)")
      (simp_all add: local_step_def operation_defs Let_def advance_def lifecycle_le_def same_topic)
next
  case (EvBegin d now)
  then show ?thesis
    by (cases "ts_lifecycle (st_transport st)")
      (simp_all add: local_step_def operation_defs Let_def advance_def lifecycle_le_def same_topic)
next
  case (EvReplaceTopic topic now)
  then show ?thesis
    using lifecycle_le_topic [of "ts_lifecycle (st_transport st)" topic]
    by (auto simp: local_step_def operation_defs Let_def split: prod.split)
qed (simp_all add: local_step_def operation_defs Let_def record_received_share_def
      split: option.split prod.split)

lemma local_step_owner:
  "ts_attempt (st_transport st) = Some b \<Longrightarrow> ts_attempt (st_transport (local_step a e st)) = Some b"
  using local_step_lifecycle [of st a e] by (simp add: lifecycle_le_def ts_attempt_def)

section \<open>Histories of the manager\<close>

datatype 'f manager_event = Op "'f attempt_event" | Remove bool | AbortPreparation

fun manager_step :: "attempt_key \<times> 'f manager_event \<Rightarrow> ('f, 'g) manager \<Rightarrow> ('f, 'g) manager" where
  "manager_step (a, Op e) m = m\<lparr>mg_states := attempt_step a e (mg_states m)\<rparr>"
| "manager_step (a, Remove completed) m = fst (remove_transport_attempt m a completed)"
| "manager_step (a, AbortPreparation) m = fst (abort_transport_preparation m (attempt_session_id a) (ak_attempt_id a))"

lemma finish_removed_session_states [simp]: "mg_states (finish_removed_session m k st completed) = mg_states m"
  by (simp add: finish_removed_session_def Let_def split: option.split)

lemma map_of_on_session:
  "map_of (on_session k f s) k' = (if k' = k then map_option f (map_of s k) else map_of s k')"
  by (simp add: on_session_def update_conv' split: option.split)

definition owned_by :: "attempt_key \<Rightarrow> ('f, 'g) session_state option \<Rightarrow> bool" where
  "owned_by a v \<longleftrightarrow> (\<forall>st. v = Some st \<longrightarrow> ts_attempt (st_transport st) = Some a)"

definition session_of :: "attempt_key \<Rightarrow> ('f, 'g) manager \<Rightarrow> ('f, 'g) session_state option" where
  "session_of a m = map_of (mg_states m) (attempt_session_id a)"

lemma other_step:
  assumes "owned_by a (session_of a m)" "b \<noteq> a"
  shows "session_of a (manager_step (b, e) m) = session_of a m"
proof (cases "attempt_session_id b = attempt_session_id a")
  case same: True
  show ?thesis
  proof (cases "session_of a m")
    case None
    with same show ?thesis
      by (cases e) (simp_all add: session_of_def attempt_step_local map_of_on_session remove_transport_attempt_def
          abort_transport_preparation_def)
  next
    case (Some st)
    with assms have o: "ts_attempt (st_transport st) = Some a" by (simp add: owned_by_def)
    with assms(2) same have "local_step b e' st = st" for e' by (metis local_step_stale)
    moreover have "ak_attempt_id a \<noteq> ak_attempt_id b" using assms(2) same by (auto simp: attempt_key_eq_iff)
    ultimately show ?thesis using Some o same assms(2) ts_attempt_id_Some [OF o]
      by (cases e) (simp_all add: session_of_def attempt_step_local map_of_on_session remove_transport_attempt_def
          abort_transport_preparation_def)
  qed
next
  case False
  then show ?thesis
    by (cases e) (auto simp: session_of_def attempt_step_local map_of_on_session remove_transport_attempt_def
        abort_transport_preparation_def Let_def delete_conv' split: option.split)
qed

lemma own_step:
  assumes "owned_by a (session_of a m)" "session_of a m' = session_of a m"
  shows "session_of a (manager_step (a, e) m') = session_of a (manager_step (a, e) m)"
    and "owned_by a (session_of a (manager_step (a, e) m))"
  using assms
  by (cases e; cases "session_of a m"; simp add: owned_by_def session_of_def attempt_step_local map_of_on_session
      remove_transport_attempt_def abort_transport_preparation_def Let_def delete_conv' local_step_owner
      ts_attempt_id_Some)+

text \<open>
  C21: attempts of a ceremony do not interfere.  Take any manager and an attempt that owns its session,
  and let messages, timers and clean-ups of any attempts of any ceremonies run in any order.  What the
  session of the owning attempt becomes is what the attempt's own events alone make of it: a delayed
  message, a late acknowledgement or a clean-up of an earlier attempt leaves no trace in it.
\<close>

theorem attempts_do_not_interfere:
  assumes "owned_by a (session_of a m)"
  shows "session_of a (fold manager_step es m) = session_of a (fold manager_step (filter (\<lambda>x. fst x = a) es) m)"
proof -
  have "session_of a (fold manager_step es m) = session_of a (fold manager_step (filter (\<lambda>x. fst x = a) es) m')"
    if "owned_by a (session_of a m)" "session_of a m' = session_of a m" for m m' :: "('a, 'b) manager"
    using that
  proof (induction es arbitrary: m m')
    case (Cons x es)
    obtain b e where x: "x = (b, e)" by (cases x)
    show ?case
    proof (cases "b = a")
      case True
      with x show ?thesis
        using Cons.IH [OF own_step(2) [OF Cons.prems, of e] own_step(1) [OF Cons.prems, of e]] by simp
    next
      case False
      have "session_of a (manager_step (b, e) m) = session_of a m" using Cons.prems(1) False by (rule other_step)
      with Cons.prems x False show ?thesis using Cons.IH [of "manager_step (b, e) m" m'] by simp
    qed
  qed simp
  with assms show ?thesis by blast
qed

section \<open>The transport moves forward\<close>

abbreviation lifecycle :: "('f, 'g) session_state \<Rightarrow> transport_lifecycle" where
  "lifecycle st \<equiv> ts_lifecycle (st_transport st)"

text \<open>One step keeps a session, moves it forward, or removes it; removed, it stays removed.\<close>

lemma manager_step_forward:
  "session_of a (manager_step x m) = Some st' \<Longrightarrow>
    \<exists>st. session_of a m = Some st \<and> lifecycle_le (lifecycle st) (lifecycle st')"
proof (cases x)
  case (Pair b e)
  assume "session_of a (manager_step x m) = Some st'"
  then show ?thesis using Pair
    by (cases e) (auto simp: session_of_def attempt_step_local map_of_on_session remove_transport_attempt_def
        abort_transport_preparation_def Let_def delete_conv' local_step_lifecycle split: option.splits if_splits)
qed

lemma manager_run_forward:
  assumes "session_of a (fold manager_step es m) = Some st'"
  shows "\<exists>st. session_of a m = Some st \<and> lifecycle_le (lifecycle st) (lifecycle st')"
  using assms
proof (induction es arbitrary: m)
  case (Cons x es)
  then obtain st1 where st1: "session_of a (manager_step x m) = Some st1" "lifecycle_le (lifecycle st1) (lifecycle st')"
    by auto
  from manager_step_forward [OF st1(1)] st1(2) show ?case by (blast intro: lifecycle_le_trans)
qed simp

lemma begin_transport_cases:
  "snd (begin_transport s k i d now) = TransportBegun \<longleftrightarrow>
    (\<exists>st a c x. map_of s k = Some st \<and> lifecycle st = Activated a c x \<and> ak_attempt_id a = i \<and> at_activation_digest x = d)"
  by (auto simp: begin_transport_def with_state_mut_def on_transport_def ts_attempt_id_def ts_attempt_def
      split: option.splits transport_lifecycle.splits if_splits prod.splits)

lemma begin_transport_Begun:
  assumes "begin_transport s k i d now = (s', TransportBegun)"
  obtains st c x b where "map_of s' k = Some st" "lifecycle st = Begun b c x" "ak_attempt_id b = i" "at_activation_digest x = d"
  using assms
  by (fastforce simp: begin_transport_def with_state_mut_def on_transport_def ts_attempt_id_def ts_attempt_def
      advance_def update_conv' split: option.splits transport_lifecycle.splits if_splits prod.splits)


section \<open>An example\<close>

text \<open>A ceremony of two nodes that reserved its session, and a later attempt of the same ceremony.\<close>

lemma session_of_op: "session_of a (manager_step (a, Op e) m) = map_option (local_step a e) (session_of a m)"
  by (simp add: session_of_def attempt_step_local map_of_on_session del: attempt_session_id.simps)

definition ex_node :: "(ref_scalar, ref_scalar) dkg_node" where
  "ex_node = projr (dkg_new 1 2 2 7 Standard)"

definition ex_session :: "(ref_scalar, ref_scalar) session_state" where
  "ex_session = reserve ex_attempt (session_new ex_node 0)"

definition ex_manager :: "(ref_scalar, ref_scalar) manager" where
  "ex_manager = \<lparr>mg_states = [(7, ex_session)], mg_rings_pss = [], mg_ready = []\<rparr>"

definition ex_retry :: attempt_key where
  "ex_retry = ex_attempt\<lparr>ak_attempt_id := AttemptId [2]\<rparr>"

lemma ex_session_attempt: "ts_attempt (st_transport ex_session) = Some ex_attempt"
  by (simp add: ex_session_def reserve_def ts_attempt_def)

lemma session_of_ex_manager: "session_of ex_attempt ex_manager = Some ex_session"
  by (simp add: session_of_def ex_manager_def ex_attempt_def)

lemma attempts_do_not_interfere_witness:
  "session_of ex_attempt (fold manager_step [(ex_attempt, Op EvHashBroadcast), (ex_retry, Remove False),
      (ex_retry, Op (EvPhase Phase4Complete 3))] ex_manager) =
    Some (ex_session\<lparr>st_own_hash_broadcast_complete := True\<rparr>)"
proof -
  have "owned_by ex_attempt (session_of ex_attempt ex_manager)"
    by (simp add: session_of_ex_manager owned_by_def ex_session_attempt)
  from attempts_do_not_interfere [OF this, of "[(ex_attempt, Op EvHashBroadcast), (ex_retry, Remove False),
      (ex_retry, Op (EvPhase Phase4Complete 3))]"]
  have "session_of ex_attempt (fold manager_step [(ex_attempt, Op EvHashBroadcast), (ex_retry, Remove False),
      (ex_retry, Op (EvPhase Phase4Complete 3))] ex_manager) = session_of ex_attempt (manager_step (ex_attempt, Op EvHashBroadcast) ex_manager)"
    by (simp add: ex_retry_def ex_attempt_def del: manager_step.simps)
  also have "\<dots> = Some (ex_session\<lparr>st_own_hash_broadcast_complete := True\<rparr>)"
    by (simp add: session_of_op session_of_ex_manager local_step_def operation_defs ex_session_attempt
        del: manager_step.simps)
  finally show ?thesis .
qed

definition ex_config :: ceremony_config where
  "ex_config = \<lparr>cfg_current = \<lparr>cc_node_keys = [''ka'', ''kb''], cc_peer_routes = [''a'', ''b''],
    cc_node_id_assignments = [(''ka'', 1), (''kb'', 2)], cc_threshold = 2\<rparr>, cfg_next = None\<rparr>"

definition ex_activated :: "(ref_scalar, ref_scalar) manager" where
  "ex_activated = fold manager_step
    [(ex_attempt, Op (EvConfigure [1] [2] [3] ''ka'' ''a'' [''a'', ''b''] ex_config 0 1)),
     (ex_attempt, Op (EvActivate [9] [participant_current 1, participant_current 2] 2))] ex_manager"

lemma ex_begins: "snd (begin_transport (mg_states ex_activated) 7 (AttemptId [1]) [9] 3) = TransportBegun"
  by (simp add: ex_activated_def ex_manager_def ex_attempt_def ex_session_def reserve_def configure_transport_def activate_transport_def
    with_state_mut_def on_transport_def ts_attempt_def ts_attempt_id_def begin_transport_def Let_def ts_configured_def advance_def set_participating_ids_def split: option.split)


end
