(* ===== verification/Ledger.thy ===== *)
theory Ledger
  imports Attempts
begin

text \<open>
  What the session state promises to the network layer: public contributions form a ledger in which
  the first payload of an origin stands and a conflicting batch changes nothing, and a piece of work
  (a private message, a public message, the batch of a phase, a repair) is claimed by one task at a
  time.
\<close>

section \<open>The ledger of public contributions\<close>

type_synonym ledger = "public_phase \<times> participant_ref \<rightharpoonup> signed_payload"

text \<open>What the network layer reads back.\<close>

definition contributions_of :: "attempt_key \<Rightarrow> ('f, 'g) manager \<Rightarrow> ledger" where
  "contributions_of a m = (\<lambda>(ph, origin).
    Option.bind (public_contributions (mg_states m) (attempt_session_id a) (ak_attempt_id a) ph) (\<lambda>cs. map_of cs origin))"

definition conflicts :: "ledger \<Rightarrow> public_phase \<Rightarrow> contributions \<Rightarrow> bool" where
  "conflicts L ph cs \<longleftrightarrow> list_ex (\<lambda>(origin, c). L (ph, origin) \<noteq> None \<and> L (ph, origin) \<noteq> Some c) cs"

fun ledger_step :: "'f attempt_event \<Rightarrow> ledger \<Rightarrow> ledger" where
  "ledger_step (EvContribution ph origin c _ _) L = (if L (ph, origin) = None then L((ph, origin) \<mapsto> c) else L)"
| "ledger_step (EvBatch ph cs _ _) L =
    (if conflicts L ph cs then L
     else (\<lambda>(ph', origin). if ph' = ph \<and> L (ph, origin) = None then map_of cs origin else L (ph', origin)))"
| "ledger_step _ L = L"

definition own_events :: "attempt_key \<Rightarrow> (attempt_key \<times> 'f manager_event) list \<Rightarrow> 'f attempt_event list" where
  "own_events a es = List.map_filter (\<lambda>(b, e). case e of Op e' \<Rightarrow> if b = a then Some e' else None | _ \<Rightarrow> None) es"

definition ledger :: "transport_state \<Rightarrow> ledger" where
  "ledger t = (\<lambda>(ph, origin). map_of (phase_contributions t ph) origin)"

lemma note_contributions_public [simp]:
  "ts_public_contributions (note_contributions ph os started now t) = ts_public_contributions t"
  by (simp add: note_contributions_def)

lemma phase_contributions_update [simp]:
  "phase_contributions (t\<lparr>ts_public_contributions := AList.update ph cs m\<rparr>) ph' =
    (if ph' = ph then cs else phase_contributions (t\<lparr>ts_public_contributions := m\<rparr>) ph')"
  by (simp add: phase_contributions_def update_conv')

lemma phase_contributions_note [simp]:
  "phase_contributions (note_contributions ph os started now t) ph' = phase_contributions t ph'"
  by (simp add: phase_contributions_def)

lemma batch_conflict_None:
  "batch_conflict R cs = None \<longleftrightarrow> \<not> list_ex (\<lambda>(origin, c). map_of R origin \<noteq> None \<and> map_of R origin \<noteq> Some c) cs"
  by (induction cs) (auto split: option.splits if_splits)

lemma batch_insert_map_of:
  "map_of (fst (batch_insert R cs)) origin = (case map_of R origin of None \<Rightarrow> map_of cs origin | Some c \<Rightarrow> Some c)"
  by (induction R cs arbitrary: origin rule: batch_insert.induct)
    (auto simp: update_conv' split: prod.splits option.splits)

lemma conflicts_ledger: "conflicts (ledger t) ph cs \<longleftrightarrow> batch_conflict (phase_contributions t ph) cs \<noteq> None"
  by (simp add: conflicts_def ledger_def batch_conflict_None del: not_None_eq)

text \<open>The operations of the owning attempt refine the steps of the ledger.\<close>

lemma local_step_contribution:
  assumes "ts_attempt (st_transport st) = Some a"
  shows "ledger (st_transport (local_step a (EvContribution ph origin c started now) st)) =
    ledger_step (EvContribution ph origin c started now :: 'f attempt_event) (ledger (st_transport st))"
  using assms ts_attempt_id_Some [OF assms]
  by (auto simp: local_step_def record_public_contribution_def ledger_def update_conv' fun_eq_iff
      phase_contributions_def split: option.splits)

lemma local_step_batch:
  assumes "ts_attempt (st_transport st) = Some a"
  shows "ledger (st_transport (local_step a (EvBatch ph cs started now) st)) =
    ledger_step (EvBatch ph cs started now :: 'f attempt_event) (ledger (st_transport st))"
proof (cases "batch_conflict (phase_contributions (st_transport st) ph) cs")
  case None
  obtain R new where R: "batch_insert (phase_contributions (st_transport st) ph) cs = (R, new)" by fastforce
  then have R': "map_of R origin = (case map_of (phase_contributions (st_transport st) ph) origin of
      None \<Rightarrow> map_of cs origin | Some c \<Rightarrow> Some c)" for origin
    using batch_insert_map_of [of "phase_contributions (st_transport st) ph" cs origin] by simp
  have "\<not> conflicts (ledger (st_transport st)) ph cs" using None by (simp add: conflicts_ledger)
  then show ?thesis using None R ts_attempt_id_Some [OF assms]
    by (auto simp: local_step_def record_public_batch_def Let_def ledger_def R' fun_eq_iff split: option.splits)
next
  case (Some x)
  then have "conflicts (ledger (st_transport st)) ph cs" by (simp add: conflicts_ledger)
  then show ?thesis using Some ts_attempt_id_Some [OF assms]
    by (auto simp: local_step_def record_public_batch_def Let_def ledger_def fun_eq_iff split: prod.splits)
qed

lemma ledger_cong:
  "ts_public_contributions t' = ts_public_contributions t \<Longrightarrow> ledger t' = ledger t"
  by (simp add: ledger_def phase_contributions_def)

lemma local_step_ledger:
  assumes "ts_attempt (st_transport st) = Some a"
  shows "ledger (st_transport (local_step a e st)) = ledger_step e (ledger (st_transport st))"
proof (cases e)
  case EvContribution
  then show ?thesis using local_step_contribution [OF assms] by simp
next
  case EvBatch
  then show ?thesis using local_step_batch [OF assms] by simp
qed (simp_all only: ledger_step.simps,
    (rule ledger_cong, simp add: local_step_def operation_defs Let_def advance_def transition_phase_def
      record_received_share_def split: option.split prod.split transport_lifecycle.split)+)

section \<open>Histories refine the ledger\<close>

lemma contributions_of_owned:
  "session_of a m = Some st \<Longrightarrow> ts_attempt (st_transport st) = Some a \<Longrightarrow> contributions_of a m = ledger (st_transport st)"
  by (auto simp: contributions_of_def public_contributions_def with_state_def session_of_def if_attempt_def
      ts_attempt_id_Some ledger_def)

lemma own_events_Cons:
  "own_events a ((b, e) # es) = (case e of Op e' \<Rightarrow> if b = a then [e'] else [] | _ \<Rightarrow> []) @ own_events a es"
  by (cases e) (simp_all add: own_events_def List.map_filter_def)

lemma ledger_step_keeps: "L k = Some v \<Longrightarrow> ledger_step e L k = Some v"
  by (cases e) (auto split: prod.splits)

lemma ledger_run_keeps: "L k = Some v \<Longrightarrow> fold ledger_step es L k = Some v"
  by (induction es arbitrary: L) (simp_all add: ledger_step_keeps)

lemma ledger_manager_step:
  assumes "session_of a m = Some st" "ts_attempt (st_transport st) = Some a"
    and "session_of a (manager_step (b, e) m) = Some st'"
  shows "ts_attempt (st_transport st') = Some a \<and>
    ledger (st_transport st') = fold ledger_step (own_events a [(b, e)]) (ledger (st_transport st))"
proof (cases "b = a")
  case True
  show ?thesis
  proof (cases e)
    case (Op e')
    with True assms have "st' = local_step a e' st"
      by (auto simp: session_of_def attempt_step_local map_of_on_session)
    then show ?thesis using True Op assms(2)
      by (simp add: own_events_Cons own_events_def List.map_filter_def local_step_owner local_step_ledger)
  qed (use True assms in \<open>simp_all add: session_of_def remove_transport_attempt_def abort_transport_preparation_def
      Let_def delete_conv' ts_attempt_id_Some\<close>)
next
  case False
  with assms have "st' = st" using other_step [of a m b e] by (simp add: owned_by_def)
  then show ?thesis using False assms(2)
    by (cases e) (simp_all add: own_events_Cons own_events_def List.map_filter_def)
qed

lemma ledger_run:
  assumes "session_of a m = Some st" "ts_attempt (st_transport st) = Some a"
    and "session_of a (fold manager_step es m) = Some st'"
  shows "ts_attempt (st_transport st') = Some a \<and>
    ledger (st_transport st') = fold ledger_step (own_events a es) (ledger (st_transport st))"
  using assms
proof (induction es arbitrary: m st)
  case (Cons x es)
  obtain b e where x: "x = (b, e)" by (cases x)
  from Cons.prems(3) obtain st1 where st1: "session_of a (manager_step x m) = Some st1"
    using manager_run_forward by fastforce
  from ledger_manager_step [OF Cons.prems(1,2)] st1 x
  have one: "ts_attempt (st_transport st1) = Some a"
    "ledger (st_transport st1) = fold ledger_step (own_events a [(b, e)]) (ledger (st_transport st))" by auto
  have "own_events a (x # es) = own_events a [(b, e)] @ own_events a es"
    by (simp add: x own_events_Cons [of a b e es] own_events_Cons [of a b e "[]"]) (simp add: own_events_def List.map_filter_def)
  then show ?case using Cons.IH [OF st1 one(1)] Cons.prems(3) one(2) by simp
qed (simp add: own_events_def List.map_filter_def)

text \<open>
  C19: public contributions are a first-write-wins ledger.  Whatever happens on a node while an attempt
  owns its session, what is read back for the attempt is what the abstract ledger makes of the
  attempt's own contributions and batches in order: the first payload of an origin in a phase stands,
  later payloads of the origin change nothing, and a batch with a conflicting payload records nothing
  at all.  In particular a payload once recorded is never replaced.
\<close>

theorem contributions_refine_ledger:
  assumes "session_of a m = Some st" "ts_attempt (st_transport st) = Some a"
    and "session_of a (fold manager_step es m) = Some st'"
  shows "contributions_of a (fold manager_step es m) = fold ledger_step (own_events a es) (contributions_of a m) \<and>
    (\<forall>k v. contributions_of a m k = Some v \<longrightarrow> contributions_of a (fold manager_step es m) k = Some v)"
  using ledger_run [OF assms] contributions_of_owned [OF assms(1,2)] contributions_of_owned [OF assms(3)]
  by (simp add: ledger_run_keeps)

section \<open>Claims\<close>

text \<open>
  A claim protocol: while \<open>held\<close> holds of a piece of work it is not granted, and only the release of
  that piece of work ends it.
\<close>

locale exclusive_claim =
  fixes held :: "'k \<Rightarrow> 's \<Rightarrow> bool" and granted :: "'k \<Rightarrow> 's \<Rightarrow> bool"
    and step :: "'e \<Rightarrow> 's \<Rightarrow> 's" and releases :: "'k \<Rightarrow> 'e \<Rightarrow> bool"
  assumes held_step: "held k s \<Longrightarrow> \<not> releases k e \<Longrightarrow> held k (step e s)"
    and held_not_granted: "held k s \<Longrightarrow> \<not> granted k s"
begin

lemma held_run: "held k s \<Longrightarrow> list_all (\<lambda>e. \<not> releases k e) es \<Longrightarrow> held k (fold step es s)"
  by (induction es arbitrary: s) (simp_all add: held_step)

lemma not_granted_until_release:
  "held k s \<Longrightarrow> list_all (\<lambda>e. \<not> releases k e) es \<Longrightarrow> \<not> granted k (fold step es s)"
  using held_run held_not_granted by blast

end

text \<open>A property of the owned session, vacuous once it is removed.\<close>

definition in_session :: "attempt_key \<Rightarrow> (transport_state \<Rightarrow> bool) \<Rightarrow> ('f, 'g) manager \<Rightarrow> bool" where
  "in_session a P m \<longleftrightarrow> (\<forall>st. session_of a m = Some st \<longrightarrow> ts_attempt (st_transport st) = Some a \<and> P (st_transport st))"

lemma in_session_step:
  fixes m :: "('f, 'g) manager"
  assumes "in_session a P m"
    and keep: "\<And>e' (st :: ('f, 'g) session_state). x = (a, Op e') \<Longrightarrow> ts_attempt (st_transport st) = Some a \<Longrightarrow> P (st_transport st) \<Longrightarrow> P (st_transport (local_step a e' st))"
  shows "in_session a P (manager_step x m)"
proof (cases x)
  case (Pair b e)
  show ?thesis
  proof (cases "b = a")
    case True
    show ?thesis
    proof (cases e)
      case (Op e')
      have "P (st_transport (local_step a e' st))" if "ts_attempt (st_transport st) = Some a" "P (st_transport st)" for st :: "('f, 'g) session_state"
        using keep [of e' st] that True Op Pair by simp
      with assms(1) True Pair Op show ?thesis
        by (auto simp: in_session_def session_of_def attempt_step_local map_of_on_session local_step_owner)
    qed (use assms True Pair in \<open>auto simp: in_session_def session_of_def remove_transport_attempt_def
        abort_transport_preparation_def Let_def delete_conv' split: option.splits if_splits\<close>)
  next
    case False
    with assms(1) Pair show ?thesis using other_step [of a m b e] by (simp add: in_session_def owned_by_def)
  qed
qed

definition message_held :: "attempt_key \<Rightarrow> message_id \<Rightarrow> ('f, 'g) manager \<Rightarrow> bool" where
  "message_held a k = in_session a (\<lambda>t. k \<in> ts_processing_message_ids t \<or> k \<in> ts_processed_message_ids t)"

definition message_granted :: "attempt_key \<Rightarrow> message_id \<Rightarrow> ('f, 'g) manager \<Rightarrow> bool" where
  "message_granted a k m \<longleftrightarrow> snd (claim_transport_message (mg_states m) a k) = Claimed"

definition phase_held :: "attempt_key \<Rightarrow> public_phase \<Rightarrow> ('f, 'g) manager \<Rightarrow> bool" where
  "phase_held a k = in_session a (\<lambda>t. k \<in> ts_publishing_public_phases t \<or> k \<in> ts_published_public_phases t)"

definition phase_granted :: "attempt_key \<Rightarrow> public_phase \<Rightarrow> ('f, 'g) manager \<Rightarrow> bool" where
  "phase_granted a k m \<longleftrightarrow>
    (\<exists>n. snd (claim_public_phase_publish (mg_states m) (attempt_session_id a) (ak_attempt_id a) k n))"

lemmas other_fields = local_step_def operation_defs Let_def advance_def transition_phase_def
  record_received_share_def note_contributions_def

lemma local_step_messages:
  assumes "ts_attempt (st_transport st) = Some a" "e \<noteq> EvFinishMessage k False"
    and "k \<in> ts_processing_message_ids (st_transport st) \<or> k \<in> ts_processed_message_ids (st_transport st)"
  shows "k \<in> ts_processing_message_ids (st_transport (local_step a e st)) \<or>
    k \<in> ts_processed_message_ids (st_transport (local_step a e st))"
  using assms
proof (cases e)
  case (EvFinishMessage k' ok)
  with assms show ?thesis by (cases ok; cases "k' = k") (simp_all add: other_fields)
qed (simp_all add: other_fields split: option.split prod.split transport_lifecycle.split)

lemma local_step_phases:
  assumes "ts_attempt (st_transport st) = Some a" "e \<noteq> EvFinishPhase k False"
    and "k \<in> ts_publishing_public_phases (st_transport st) \<or> k \<in> ts_published_public_phases (st_transport st)"
  shows "k \<in> ts_publishing_public_phases (st_transport (local_step a e st)) \<or>
    k \<in> ts_published_public_phases (st_transport (local_step a e st))"
  using assms
proof (cases e)
  case (EvFinishPhase k' ok)
  with assms show ?thesis by (cases ok; cases "k' = k") (simp_all add: other_fields)
qed (simp_all add: other_fields split: option.split prod.split transport_lifecycle.split)

lemma message_granted_iff:
  "message_granted a k m \<longleftrightarrow> (\<exists>st. session_of a m = Some st \<and> ts_attempt (st_transport st) = Some a \<and>
    k \<notin> ts_processing_message_ids (st_transport st) \<and> k \<notin> ts_processed_message_ids (st_transport st))"
  by (auto simp: message_granted_def session_of_def claim_transport_message_def with_attempt_state_mut_def
      on_transport_def split: option.splits if_splits)

lemma phase_granted_iff:
  "phase_granted a k m \<longleftrightarrow> (\<exists>st. session_of a m = Some st \<and> ts_attempt_id (st_transport st) = Some (ak_attempt_id a) \<and>
    k \<notin> ts_publishing_public_phases (st_transport st) \<and> k \<notin> ts_published_public_phases (st_transport st))"
  by (auto simp: phase_granted_def session_of_def claim_public_phase_publish_def with_state_mut_def
      on_transport_def split: option.splits if_splits)

interpretation messages: exclusive_claim "message_held a" "message_granted a" "manager_step :: _ \<Rightarrow> ('f, 'g) manager \<Rightarrow> _"
  "\<lambda>k x. x = (a, Op (EvFinishMessage k False))"
  for a :: attempt_key
proof
  fix k and e :: "attempt_key \<times> 'f manager_event" and m :: "('f, 'g) manager"
  assume held: "message_held a k m" and e: "e \<noteq> (a, Op (EvFinishMessage k False))"
  show "message_held a k (manager_step e m)"
    unfolding message_held_def
    by (rule in_session_step [OF held [unfolded message_held_def]], rule local_step_messages) (use e in auto)
next
  fix k and m :: "('f, 'g) manager"
  assume "message_held a k m"
  then show "\<not> message_granted a k m"
    by (auto simp: message_held_def message_granted_iff in_session_def)
qed

interpretation phases: exclusive_claim "phase_held a" "phase_granted a" "manager_step :: _ \<Rightarrow> ('f, 'g) manager \<Rightarrow> _"
  "\<lambda>k x. x = (a, Op (EvFinishPhase k False))"
  for a :: attempt_key
proof
  fix k and e :: "attempt_key \<times> 'f manager_event" and m :: "('f, 'g) manager"
  assume held: "phase_held a k m" and e: "e \<noteq> (a, Op (EvFinishPhase k False))"
  show "phase_held a k (manager_step e m)"
    unfolding phase_held_def
    by (rule in_session_step [OF held [unfolded phase_held_def]], rule local_step_phases) (use e in auto)
next
  fix k and m :: "('f, 'g) manager"
  assume "phase_held a k m"
  then show "\<not> phase_granted a k m"
    by (auto simp: phase_held_def phase_granted_iff in_session_def)
qed

text \<open>A granted claim is held.\<close>

lemma session_of_Op: "session_of a (manager_step (a, Op e) m) = map_option (local_step a e) (session_of a m)"
  by (simp add: session_of_def attempt_step_local map_of_on_session del: attempt_step.simps)

lemma message_claim_held:
  assumes "message_granted a k m"
  shows "message_held a k (manager_step (a, Op (EvClaimMessage k)) m)"
proof -
  from assms obtain st where st: "session_of a m = Some st" "ts_attempt (st_transport st) = Some a"
    "k \<notin> ts_processing_message_ids (st_transport st)" "k \<notin> ts_processed_message_ids (st_transport st)"
    by (auto simp: message_granted_iff)
  then have "k \<in> ts_processing_message_ids (st_transport (local_step a (EvClaimMessage k) st))"
    by (simp add: other_fields)
  with st show ?thesis by (simp add: message_held_def in_session_def session_of_Op local_step_owner del: manager_step.simps)
qed

lemma phase_claim_held:
  assumes "snd (claim_public_phase_publish (mg_states m) (attempt_session_id a) (ak_attempt_id a) k n)"
    and "owned_by a (session_of a m)"
  shows "phase_held a k (manager_step (a, Op (EvClaimPhase k n)) m)"
proof -
  from assms(1) obtain st where st: "session_of a m = Some st" "length (phase_contributions (st_transport st) k) = n"
    "k \<notin> ts_publishing_public_phases (st_transport st)" "k \<notin> ts_published_public_phases (st_transport st)"
    by (auto simp: session_of_def claim_public_phase_publish_def with_state_mut_def
      on_transport_def split: option.splits if_splits)
  with assms(2) have o: "ts_attempt (st_transport st) = Some a" by (simp add: owned_by_def)
  with st have "k \<in> ts_publishing_public_phases (st_transport (local_step a (EvClaimPhase k n) st))"
    by (simp add: other_fields ts_attempt_id_Some)
  with st o show ?thesis by (simp add: phase_held_def in_session_def session_of_Op local_step_owner del: manager_step.simps)
qed


section \<open>Examples\<close>

definition ex_payload :: "nat \<Rightarrow> signed_payload" where
  "ex_payload n = \<lparr>sp_origin = [1], sp_signature = [2], sp_data = [word_of_nat n]\<rparr>"

definition ex_contributions :: "(attempt_key \<times> ref_scalar manager_event) list" where
  "ex_contributions =
    [(ex_attempt, Op (EvContribution Commitments (participant_current 1) (ex_payload 1) 1 1)),
     (ex_retry, Op (EvContribution Commitments (participant_current 2) (ex_payload 2) 2 2)),
     (ex_attempt, Op (EvContribution Commitments (participant_current 1) (ex_payload 3) 3 3))]"

lemma contributions_refine_ledger_witness:
  "contributions_of ex_attempt (fold manager_step ex_contributions ex_manager) =
    [(Commitments, participant_current 1) \<mapsto> ex_payload 1]"
proof -
  have retry: "ex_retry \<noteq> ex_attempt" by (simp add: ex_retry_def ex_attempt_def)
  then obtain st' where st': "session_of ex_attempt (fold manager_step ex_contributions ex_manager) = Some st'"
    by (simp add: ex_contributions_def session_of_op session_of_ex_manager other_step owned_by_def local_step_owner
        ex_session_attempt del: manager_step.simps)
  have "contributions_of ex_attempt ex_manager = Map.empty"
    by (simp add: contributions_of_owned [OF session_of_ex_manager ex_session_attempt] ledger_def
        phase_contributions_def ex_session_def reserve_def session_new_def transport_default_def fun_eq_iff)
  with contributions_refine_ledger [OF session_of_ex_manager ex_session_attempt st'] retry show ?thesis
    by (simp add: ex_contributions_def own_events_Cons) (simp add: own_events_def List.map_filter_def)
qed


end
