(* ===== verification/Ring_Ownership.thy ===== *)
theory Ring_Ownership
  imports Attempts Reference_Field
begin

text \<open>
  Rings and the ceremonies that work on them.  The manager records the owner of a ring in a map of its
  own, next to the sessions; the two are changed by starting a session, by taking it down and by the
  expiry sweep.  Here the two maps are shown to agree at all times.
\<close>

section \<open>Events that start and end sessions\<close>

datatype ('f, 'g) ring_event =
    Start attempt_key session_kind u32 nat nat dkg_role session_routing "'f reshare_params option" instant
  | Step attempt_key "'f manager_event"
  | Expire instant instant

fun ring_step :: "('f, 'g) ring_event \<Rightarrow> ('f, 'g) manager \<Rightarrow> ('f, 'g) manager" where
  "ring_step (Start a kind i t n role routing params now) m = fst (start_session m a kind i t n role routing params now)"
| "ring_step (Step a e) m = manager_step (a, e) m"
| "ring_step (Expire now inserted_at) m = fst (expire_sessions m [] now inserted_at)"

definition empty_manager :: "('f, 'g) manager" where
  "empty_manager = \<lparr>mg_states = [], mg_rings_pss = [], mg_ready = []\<rparr>"

text \<open>Session ids are derived from the ceremony, so an id determines the ring it works on.\<close>

fun names_ring :: "(u128 \<Rightarrow> string option) \<Rightarrow> ('f, 'g) ring_event \<Rightarrow> bool" where
  "names_ring ring_of (Start a kind _ _ _ _ _ _ _) \<longleftrightarrow> ring_key kind = ring_of (attempt_session_id a)"
| "names_ring ring_of _ \<longleftrightarrow> True"

section \<open>The two maps agree\<close>

text \<open>The session \<open>st\<close> under \<open>k\<close> is run by the attempt \<open>a\<close>.\<close>

definition runs :: "attempt_key \<Rightarrow> u128 \<Rightarrow> ('f, 'g) session_state \<Rightarrow> bool" where
  "runs a k st \<longleftrightarrow> ts_attempt (st_transport st) = Some a \<and> attempt_session_id a = k"

definition ring_inv :: "(u128 \<Rightarrow> string option) \<Rightarrow> ('f, 'g) manager \<Rightarrow> bool" where
  "ring_inv ring_of m \<longleftrightarrow>
    distinct (map fst (mg_states m)) \<and>
    (\<forall>k st. map_of (mg_states m) k = Some st \<longrightarrow>
      ring_key (st_kind st) = ring_of k \<and>
      (\<exists>a. runs a k st \<and> (\<forall>ring. ring_of k = Some ring \<longrightarrow> map_of (mg_rings_pss m) ring = Some (attempt_owner a)))) \<and>
    (\<forall>ring owner. map_of (mg_rings_pss m) ring = Some owner \<longrightarrow>
      (\<exists>k st a. map_of (mg_states m) k = Some st \<and> runs a k st \<and> owner = attempt_owner a \<and> ring_of k = Some ring))"

lemma attempt_owner_eq_iff [simp]: "attempt_owner a = attempt_owner b \<longleftrightarrow> a = b"
  by (auto simp: attempt_owner_def attempt_key_eq_iff)

lemma ring_invD:
  assumes "ring_inv ring_of m" "map_of (mg_states m) k = Some st"
  obtains a where "ring_key (st_kind st) = ring_of k" "runs a k st"
    "\<forall>ring. ring_of k = Some ring \<longrightarrow> map_of (mg_rings_pss m) ring = Some (attempt_owner a)"
  using assms unfolding ring_inv_def by blast

lemma ring_inv_backed:
  assumes "ring_inv ring_of m" "map_of (mg_rings_pss m) ring = Some owner"
  obtains k st a where "map_of (mg_states m) k = Some st" "runs a k st" "owner = attempt_owner a" "ring_of k = Some ring"
  using assms unfolding ring_inv_def by blast

lemma runs_unique: "runs a k st \<Longrightarrow> runs b k' st \<Longrightarrow> a = b"
  by (simp add: runs_def)

subsection \<open>Operations of an attempt\<close>

lemma local_step_kind [simp]: "st_kind (local_step a e st) = st_kind st"
  by (cases e) (simp_all add: local_step_def operation_defs Let_def transition_phase_def record_received_share_def
      set_participating_ids_def split: option.split prod.split transport_lifecycle.split)

lemma local_step_runs: "runs b k st \<Longrightarrow> runs b k (local_step a e st)"
  by (simp add: runs_def local_step_owner)

lemma distinct_on_session: "distinct (map fst s) \<Longrightarrow> distinct (map fst (on_session k f s))"
  by (simp add: on_session_def distinct_update split: option.split)

lemma ring_inv_sessions:
  assumes inv: "ring_inv ring_of m" and distinct: "distinct (map fst s)"
    and lookup: "\<And>k. map_of s k = map_option (g k) (map_of (mg_states m) k)"
    and kind: "\<And>k st. st_kind (g k st) = st_kind st" and runs: "\<And>a k st. runs a k st \<Longrightarrow> runs a k (g k st)"
  shows "ring_inv ring_of (m\<lparr>mg_states := s\<rparr>)"
  unfolding ring_inv_def
proof (intro conjI allI impI)
  fix k st
  assume "map_of (mg_states (m\<lparr>mg_states := s\<rparr>)) k = Some st"
  then obtain st0 where st0: "map_of (mg_states m) k = Some st0" "st = g k st0"
    by (auto simp: lookup)
  from inv st0(1) obtain a where a: "ring_key (st_kind st0) = ring_of k" "runs a k st0"
    "\<forall>ring. ring_of k = Some ring \<longrightarrow> map_of (mg_rings_pss m) ring = Some (attempt_owner a)"
    by (rule ring_invD)
  show "ring_key (st_kind st) = ring_of k" using a(1) st0(2) kind by simp
  show "\<exists>a. runs a k st \<and> (\<forall>ring. ring_of k = Some ring \<longrightarrow>
      map_of (mg_rings_pss (m\<lparr>mg_states := s\<rparr>)) ring = Some (attempt_owner a))"
    using a(3) runs [OF a(2)] st0(2) by (intro exI [of _ a]) simp
next
  fix ring owner
  assume "map_of (mg_rings_pss (m\<lparr>mg_states := s\<rparr>)) ring = Some owner"
  then have "map_of (mg_rings_pss m) ring = Some owner" by simp
  with inv obtain k st a where
    "map_of (mg_states m) k = Some st" "runs a k st" "owner = attempt_owner a" "ring_of k = Some ring"
    by (rule ring_inv_backed)
  then show "\<exists>k st a. map_of (mg_states (m\<lparr>mg_states := s\<rparr>)) k = Some st \<and> runs a k st \<and>
      owner = attempt_owner a \<and> ring_of k = Some ring"
    using lookup [of k] runs by (intro exI [of _ k] exI [of _ "g k st"] exI [of _ a]) simp
qed (use distinct in simp)

lemma ring_inv_op:
  assumes "ring_inv ring_of m"
  shows "ring_inv ring_of (m\<lparr>mg_states := attempt_step a e (mg_states m)\<rparr>)"
  using assms
proof (rule ring_inv_sessions)
  show "distinct (map fst (attempt_step a e (mg_states m)))"
    using assms by (simp add: attempt_step_local distinct_on_session ring_inv_def del: attempt_step.simps)
  show "map_of (attempt_step a e (mg_states m)) k =
      map_option (if k = attempt_session_id a then local_step a e else (\<lambda>st. st)) (map_of (mg_states m) k)" for k
    by (simp add: attempt_step_local map_of_on_session option.map_ident del: attempt_step.simps)
qed (auto intro: local_step_runs)

subsection \<open>Taking a session down\<close>

text \<open>The session under \<open>k\<close> goes, and with it its claim.\<close>

lemma ring_inv_remove:
  assumes inv: "ring_inv ring_of m" and st: "map_of (mg_states m) k = Some st" and a: "runs a k st"
    and states: "mg_states m' = AList.delete k (mg_states m)"
    and claims: "mg_rings_pss m' = (case ring_of k of Some ring \<Rightarrow> AList.delete ring (mg_rings_pss m) | None \<Rightarrow> mg_rings_pss m)"
  shows "ring_inv ring_of m'"
  unfolding ring_inv_def
proof (intro conjI allI impI)
  show "distinct (map fst (mg_states m'))" using inv by (simp add: states ring_inv_def distinct_delete)
next
  fix k' st'
  assume "map_of (mg_states m') k' = Some st'"
  then have lookup: "map_of (mg_states m) k' = Some st'" "k' \<noteq> k"
    by (auto simp: states delete_conv' split: if_splits)
  from inv lookup(1) obtain b where b: "ring_key (st_kind st') = ring_of k'" "runs b k' st'"
    "\<forall>ring. ring_of k' = Some ring \<longrightarrow> map_of (mg_rings_pss m) ring = Some (attempt_owner b)"
    by (rule ring_invD)
  from inv st obtain a' where a': "runs a' k st"
    "\<forall>ring. ring_of k = Some ring \<longrightarrow> map_of (mg_rings_pss m) ring = Some (attempt_owner a')"
    by (rule ring_invD)
  then have own: "map_of (mg_rings_pss m) ring = Some (attempt_owner a)" if "ring_of k = Some ring" for ring
    using a'(2) [rule_format, OF that] runs_unique [OF a'(1) a] by simp
  have "b \<noteq> a" using lookup(2) a b(2) by (auto simp: runs_def)
  then have other: "ring_of k \<noteq> Some ring" if "ring_of k' = Some ring" for ring
    using own [of ring] b(3) [rule_format, OF that] by auto
  have "map_of (mg_rings_pss m') ring = Some (attempt_owner b)" if "ring_of k' = Some ring" for ring
    using b(3) [rule_format, OF that] other [OF that] by (simp add: claims delete_conv' split: option.split)
  with b(2) show "\<exists>b. runs b k' st' \<and> (\<forall>ring. ring_of k' = Some ring \<longrightarrow> map_of (mg_rings_pss m') ring = Some (attempt_owner b))"
    by blast
  show "ring_key (st_kind st') = ring_of k'" by (rule b(1))
next
  fix ring owner
  assume "map_of (mg_rings_pss m') ring = Some owner"
  then have owner: "map_of (mg_rings_pss m) ring = Some owner" "ring_of k \<noteq> Some ring"
    by (auto simp: claims delete_conv' split: option.splits if_splits)
  from inv owner(1) obtain k' st' b where live:
    "map_of (mg_states m) k' = Some st'" "runs b k' st'" "owner = attempt_owner b" "ring_of k' = Some ring"
    by (rule ring_inv_backed)
  with owner(2) have "map_of (mg_states m') k' = Some st'" by (auto simp: states delete_conv')
  with live show "\<exists>k' st' b. map_of (mg_states m') k' = Some st' \<and> runs b k' st' \<and> owner = attempt_owner b \<and> ring_of k' = Some ring"
    by blast
qed

lemma ring_inv_finish_removed:
  assumes inv: "ring_inv ring_of m" and st: "map_of (mg_states m) k = Some st" and a: "runs a k st"
  shows "ring_inv ring_of (finish_removed_session (m\<lparr>mg_states := AList.delete k (mg_states m)\<rparr>) k st completed)"
  using assms
proof (rule ring_inv_remove)
  from inv st obtain a' where a': "ring_key (st_kind st) = ring_of k" "runs a' k st"
    "\<forall>ring. ring_of k = Some ring \<longrightarrow> map_of (mg_rings_pss m) ring = Some (attempt_owner a')"
    by (rule ring_invD)
  with a have "a' = a" by (simp add: runs_def)
  with a a' show "mg_rings_pss (finish_removed_session (m\<lparr>mg_states := AList.delete k (mg_states m)\<rparr>) k st completed) =
      (case ring_of k of Some ring \<Rightarrow> AList.delete ring (mg_rings_pss m) | None \<Rightarrow> mg_rings_pss m)"
    by (simp add: finish_removed_session_def Let_def runs_def unmark_ring_pss_for_attempt_def split: option.split)
qed simp

lemma ring_inv_manager_step:
  assumes inv: "ring_inv ring_of m"
  shows "ring_inv ring_of (manager_step (a, e) m)"
proof (cases e)
  case (Remove completed)
  show ?thesis
  proof (cases "map_of (mg_states m) (attempt_session_id a)")
    case (Some st)
    from inv Some obtain b where "runs b (attempt_session_id a) st" by (rule ring_invD)
    then show ?thesis using Remove Some ring_inv_finish_removed [OF inv Some] inv
      by (simp add: remove_transport_attempt_def Let_def)
  qed (simp add: Remove remove_transport_attempt_def inv)
next
  case AbortPreparation
  show ?thesis
  proof (cases "map_of (mg_states m) (attempt_session_id a)")
    case (Some st)
    from inv Some obtain b where "runs b (attempt_session_id a) st" by (rule ring_invD)
    then show ?thesis using AbortPreparation Some ring_inv_finish_removed [OF inv Some] inv
      by (simp add: abort_transport_preparation_def Let_def)
  qed (simp add: AbortPreparation abort_transport_preparation_def inv)
qed (simp add: ring_inv_op [OF inv] del: attempt_step.simps)

subsection \<open>The expiry sweep\<close>

definition frees :: "string \<Rightarrow> ring_pss_owner option \<Rightarrow> u128 \<times> ('f, 'g) session_state \<Rightarrow> bool" where
  "frees ring owner = (\<lambda>(k, st). ring_key (st_kind st) = Some ring \<and>
    owner = Some \<lparr>ow_session_id = k, ow_attempt_id = ts_attempt_id (st_transport st)\<rparr>)"

lemma clear_expired_claim_lookup:
  "map_of (clear_expired_claim x claims) ring = (if frees ring (map_of claims ring) x then None else map_of claims ring)"
  by (cases x) (auto simp: clear_expired_claim_def frees_def delete_conv' split: option.split)

lemma not_frees_None [simp]: "\<not> frees ring None x"
  by (cases x) (simp add: frees_def)

lemma clear_expired_claims_lookup:
  "map_of (fold clear_expired_claim rs claims) ring =
    (if list_ex (frees ring (map_of claims ring)) rs then None else map_of claims ring)"
proof (induction rs arbitrary: claims)
  case (Cons x rs)
  show ?case
  proof (cases "frees ring (map_of claims ring) x")
    case True
    then have "map_of (clear_expired_claim x claims) ring = None" by (simp add: clear_expired_claim_lookup)
    with True show ?thesis by (simp add: Cons.IH list_ex_iff)
  next
    case False
    then have "map_of (clear_expired_claim x claims) ring = map_of claims ring" by (simp add: clear_expired_claim_lookup)
    with False show ?thesis by (simp add: Cons.IH)
  qed
qed simp

lemma runs_owner: "runs a k st \<Longrightarrow> \<lparr>ow_session_id = k, ow_attempt_id = ts_attempt_id (st_transport st)\<rparr> = attempt_owner a"
  by (auto simp: runs_def attempt_owner_def ts_attempt_id_def)

lemma map_of_filter_distinct:
  "distinct (map fst s) \<Longrightarrow> map_of (filter P s) k = (case map_of s k of Some v \<Rightarrow> if P (k, v) then Some v else None | None \<Rightarrow> None)"
  by (induction s) (auto simp: map_of_eq_None_iff split: option.splits)

lemma expired_frees_iff:
  assumes inv: "ring_inv ring_of m" and st: "map_of (mg_states m) k = Some st" "runs a k st" "ring_of k = Some ring"
  shows "list_ex (frees ring (map_of (mg_rings_pss m) ring)) (filter (\<lambda>(_, st). session_expired now st) (mg_states m))
    \<longleftrightarrow> session_expired now st"
proof -
  have distinct: "distinct (map fst (mg_states m))" using inv by (simp add: ring_inv_def)
  from inv st(1) obtain b where b: "ring_key (st_kind st) = ring_of k" "runs b k st"
    "\<forall>ring. ring_of k = Some ring \<longrightarrow> map_of (mg_rings_pss m) ring = Some (attempt_owner b)"
    by (rule ring_invD)
  with st have owner: "map_of (mg_rings_pss m) ring = Some (attempt_owner a)" "ring_key (st_kind st) = Some ring"
    by (auto simp: runs_def)
  have only: "x = (k, st)" if "x \<in> set (mg_states m)" "frees ring (map_of (mg_rings_pss m) ring) x" for x
  proof -
    obtain k' st' where x: "x = (k', st')" by (cases x)
    have "k' = k" using that(2) owner(1) st(2) by (simp add: x frees_def attempt_owner_def runs_def)
    moreover have "map_of (mg_states m) k' = Some st'" using that(1) distinct by (simp add: x)
    ultimately show ?thesis using st(1) by (simp add: x)
  qed
  have own: "frees ring (map_of (mg_rings_pss m) ring) (k, st)"
    using owner runs_owner [OF st(2)] by (simp add: frees_def)
  have mem: "(k, st) \<in> set (mg_states m)" using st(1) by (rule map_of_SomeD)
  show ?thesis
  proof
    assume "list_ex (frees ring (map_of (mg_rings_pss m) ring)) (filter (\<lambda>(_, st). session_expired now st) (mg_states m))"
    then obtain x where "x \<in> set (mg_states m)" "frees ring (map_of (mg_rings_pss m) ring) x" "case x of (_, st) \<Rightarrow> session_expired now st"
      by (auto simp: list_ex_iff)
    then show "session_expired now st" using only by auto
  next
    assume "session_expired now st"
    then show "list_ex (frees ring (map_of (mg_rings_pss m) ring)) (filter (\<lambda>(_, st). session_expired now st) (mg_states m))"
      using own mem unfolding list_ex_iff by (intro bexI [of _ "(k, st)"]) simp_all
  qed
qed

lemma ring_inv_expire:
  assumes inv: "ring_inv ring_of m"
  shows "ring_inv ring_of (fst (expire_sessions m failed now inserted_at))"
proof -
  let ?m = "fst (expire_sessions m failed now inserted_at)"
  have distinct: "distinct (map fst (mg_states m))" using inv by (simp add: ring_inv_def)
  have states: "map_of (mg_states ?m) k = (case map_of (mg_states m) k of
      Some st \<Rightarrow> if session_expired now st then None else Some st | None \<Rightarrow> None)" for k
    by (simp add: expire_sessions_def Let_def map_of_filter_distinct [OF distinct] split: option.split)
  have claims: "map_of (mg_rings_pss ?m) ring =
      (if list_ex (frees ring (map_of (mg_rings_pss m) ring)) (filter (\<lambda>(_, st). session_expired now st) (mg_states m))
       then None else map_of (mg_rings_pss m) ring)" for ring
    by (simp add: expire_sessions_def Let_def clear_expired_claims_lookup)
  show ?thesis
    unfolding ring_inv_def
  proof (intro conjI allI impI)
    show "distinct (map fst (mg_states ?m))"
      using distinct by (simp add: expire_sessions_def Let_def distinct_map_filter)
  next
    fix k st
    assume "map_of (mg_states ?m) k = Some st"
    then have live: "map_of (mg_states m) k = Some st" "\<not> session_expired now st"
      by (auto simp: states split: option.splits if_splits)
    from inv live(1) obtain a where a: "ring_key (st_kind st) = ring_of k" "runs a k st"
      "\<forall>ring. ring_of k = Some ring \<longrightarrow> map_of (mg_rings_pss m) ring = Some (attempt_owner a)"
      by (rule ring_invD)
    show "ring_key (st_kind st) = ring_of k" by (rule a(1))
    have "map_of (mg_rings_pss ?m) ring = Some (attempt_owner a)" if "ring_of k = Some ring" for ring
      using a(3) that live(2) expired_frees_iff [OF inv live(1) a(2) that] by (simp add: claims)
    with a(2) show "\<exists>a. runs a k st \<and> (\<forall>ring. ring_of k = Some ring \<longrightarrow> map_of (mg_rings_pss ?m) ring = Some (attempt_owner a))"
      by blast
  next
    fix ring owner
    assume "map_of (mg_rings_pss ?m) ring = Some owner"
    then have owner: "map_of (mg_rings_pss m) ring = Some owner"
      "\<not> list_ex (frees ring (map_of (mg_rings_pss m) ring)) (filter (\<lambda>(_, st). session_expired now st) (mg_states m))"
      by (simp_all add: claims split: if_splits)
    from inv owner(1) obtain k st a where live:
      "map_of (mg_states m) k = Some st" "runs a k st" "owner = attempt_owner a" "ring_of k = Some ring"
      by (rule ring_inv_backed)
    with owner(2) have "map_of (mg_states ?m) k = Some st"
      using expired_frees_iff [OF inv live(1,2,4)] by (simp add: states)
    with live show "\<exists>k st a. map_of (mg_states ?m) k = Some st \<and> runs a k st \<and> owner = attempt_owner a \<and> ring_of k = Some ring"
      by blast
  qed
qed

subsection \<open>Starting a session\<close>

lemma coordinator_create_cases:
  fixes states :: "('f, 'g) sessions"
  assumes "map_of states (attempt_session_id a) = None"
  obtains (created) st where "coordinator_create_session states a i t n role (init_session kind routing params) now =
      (AList.update (attempt_session_id a) st states, Inr ())" "st_kind st = kind" "runs a (attempt_session_id a) st"
  | (failed) e where "coordinator_create_session states a i t n role (init_session kind routing params) now = (states, Inl e)"
      "e \<noteq> DkgSessionAlreadyExists"
proof (cases "dkg_new i t n (attempt_session_id a) role :: crypto_error + ('f, 'g) dkg_node")
  case (Inl e)
  then show ?thesis
    using failed [of "DkgInvalidParticipantCount 0"] failed [of "Crypto ''Failed to create DKG node: {}''"]
    by (cases "n = 0") (simp_all add: coordinator_create_session_def Let_def)
next
  case (Inr node)
  let ?st = "init_session kind routing params (reserve a (session_new node now))"
  have "st_kind ?st = kind" "runs a (attempt_session_id a) ?st"
    by (simp_all add: init_session_def reserve_def runs_def ts_attempt_def Let_def split: option.split)
  then show ?thesis using Inr assms created [of ?st] failed
    by (cases "n = 0"; cases "MAX_DKG_SESSIONS \<le> length states")
      (simp_all add: coordinator_create_session_def create_session_def Let_def)
qed

lemma ring_inv_add:
  assumes inv: "ring_inv ring_of m" and new: "map_of (mg_states m) k = None" and a: "runs a k st"
    and kind: "ring_key (st_kind st) = ring_of k" and free: "\<forall>ring. ring_of k = Some ring \<longrightarrow> map_of (mg_rings_pss m) ring = None"
    and states: "mg_states m' = AList.update k st (mg_states m)"
    and claims: "mg_rings_pss m' =
      (case ring_of k of Some ring \<Rightarrow> AList.update ring (attempt_owner a) (mg_rings_pss m) | None \<Rightarrow> mg_rings_pss m)"
  shows "ring_inv ring_of m'"
  unfolding ring_inv_def
proof (intro conjI allI impI)
  show "distinct (map fst (mg_states m'))" using inv by (simp add: states ring_inv_def distinct_update)
next
  fix k' st'
  assume lookup: "map_of (mg_states m') k' = Some st'"
  have "ring_key (st_kind st') = ring_of k' \<and> (\<exists>b. runs b k' st' \<and>
      (\<forall>ring. ring_of k' = Some ring \<longrightarrow> map_of (mg_rings_pss m') ring = Some (attempt_owner b)))"
  proof (cases "k' = k")
    case True
    with lookup have "st' = st" by (simp add: states update_conv')
    with True a kind show ?thesis by (auto simp: claims update_conv' split: option.split)
  next
    case False
    with lookup have "map_of (mg_states m) k' = Some st'" by (simp add: states update_conv')
    with inv obtain b where b: "ring_key (st_kind st') = ring_of k'" "runs b k' st'"
      "\<forall>ring. ring_of k' = Some ring \<longrightarrow> map_of (mg_rings_pss m) ring = Some (attempt_owner b)"
      by (rule ring_invD)
    have "map_of (mg_rings_pss m') ring = Some (attempt_owner b)" if "ring_of k' = Some ring" for ring
      using b(3) that free by (auto simp: claims update_conv' split: option.split)
    with b(1,2) show ?thesis by blast
  qed
  then show "ring_key (st_kind st') = ring_of k'" "\<exists>b. runs b k' st' \<and>
      (\<forall>ring. ring_of k' = Some ring \<longrightarrow> map_of (mg_rings_pss m') ring = Some (attempt_owner b))" by auto
next
  fix ring owner
  assume owner: "map_of (mg_rings_pss m') ring = Some owner"
  show "\<exists>k st a. map_of (mg_states m') k = Some st \<and> runs a k st \<and> owner = attempt_owner a \<and> ring_of k = Some ring"
  proof (cases "ring_of k = Some ring")
    case True
    with owner a show ?thesis
      by (intro exI [of _ k] exI [of _ st] exI [of _ a]) (simp add: claims states update_conv')
  next
    case False
    with owner have "map_of (mg_rings_pss m) ring = Some owner"
      by (auto simp: claims update_conv' split: option.splits if_splits)
    with inv obtain k' st' b where
      "map_of (mg_states m) k' = Some st'" "runs b k' st'" "owner = attempt_owner b" "ring_of k' = Some ring"
      by (rule ring_inv_backed)
    moreover from this new have "k' \<noteq> k" by auto
    ultimately show ?thesis
      by (intro exI [of _ k'] exI [of _ st'] exI [of _ b]) (simp add: states update_conv')
  qed
qed

text \<open>Only the contents of the two maps matter.\<close>

lemma ring_inv_cong:
  assumes "ring_inv ring_of m" "mg_states m' = mg_states m" "\<And>ring. map_of (mg_rings_pss m') ring = map_of (mg_rings_pss m) ring"
  shows "ring_inv ring_of m'"
  using assms(1) unfolding ring_inv_def assms(2,3) .

lemma ring_inv_start:
  assumes inv: "ring_inv ring_of m" and names: "ring_key kind = ring_of (attempt_session_id a)"
  shows "ring_inv ring_of (fst (start_session m a kind i t n role routing params now))"
proof (cases "map_of (mg_states m) (attempt_session_id a)")
  case None
  note create = coordinator_create_cases [OF None, of i t n role kind routing params now, case_names created failed]
  show ?thesis
  proof (cases "ring_of (attempt_session_id a)")
    case ring: None
    show ?thesis
    proof (cases rule: create)
      case (created st)
      then show ?thesis using None ring names
        by (intro ring_inv_add [OF inv None, of a st]) (simp_all add: start_session_def Let_def split: unit.split)
    next
      case (failed e)
      then show ?thesis using None ring names inv
        by (cases e) (simp_all add: start_session_def Let_def split: unit.split)
    qed
  next
    case ring: (Some r)
    show ?thesis
    proof (cases "map_of (mg_rings_pss m) r")
      case free: None
      show ?thesis
      proof (cases rule: create)
        case (created st)
        then show ?thesis using None ring names free
          by (intro ring_inv_add [OF inv None, of a st]) (simp_all add: start_session_def claim_ring_pss_attempt_def Let_def split: unit.split)
      next
        case (failed e)
        then have "start_session m a kind i t n role routing params now =
            (m\<lparr>mg_rings_pss := AList.delete r (AList.update r (attempt_owner a) (mg_rings_pss m))\<rparr>, Inl e)"
          using None ring names free
          by (cases e) (simp_all add: start_session_def claim_ring_pss_attempt_def Let_def
              unmark_ring_pss_for_attempt_def update_conv')
        then show ?thesis using free by (intro ring_inv_cong [OF inv]) (auto simp: delete_conv' update_conv')
      qed
    next
      case (Some owner)
      from inv Some obtain k st b where live:
        "map_of (mg_states m) k = Some st" "runs b k st" "owner = attempt_owner b" "ring_of k = Some r"
        by (rule ring_inv_backed)
      with None have "b \<noteq> a" by (auto simp: runs_def)
      then show ?thesis using ring names Some live(3) inv
        by (simp add: start_session_def claim_ring_pss_attempt_def Let_def) (simp add: attempt_owner_def)
    qed
  qed
next
  case (Some st)
  from inv Some obtain b where b: "runs b (attempt_session_id a) st"
    "\<forall>ring. ring_of (attempt_session_id a) = Some ring \<longrightarrow> map_of (mg_rings_pss m) ring = Some (attempt_owner b)"
    by (rule ring_invD)
  then show ?thesis using Some names inv
    by (cases "ring_of (attempt_session_id a)"; cases "b = a")
      (simp_all add: start_session_def claim_ring_pss_attempt_def Let_def, simp add: attempt_owner_def)
qed

subsection \<open>Every history\<close>

lemma ring_inv_empty: "ring_inv ring_of empty_manager"
  by (simp add: ring_inv_def empty_manager_def)

lemma ring_inv_step: "ring_inv ring_of m \<Longrightarrow> names_ring ring_of e \<Longrightarrow> ring_inv ring_of (ring_step e m)"
  by (cases e) (simp_all add: ring_inv_start ring_inv_manager_step ring_inv_expire del: attempt_session_id.simps)

lemma ring_inv_run: "ring_inv ring_of m \<Longrightarrow> list_all (names_ring ring_of) es \<Longrightarrow> ring_inv ring_of (fold ring_step es m)"
  by (induction es arbitrary: m) (simp_all add: ring_inv_step)

lemma ring_inv_active_session:
  assumes "ring_inv ring_of m"
  shows "active_ring_pss_session (mg_rings_pss m) ring = Some k \<longleftrightarrow>
    (\<exists>st. map_of (mg_states m) k = Some st \<and> ring_key (st_kind st) = Some ring)"
proof
  assume "active_ring_pss_session (mg_rings_pss m) ring = Some k"
  then obtain owner where owner: "map_of (mg_rings_pss m) ring = Some owner" "ow_session_id owner = k"
    by (auto simp: active_ring_pss_session_def)
  from assms owner(1) obtain k' st a where live:
    "map_of (mg_states m) k' = Some st" "runs a k' st" "owner = attempt_owner a" "ring_of k' = Some ring"
    by (rule ring_inv_backed)
  moreover from assms live(1) have "ring_key (st_kind st) = ring_of k'" by (rule ring_invD)
  moreover have "k' = k" using live(2,3) owner(2) by (simp add: runs_def attempt_owner_def)
  ultimately show "\<exists>st. map_of (mg_states m) k = Some st \<and> ring_key (st_kind st) = Some ring" by simp
next
  assume "\<exists>st. map_of (mg_states m) k = Some st \<and> ring_key (st_kind st) = Some ring"
  then obtain st where st: "map_of (mg_states m) k = Some st" "ring_key (st_kind st) = Some ring" by blast
  from assms st(1) obtain a where a: "ring_key (st_kind st) = ring_of k" "runs a k st"
    "\<forall>ring. ring_of k = Some ring \<longrightarrow> map_of (mg_rings_pss m) ring = Some (attempt_owner a)"
    by (rule ring_invD)
  with st(2) show "active_ring_pss_session (mg_rings_pss m) ring = Some k"
    by (simp add: active_ring_pss_session_def runs_def attempt_owner_def)
qed


text \<open>
  A second refresh of a ring is refused while the first lives, and the claim is free again once the
  first is aborted.
\<close>

definition ex_routing :: session_routing where
  "ex_routing = \<lparr>sr_node_id_to_peer_id = [(1, ''a''), (2, ''b'')], sr_peer_id_to_node_id = [(''a'', 1), (''b'', 2)],
    sr_reshare_new_node_id_to_peer_id = [], sr_reshare_new_peer_id_to_node_id = [], sr_peer_ids = [''a'', ''b''],
    sr_peer_node_keys = [''ka'', ''kb''], sr_ring_id = ''ring''\<rparr>"

definition ex_start :: "attempt_key \<Rightarrow> (ref_scalar, ref_scalar) ring_event" where
  "ex_start a = Start a (Refresh ''ring'') 1 2 2 Standard ex_routing None 0"


end
