(* ===== verification/Coordinator.thy ===== *)
theory Coordinator
  imports Lifecycle Session_Ids
begin

text \<open>
  The coordinator of key generation: the pure state machine that decides what a node does next, and
  the code the handlers run on a session while they hold its lock.  Each such closure is one function
  on the session; what happens between two closures of a handler (encoding, network, evidence for
  reports) is not part of the session.  A failing closure keeps what it wrote before the failure.
\<close>

section \<open>The state machine\<close>

datatype dkg_event =
    CommitmentHashRecorded
  | CommitmentRecorded
  | ShareRecorded u32
  | ReshareParticipantSetAccepted
  | Phase2SharesDistributed u32
  | ReadinessChanged

fun evaluates_phase4 :: "dkg_event \<Rightarrow> bool" where
  "evaluates_phase4 (ShareRecorded _) = True"
| "evaluates_phase4 ReshareParticipantSetAccepted = True"
| "evaluates_phase4 ReadinessChanged = True"
| "evaluates_phase4 _ = False"

datatype dkg_command =
    RevealCommitment
  | InitiatePhase2Shares
  | AckValidReshareShare u32
  | CompletePhase4

record state_transition =
  tr_next_phase :: "dkg_phase option"
  tr_commands :: "dkg_command list"

record session_snapshot =
  sn_kind :: session_kind
  sn_phase :: dkg_phase
  sn_role :: dkg_role
  sn_node_id :: u32
  sn_total_nodes :: nat
  sn_threshold :: nat
  sn_has_polynomial :: bool
  sn_commitment_hashes_received :: nat
  sn_hash_broadcast_complete :: bool
  sn_commitments_received :: nat
  sn_shares_received :: nat
  sn_reshare_selected_dealers :: bool
  sn_secret_share_available :: bool
  sn_aggregate_public_key_available :: bool

definition phase1_expected_commitments :: "session_snapshot \<Rightarrow> nat option" where
  "phase1_expected_commitments s =
    (if kind_is_reshare (sn_kind s) then None
     else Some (if sn_role s = Receiver then sn_total_nodes s else sn_total_nodes s - 1))"

definition phase4_expected_shares :: "session_snapshot \<Rightarrow> nat" where
  "phase4_expected_shares s = (if sn_role s = Receiver then sn_total_nodes s else sn_total_nodes s - 1)"

definition should_initiate_phase2 :: "session_snapshot \<Rightarrow> bool" where
  "should_initiate_phase2 s =
    (if kind_is_fresh (sn_kind s) \<and> sn_phase s \<in> {Initializing, Phase0CommitmentHashes} then False
     else if sn_phase s \<in> {Phase2Shares, Phase4Completing, Phase4Complete} then False
     else if sn_role s \<noteq> Receiver \<and> \<not> sn_has_polynomial s then False
     else if sn_role s = Receiver then False
     else case phase1_expected_commitments s of
            Some expected \<Rightarrow> expected \<le> sn_commitments_received s
          | None \<Rightarrow> False)"

definition should_reveal_commitment :: "session_snapshot \<Rightarrow> bool" where
  "should_reveal_commitment s \<longleftrightarrow>
    kind_is_fresh (sn_kind s) \<and> sn_phase s = Phase0CommitmentHashes \<and> sn_role s \<noteq> Receiver \<and>
    sn_has_polynomial s \<and> sn_hash_broadcast_complete s \<and>
    sn_total_nodes s - 1 \<le> sn_commitment_hashes_received s"

definition should_ack_valid_reshare_share :: "session_snapshot \<Rightarrow> bool" where
  "should_ack_valid_reshare_share s \<longleftrightarrow>
    kind_is_reshare (sn_kind s) \<and> sn_role s \<in> {Receiver, DealerReceiver}"

definition should_complete_phase4 :: "session_snapshot \<Rightarrow> bool" where
  "should_complete_phase4 s =
    (if sn_phase s \<in> {Phase4Completing, Phase4Complete} then False
     else if kind_is_reshare (sn_kind s) \<and> sn_role s \<in> {Receiver, DealerReceiver}
     then sn_reshare_selected_dealers s \<and> sn_secret_share_available s \<and> sn_aggregate_public_key_available s
     else phase4_expected_shares s \<le> sn_shares_received s \<and>
          sn_secret_share_available s \<and> sn_aggregate_public_key_available s)"

definition push_phase4_if_ready :: "session_snapshot \<Rightarrow> state_transition \<Rightarrow> state_transition" where
  "push_phase4_if_ready s t =
    (if should_complete_phase4 s
     then t\<lparr>tr_next_phase := Some Phase4Completing, tr_commands := tr_commands t @ [CompletePhase4]\<rparr>
     else t)"

definition no_transition :: state_transition where
  "no_transition = \<lparr>tr_next_phase = None, tr_commands = []\<rparr>"

fun transition :: "session_snapshot \<Rightarrow> dkg_event \<Rightarrow> state_transition" where
  "transition s CommitmentHashRecorded =
    (if should_reveal_commitment s
     then \<lparr>tr_next_phase = Some Phase1Commitments, tr_commands = [RevealCommitment]\<rparr> else no_transition)"
| "transition s CommitmentRecorded =
    (if should_initiate_phase2 s
     then \<lparr>tr_next_phase = Some Phase2Shares, tr_commands = [InitiatePhase2Shares]\<rparr> else no_transition)"
| "transition s (ShareRecorded from_node_id) =
    push_phase4_if_ready s
      (if should_ack_valid_reshare_share s
       then no_transition\<lparr>tr_commands := [AckValidReshareShare from_node_id]\<rparr> else no_transition)"
| "transition s ReshareParticipantSetAccepted = push_phase4_if_ready s no_transition"
| "transition s ReadinessChanged = push_phase4_if_ready s no_transition"
| "transition s (Phase2SharesDistributed local_node_id) =
    (let t = (if sn_role s = DealerReceiver
              then no_transition\<lparr>tr_commands := [AckValidReshareShare local_node_id]\<rparr> else no_transition)
     in if sn_role s = Dealer
        then t\<lparr>tr_next_phase := Some Phase4Completing, tr_commands := tr_commands t @ [CompletePhase4]\<rparr>
        else t)"

text \<open>\<open>claim_transition\<close>: the snapshot, the decision and the change of phase under one lock.\<close>

definition is_ok :: "'e + 'a \<Rightarrow> bool" where
  "is_ok r = (case r of Inr _ \<Rightarrow> True | Inl _ \<Rightarrow> False)"

definition has_polynomial :: "('f, 'g) session_state \<Rightarrow> bool" where
  "has_polynomial st \<longleftrightarrow> coefficients (nd_commitment (st_node st)) \<noteq> []"

definition snapshot ::
  "('f::field, 'g::ab_group_add) backend \<Rightarrow> dkg_event \<Rightarrow> ('f, 'g) session_state \<Rightarrow> session_snapshot" where
  "snapshot B event st =
    \<lparr>sn_kind = st_kind st, sn_phase = st_phase st, sn_role = nd_role (st_node st), sn_node_id = nd_id (st_node st),
     sn_total_nodes = nd_total_nodes (st_node st), sn_threshold = nd_threshold (st_node st),
     sn_has_polynomial = has_polynomial st,
     sn_commitment_hashes_received = length (st_received_hashes st),
     sn_hash_broadcast_complete = st_own_hash_broadcast_complete st,
     sn_commitments_received = st_commitments_received st, sn_shares_received = st_shares_received st,
     sn_reshare_selected_dealers = (rs_selected_dealers (st_reshare st) \<noteq> None),
     sn_secret_share_available = (evaluates_phase4 event \<and> is_ok (compute_secret_share (st_node st))),
     sn_aggregate_public_key_available =
       (evaluates_phase4 event \<and> is_ok (compute_aggregate_public_key B (st_node st)))\<rparr>"

definition claim_transition ::
  "('f::field, 'g::ab_group_add) backend \<Rightarrow> dkg_event \<Rightarrow> instant \<Rightarrow> ('f, 'g) session_state
    \<Rightarrow> ('f, 'g) session_state \<times> state_transition" where
  "claim_transition B event now st =
    (let t = transition (snapshot B event st) event
     in (case tr_next_phase t of Some phase \<Rightarrow> transition_phase phase now st | None \<Rightarrow> st, t))"

section \<open>The polynomial\<close>

text \<open>
  \<open>DkgSessionState::generate_polynomial\<close>.  The mode is derived from the kind; for a reshare the old
  share is taken out of the session first, whether or not the polynomial can be generated.
\<close>

definition session_mode :: "('f, 'g) session_state \<Rightarrow> ('f, 'g) session_state \<times> (dkg_error + 'f dkg_mode)" where
  "session_mode st =
    (case st_kind st of
       session_kind.Fresh \<Rightarrow> (st, Inr dkg_mode.Fresh)
     | session_kind.FreshPet _ \<Rightarrow> (st, Inr dkg_mode.Fresh)
     | session_kind.Refresh _ \<Rightarrow> (st, Inr dkg_mode.Refresh)
     | session_kind.RefreshPet _ \<Rightarrow> (st, Inr dkg_mode.Refresh)
     | _ \<Rightarrow>
         (case rs_params (st_reshare st) of
            None \<Rightarrow> (st, Inl (Generic ''Reshare session is missing reshare_params''))
          | Some p \<Rightarrow>
              (case rp_old_share p of
                 None \<Rightarrow> (st, Inl (Generic ''Reshare: Receiver nodes cannot generate a polynomial''))
               | Some old_share \<Rightarrow>
                   (st\<lparr>st_reshare := (st_reshare st)\<lparr>rs_params := Some (p\<lparr>rp_old_share := None\<rparr>)\<rparr>\<rparr>,
                    Inr (dkg_mode.Reshare old_share (rp_participating_ids p) (rp_new_threshold p)
                      (rp_new_total_nodes p) (rp_new_node_id p))))))"

definition session_generate_polynomial ::
  "('f::field, 'g::ab_group_add) backend \<Rightarrow> bytes \<Rightarrow> ('f, 'g) session_state
    \<Rightarrow> (('f, 'g) session_state \<times> (dkg_error + unit) \<times> bytes) option" where
  "session_generate_polynomial B rng st =
    (case session_mode st of
       (st, Inl e) \<Rightarrow> Some (st, Inl e, rng)
     | (st, Inr mode) \<Rightarrow>
         (case generate_polynomial B mode rng (st_node st) of
            None \<Rightarrow> None
          | Some (Inl e, rng) \<Rightarrow> Some (st, Inl (Crypto ''Failed to generate polynomial: {}''), rng)
          | Some (Inr node, rng) \<Rightarrow> Some (st\<lparr>st_node := node\<rparr>, Inr (), rng)))"

text \<open>The polynomial is generated unless it is there already.\<close>

definition ensure_polynomial ::
  "('f::field, 'g::ab_group_add) backend \<Rightarrow> bytes \<Rightarrow> ('f, 'g) session_state
    \<Rightarrow> (('f, 'g) session_state \<times> (dkg_error + unit) \<times> bytes) option" where
  "ensure_polynomial B rng st =
    (if has_polynomial st then Some (st, Inr (), rng) else session_generate_polynomial B rng st)"

text \<open>What the phases have in common: the polynomial first, then a value read off the session.\<close>

definition with_polynomial ::
  "('f::field, 'g::ab_group_add) backend \<Rightarrow> bytes \<Rightarrow> ('f, 'g) session_state
    \<Rightarrow> (('f, 'g) session_state \<Rightarrow> bytes \<Rightarrow> (dkg_error + 'r) option) \<Rightarrow> (('f, 'g) session_state \<times> (dkg_error + 'r)) option" where
  "with_polynomial B rng st k =
    Option.bind (ensure_polynomial B rng st) (\<lambda>(st, r, rng).
      case r of Inl e \<Rightarrow> Some (st, Inl e) | Inr _ \<Rightarrow> map_option (Pair st) (k st rng))"

definition commitment_bytes :: "('f, 'g) backend \<Rightarrow> ('f, 'g) session_state \<Rightarrow> bytes" where
  "commitment_bytes B st = serialize_commitment_coefficients B (coefficients (nd_commitment (st_node st)))"

section \<open>The phases\<close>

text \<open>Phase 0 of a fresh key: the hash of the commitment this node will reveal.\<close>

definition phase0_commitment_hash ::
  "('f::field, 'g::ab_group_add) backend \<Rightarrow> attempt_key \<Rightarrow> bytes \<Rightarrow> ('f, 'g) session_state
    \<Rightarrow> (('f, 'g) session_state \<times> (dkg_error + bytes)) option" where
  "phase0_commitment_hash B attempt rng st =
    (if \<not> kind_is_fresh (st_kind st)
     then Some (st, Inl (ProtocolError ''Commitment hash pre-round is only valid for Fresh DKG''))
     else if nd_role (st_node st) = Receiver
     then Some (st, Inl (ProtocolError ''Fresh DKG receiver cannot broadcast a commitment hash''))
     else with_polynomial B rng st (\<lambda>st _.
       Some (Inr (fresh_commitment_hash B (attempt_session_id attempt) (nd_id (st_node st)) (commitment_bytes B st)))))"

text \<open>Phase 1: the two reads that may refuse to start it, and the commitment to publish.\<close>

definition phase1_already_started :: "('f, 'g) session_state \<Rightarrow> bool" where
  "phase1_already_started st \<longleftrightarrow> st_phase st \<in> {Phase2Shares, Phase4Completing, Phase4Complete}"

definition phase1_permitted :: "('f, 'g) session_state \<Rightarrow> bool" where
  "phase1_permitted st \<longleftrightarrow>
    \<not> (kind_is_reshare (st_kind st) \<and> nd_role (st_node st) = Receiver) \<and>
    \<not> (kind_is_fresh (st_kind st) \<and> st_phase st \<in> {Initializing, Phase0CommitmentHashes})"

definition phase1_commitment ::
  "('f::field, 'g::ab_group_add) backend \<Rightarrow> bytes \<Rightarrow> ('f, 'g) session_state
    \<Rightarrow> (('f, 'g) session_state \<times> (dkg_error + bytes)) option" where
  "phase1_commitment B rng st = with_polynomial B rng st (\<lambda>st _. Some (Inr (commitment_bytes B st)))"

text \<open>Phase 2: the shares to deal.\<close>

definition phase2_shares ::
  "('f::field, 'g::ab_group_add) backend \<Rightarrow> bytes \<Rightarrow> ('f, 'g) session_state
    \<Rightarrow> (('f, 'g) session_state \<times> (dkg_error + 'f distributed_share list \<times> bytes)) option" where
  "phase2_shares B rng st = with_polynomial B rng st (\<lambda>st rng.
    map_option (\<lambda>(r, _). case r of
        Inl e \<Rightarrow> Inl (Crypto ''Failed to generate shares: {}'')
      | Inr shares \<Rightarrow> Inr (shares, commitment_bytes B st)) (generate_shares (st_node st) rng))"

text \<open>
  Whom a dealt share goes to: nobody when it is this node's own share, and otherwise the peer of that
  index, which must be known.
\<close>

definition share_target :: "('f, 'g) session_state \<Rightarrow> 'f distributed_share \<Rightarrow> dkg_error + string option" where
  "share_target st share =
    (let is_reshare = kind_is_reshare (st_kind st);
         own = (case rs_params (st_reshare st) of Some p \<Rightarrow> rp_new_node_id p | None \<Rightarrow> None);
         routes = (if is_reshare
                   then (case rs_params (st_reshare st) of
                           Some _ \<Rightarrow> sr_reshare_new_node_id_to_peer_id (st_routing st) | None \<Rightarrow> [])
                   else sr_node_id_to_peer_id (st_routing st))
     in if \<not> is_reshare \<and> ds_to_id share = nd_id (st_node st) then Inr None
        else if is_reshare \<and> Some (ds_to_id share) = own then Inr None
        else case map_of routes (ds_to_id share) of
               Some peer \<Rightarrow> Inr (Some peer)
             | None \<Rightarrow> Inl (ProtocolError ''Missing peer mapping for node_id {}; refusing to route private share''))"

section \<open>Commitment hashes\<close>

datatype hash_outcome = HashRecorded | HashDuplicateSame | HashMismatch bytes

definition record_commitment_hash ::
  "u32 \<Rightarrow> bytes \<Rightarrow> ('f, 'g) session_state \<Rightarrow> ('f, 'g) session_state \<times> (dkg_error + hash_outcome)" where
  "record_commitment_hash from_node_id commitment_hash st =
    (if \<not> kind_is_fresh (st_kind st)
     then (st, Inl (ProtocolError ''CommitmentHash is only valid for Fresh DKG sessions''))
     else case map_of (st_received_hashes st) from_node_id of
            Some existing \<Rightarrow> (st, Inr (if existing = commitment_hash then HashDuplicateSame else HashMismatch existing))
          | None \<Rightarrow>
              (st\<lparr>st_received_hashes := AList.update from_node_id commitment_hash (st_received_hashes st)\<rparr>,
               Inr HashRecorded))"

section \<open>Commitments\<close>

definition MAX_COMMITMENT_COEFFICIENTS :: nat where
  "MAX_COMMITMENT_COEFFICIENTS = 256"

definition kind_is_refresh :: "session_kind \<Rightarrow> bool" where
  "kind_is_refresh k = (case k of session_kind.Refresh _ \<Rightarrow> True | RefreshPet _ \<Rightarrow> True | _ \<Rightarrow> False)"

datatype 'g prepared_commitment =
    WaitingForHash
  | Ready "'g polynomial_commitment" bool bool

text \<open>
  \<open>prepare_commitment_message\<close>: every check a commitment passes before it is recorded, against the
  session as it is read.  \<open>evidence\<close> is the verdict on the signed report evidence that came with the
  commitment; reports about invalid commitments are left out.
\<close>

definition prepare_commitment_message ::
  "('f::field, 'g::ab_group_add) backend \<Rightarrow> attempt_key \<Rightarrow> u32 \<Rightarrow> bytes \<Rightarrow> (dkg_error + unit) \<Rightarrow> bytes option
    \<Rightarrow> ('f, 'g) session_state \<Rightarrow> dkg_error + 'g prepared_commitment" where
  "prepare_commitment_message B attempt from_node_id commitment evidence expected_hash_override st =
    (let num_coefficients = length commitment div GROUP_POINT_SIZE;
         is_fresh = kind_is_fresh (st_kind st);
         expected_hash = (case expected_hash_override of
                            Some h \<Rightarrow> Some h | None \<Rightarrow> map_of (st_received_hashes st) from_node_id)
     in if commitment = [] then Inl (CommitmentVerificationFailed ''Commitment cannot be empty'')
        else if length commitment mod GROUP_POINT_SIZE \<noteq> 0
        then Inl (CommitmentVerificationFailed ''Invalid commitment length: {} bytes is not a multiple of {} (G1 compressed size)'')
        else if MAX_COMMITMENT_COEFFICIENTS < num_coefficients
        then Inl (CommitmentVerificationFailed ''Too many commitment coefficients: {} exceeds maximum {}'')
        else if num_coefficients \<noteq> expected_commitment_size st
        then Inl (CommitmentVerificationFailed ''Invalid number of commitment coefficients: got {}, expected {}'')
        else if is_fresh \<and> expected_hash \<noteq> None \<and>
          expected_hash \<noteq> Some (fresh_commitment_hash B (attempt_session_id attempt) from_node_id commitment)
        then Inl (CommitmentVerificationFailed ''Fresh commitment from node {} does not match its commitment hash'')
        else
          rbind evidence (\<lambda>_.
          rbind (traverse (\<lambda>chunk. map_err (Deserialization ''Failed to deserialize commitment coefficient {}: {}'')
                   (element_from_bytes B chunk))
                 (as_chunks GROUP_POINT_SIZE num_coefficients commitment)) (\<lambda>coeffs.
          let C = \<lparr>coefficients = coeffs\<rparr>
          in if kind_is_refresh (st_kind st) \<and> \<not> constant_term_is_identity C
             then Inl (CommitmentVerificationFailed ''Refresh commitment from node {} has a non-identity constant term'')
             else
               rbind (map_err (Crypto ''Failed to receive commitment: {}'')
                       (receive_commitment from_node_id C (st_node st))) (\<lambda>_.
               if is_fresh \<and> expected_hash = None then Inr WaitingForHash
               else Inr (Ready C is_fresh (kind_is_reshare (st_kind st)))))))"

text \<open>The check of a hash that arrives, together with the commitment that may be waiting for it.\<close>

definition preflight_commitment_hash ::
  "('f::field, 'g::ab_group_add) backend \<Rightarrow> attempt_key \<Rightarrow> u32 \<Rightarrow> bytes \<Rightarrow> (dkg_error + unit)
    \<Rightarrow> ('f, 'g) session_state \<Rightarrow> dkg_error + unit" where
  "preflight_commitment_hash B attempt from_node_id commitment_hash evidence st =
    (if \<not> kind_is_fresh (st_kind st)
     then Inl (ProtocolError ''CommitmentHash is only valid for Fresh DKG sessions'')
     else
       let existing = map_of (st_received_hashes st) from_node_id
       in if existing \<noteq> None \<and> existing \<noteq> Some commitment_hash
          then Inl (CommitmentVerificationFailed ''Fresh commitment hash mismatch from node {}'')
          else case map_of (st_pending_commitments st) from_node_id of
                 None \<Rightarrow> Inr ()
               | Some commitment \<Rightarrow>
                   rbind (prepare_commitment_message B attempt from_node_id commitment evidence
                           (Some commitment_hash) st) (\<lambda>_. Inr ()))"

definition queue_commitment :: "u32 \<Rightarrow> bytes \<Rightarrow> ('f, 'g) session_state \<Rightarrow> ('f, 'g) session_state \<times> bool" where
  "queue_commitment from_node_id commitment st =
    (if map_of (st_pending_commitments st) from_node_id \<noteq> None then (st, False)
     else (st\<lparr>st_pending_commitments := AList.update from_node_id commitment (st_pending_commitments st)\<rparr>, True))"

definition unqueue_commitment :: "u32 \<Rightarrow> ('f, 'g) session_state \<Rightarrow> ('f, 'g) session_state" where
  "unqueue_commitment from_node_id st =
    st\<lparr>st_pending_commitments := AList.delete from_node_id (st_pending_commitments st)\<rparr>"

text \<open>Recording a prepared commitment; the result says whether this node must now generate its own.\<close>

definition record_commitment ::
  "u32 \<Rightarrow> 'g polynomial_commitment \<Rightarrow> bool \<Rightarrow> ('f, 'g) session_state \<Rightarrow> ('f, 'g) session_state \<times> (dkg_error + bool)" where
  "record_commitment from_node_id C is_fresh st =
    (let generates_polynomial = (nd_role (st_node st) \<noteq> Receiver)
     in if is_fresh \<and> generates_polynomial \<and> \<not> has_polynomial st
        then (st, Inl (ProtocolError ''Fresh commitment arrived before local commitment hash was prepared''))
        else case receive_commitment from_node_id C (st_node st) of
               Inl e \<Rightarrow> (st, Inl (Crypto ''Failed to receive commitment: {}''))
             | Inr node \<Rightarrow>
                 (st\<lparr>st_node := node, st_commitments_received := st_commitments_received st + 1\<rparr>,
                  Inr (\<not> is_fresh \<and> generates_polynomial \<and> \<not> has_polynomial st)))"

definition generate_on_first_commitment ::
  "('f::field, 'g::ab_group_add) backend \<Rightarrow> bytes \<Rightarrow> ('f, 'g) session_state
    \<Rightarrow> (('f, 'g) session_state \<times> (dkg_error + bool)) option" where
  "generate_on_first_commitment B rng st =
    (if has_polynomial st then Some (st, Inr False)
     else case session_generate_polynomial B rng st of
            None \<Rightarrow> None
          | Some (st, Inl e, _) \<Rightarrow> Some (st, Inl e)
          | Some (st, Inr _, _) \<Rightarrow> Some (st, Inr True))"

section \<open>Shares\<close>

text \<open>The index under which this node takes shares, and the shares it ignores.\<close>

definition share_recipient :: "('f, 'g) session_state \<Rightarrow> dkg_error + u32" where
  "share_recipient st =
    (case rs_params (st_reshare st) of
       Some p \<Rightarrow>
         ok_or (ShareVerificationFailed
           ''Reshare share received but this node is a pure Dealer with no new-committee assignment'') (rp_new_node_id p)
     | None \<Rightarrow> Inr (nd_id (st_node st)))"

definition ignores_dealer :: "u32 \<Rightarrow> ('f, 'g) session_state \<Rightarrow> bool" where
  "ignores_dealer from_node_id st \<longleftrightarrow>
    (case st_kind st of session_kind.Reshare _ _ _ _ \<Rightarrow> True | _ \<Rightarrow> False) \<and>
    (case rs_selected_dealers (st_reshare st) of Some selected \<Rightarrow> from_node_id \<notin> set selected | None \<Rightarrow> False)"

definition try_receive_share ::
  "('f::field, 'g::ab_group_add) backend \<Rightarrow> 'f distributed_share \<Rightarrow> ('f, 'g) session_state
    \<Rightarrow> ('f, 'g) session_state \<times> unit result" where
  "try_receive_share B share st =
    (let (node, r) = receive_share B share (st_node st) in (st\<lparr>st_node := node\<rparr>, r))"

text \<open>
  \<open>accept_share_message\<close>, run without interruption.  \<open>evidence\<close> is the verdict on the signed evidence
  that came with the share: an error, or whether there is evidence that proves the share invalid.  The
  result is whether the share was accepted.
\<close>

definition accept_share_message ::
  "('f::field, 'g::ab_group_add) backend \<Rightarrow> attempt_key \<Rightarrow> u32 \<Rightarrow> u32 \<Rightarrow> bytes \<Rightarrow> bytes \<Rightarrow> (dkg_error + bool)
    \<Rightarrow> ('f, 'g) session_state \<Rightarrow> ('f, 'g) session_state \<times> (dkg_error + bool)" where
  "accept_share_message B attempt from_node_id to_node_id share_value nonce evidence st =
    (case share_recipient st of
       Inl e \<Rightarrow> (st, Inl e)
     | Inr our_node_id \<Rightarrow>
         if to_node_id \<noteq> our_node_id
         then (st, Inl (ShareVerificationFailed ''Share intended for node {}, but we are node {}''))
         else if ignores_dealer from_node_id st then (st, Inr False)
         else case fr_from_bytes B share_value of
                Inl e \<Rightarrow>
                  (st, rbind evidence (\<lambda>proves.
                         if proves then Inr False else Inl (Deserialization ''Failed to deserialize share value: {}'')))
              | Inr value \<Rightarrow>
                  (case evidence of
                     Inl e \<Rightarrow> (st, Inl e)
                   | Inr proves \<Rightarrow>
                       let share = \<lparr>ds_from_id = from_node_id, ds_to_id = to_node_id, ds_value = value,
                             ds_nonce = nonce, ds_session_id = attempt_session_id attempt\<rparr>
                       in case try_receive_share B share st of
                            (st, Inr _) \<Rightarrow> (record_received_share from_node_id st, Inr True)
                          | (st, Inl e) \<Rightarrow>
                              if e = CommitmentMissing from_node_id
                              then (if map_of (st_pending_shares st) from_node_id \<noteq> None then st
                                    else st\<lparr>st_pending_shares := AList.update from_node_id share (st_pending_shares st)\<rparr>,
                                    Inr False)
                              else (st, if proves then Inr False
                                        else Inl (ShareVerificationFailed ''Failed to receive share: {}'')))) "

section \<open>Choosing the dealers of a reshare\<close>

text \<open>A new member that holds a valid share of a dealer tells the selector, once per dealer.\<close>

definition record_valid_reshare_share ::
  "u32 \<Rightarrow> ('f, 'g) session_state \<Rightarrow> ('f, 'g) session_state \<times> (dkg_error + (u32 \<times> string) option)" where
  "record_valid_reshare_share dealer_id st =
    (if \<not> kind_is_reshare (st_kind st) \<or> nd_role (st_node st) \<notin> {Receiver, DealerReceiver} then (st, Inr None)
     else if dealer_id \<in> rs_valid_share_dealers (st_reshare st) then (st, Inr None)
     else case rs_params (st_reshare st) of
            None \<Rightarrow> (st, Inl (Generic ''Reshare session is missing reshare_params while acking share''))
          | Some p \<Rightarrow>
              (case rp_new_node_id p of
                 None \<Rightarrow> (st, Inl (Generic ''Reshare receiver is missing new_node_id while acking share''))
               | Some receiver_node_id \<Rightarrow>
                   (case map_of (sr_reshare_new_node_id_to_peer_id (st_routing st)) 1 of
                      None \<Rightarrow> (st, Inl (InvalidInput ''Reshare new committee is empty''))
                    | Some selector \<Rightarrow>
                        (st\<lparr>st_reshare := (st_reshare st)\<lparr>rs_valid_share_dealers :=
                             insert dealer_id (rs_valid_share_dealers (st_reshare st))\<rparr>\<rparr>,
                         Inr (Some (receiver_node_id, selector))))))"

text \<open>The dealers all of whose shares have been acknowledged by the whole new committee.\<close>

definition acked_by :: "u32 \<Rightarrow> 'f reshare_session \<Rightarrow> u32 set" where
  "acked_by dealer_id r = (case map_of (rs_share_acks r) dealer_id of Some acks \<Rightarrow> acks | None \<Rightarrow> {})"

definition record_ack :: "u32 \<Rightarrow> u32 \<Rightarrow> nat \<Rightarrow> 'f reshare_session \<Rightarrow> 'f reshare_session" where
  "record_ack receiver_node_id dealer_id new_committee_size r =
    (let r = r\<lparr>rs_share_acks := AList.update dealer_id (insert receiver_node_id (acked_by dealer_id r)) (rs_share_acks r)\<rparr>
     in if card (acked_by dealer_id r) = new_committee_size \<and> dealer_id \<notin> set (rs_dealer_completion_order r)
        then r\<lparr>rs_dealer_completion_order := rs_dealer_completion_order r @ [dealer_id]\<rparr> else r)"

definition complete_dealers :: "nat \<Rightarrow> 'f reshare_session \<Rightarrow> u32 list" where
  "complete_dealers new_committee_size r =
    sort (map fst (filter (\<lambda>(_, receivers). card receivers = new_committee_size) (rs_share_acks r)))"

text \<open>
  \<open>handle_reshare_share_ack\<close> at the selector.  The result is the frozen set with the flag that it was
  frozen now.
\<close>

definition reshare_share_ack ::
  "u32 \<Rightarrow> u32 \<Rightarrow> ('f, 'g) session_state \<Rightarrow> ('f, 'g) session_state \<times> (dkg_error + (u32 list \<times> bool) option)" where
  "reshare_share_ack receiver_node_id dealer_id st =
    (case rs_params (st_reshare st) of
       None \<Rightarrow> (st, Inl (Generic ''Reshare ack received for session without reshare_params''))
     | Some p \<Rightarrow>
         let new_committee_size = length (rp_new_peer_node_keys p);
             routes = List.map_filter (map_of (sr_reshare_new_node_id_to_peer_id (st_routing st)))
                        (map of_nat [1..<Suc (unat (as_u32 new_committee_size))])
         in if case_option 0 id (rp_new_node_id p) \<noteq> 1
            then (st, Inl (Unauthorized ''ReshareShareAck delivered to a non-selector node''))
            else if length routes \<noteq> new_committee_size
            then (st, Inl (InvalidInput ''Reshare new committee routing map has {} entries, expected {}''))
            else if receiver_node_id = 0 \<or> new_committee_size < unat receiver_node_id
            then (st, Inl (InvalidInput ''Invalid reshare receiver_node_id {} for new committee size {}''))
            else if dealer_id = 0 \<or> nd_total_nodes (st_node st) < unat dealer_id
            then (st, Inl (InvalidInput ''Invalid reshare dealer_id {} for old committee size {}''))
            else if participant_current dealer_id \<notin> set (ts_active_dealers (st_transport st))
            then (st, Inl (Unauthorized ''ReshareShareAck names inactive dealer {}''))
            else if receiver_node_id \<in> acked_by dealer_id (st_reshare st) then (st, Inr None)
            else
              let st = st\<lparr>st_reshare := record_ack receiver_node_id dealer_id new_committee_size (st_reshare st)\<rparr>
              in case rs_selected_dealers (st_reshare st) of
                   Some selected \<Rightarrow> (st, Inr (Some (selected, False)))
                 | None \<Rightarrow>
                     if nd_threshold (st_node st) \<le> length (rs_dealer_completion_order (st_reshare st))
                     then
                       let selected = take (nd_threshold (st_node st))
                             (complete_dealers new_committee_size (st_reshare st))
                       in case select_reshare_participants selected (st_node st) of
                            Inl e \<Rightarrow> (st, Inl (Crypto ''Failed to select reshare participants: {}''))
                          | Inr node \<Rightarrow>
                              (st\<lparr>st_node := node, st_reshare := (st_reshare st)\<lparr>rs_selected_dealers := Some selected\<rparr>\<rparr>,
                               Inr (Some (selected, True)))
                     else (st, Inr None))"

text \<open>The other members take over the set, after the same checks.\<close>

fun check_dealers :: "bool \<Rightarrow> ('f, 'g) session_state \<Rightarrow> u32 list \<Rightarrow> dkg_error + unit" where
  "check_dealers receives_shares st [] = Inr ()"
| "check_dealers receives_shares st (dealer_id # rest) =
    (if dealer_id = 0 \<or> nd_total_nodes (st_node st) < unat dealer_id
     then Inl (InvalidInput ''ReshareParticipantSet dealer ID {} is outside old committee 1..={}'')
     else if participant_current dealer_id \<notin> set (ts_active_dealers (st_transport st))
     then Inl (Unauthorized ''ReshareParticipantSet contains inactive dealer {}'')
     else if receives_shares \<and> dealer_id \<notin> rs_valid_share_dealers (st_reshare st)
     then Inl (InvalidState ''ReshareParticipantSet selected dealer {} before this receiver accepted its commitment and share'')
     else check_dealers receives_shares st rest)"

definition validate_reshare_participant_set :: "u32 \<Rightarrow> u32 list \<Rightarrow> ('f, 'g) session_state \<Rightarrow> dkg_error + bool" where
  "validate_reshare_participant_set from_node_id selected st =
    (if from_node_id \<noteq> 1
     then Inl (Unauthorized ''ReshareParticipantSet must come from new committee node 1, got {}'')
     else if \<not> kind_is_reshare (st_kind st)
     then Inl (InvalidInput ''ReshareParticipantSet received for non-reshare session'')
     else if nd_role (st_node st) = Standard
     then Inl (InvalidInput ''ReshareParticipantSet received by node outside new committee'')
     else
       let receives_shares = (nd_role (st_node st) \<noteq> Dealer);
           canonical = remdups_adj (sort selected)
       in if length selected \<noteq> nd_threshold (st_node st)
          then Inl (InvalidInput ''ReshareParticipantSet has {} dealers, expected old threshold {}'')
          else if length canonical \<noteq> length selected
          then Inl (InvalidInput ''ReshareParticipantSet contains duplicate dealer IDs'')
          else
            rbind (check_dealers receives_shares st selected) (\<lambda>_.
            if \<not> receives_shares then Inr False
            else case rs_selected_dealers (st_reshare st) of
                   Some existing \<Rightarrow>
                     if sort existing = canonical then Inr False
                     else Inl (InvalidInput ''Conflicting ReshareParticipantSet: existing {:?}, new {:?}'')
                 | None \<Rightarrow>
                     rbind (map_err (Crypto ''Failed to select reshare participants: {}'')
                             (select_reshare_participants selected (st_node st))) (\<lambda>_. Inr True)))"

definition accept_reshare_participant_set ::
  "u32 \<Rightarrow> u32 list \<Rightarrow> ('f, 'g) session_state \<Rightarrow> ('f, 'g) session_state \<times> (dkg_error + bool)" where
  "accept_reshare_participant_set from_node_id selected st =
    (case validate_reshare_participant_set from_node_id selected st of
       Inl e \<Rightarrow> (st, Inl e)
     | Inr False \<Rightarrow> (st, Inr False)
     | Inr True \<Rightarrow>
         (case select_reshare_participants selected (st_node st) of
            Inl e \<Rightarrow> (st, Inl (Crypto ''Failed to select reshare participants: {}''))
          | Inr node \<Rightarrow>
              (st\<lparr>st_node := node, st_reshare := (st_reshare st)\<lparr>rs_selected_dealers := Some selected\<rparr>\<rparr>, Inr True)))"

section \<open>Who may contribute what\<close>

text \<open>The origins and phases \<open>verify_signed_contribution\<close> lets pass for a kind of ceremony.\<close>

definition contribution_allowed ::
  "session_kind \<Rightarrow> participant_ref list \<Rightarrow> participant_ref \<Rightarrow> public_phase \<Rightarrow> bool" where
  "contribution_allowed kind active_dealers origin phase \<longleftrightarrow>
    (if kind_is_fresh kind
     then pr_scope origin = Current \<and> phase \<in> {CommitmentHashes, Commitments}
     else if kind_is_reshare kind
     then (case phase of
             Commitments \<Rightarrow> origin \<in> set active_dealers
           | CommitmentAudit \<Rightarrow> pr_scope origin = Next
           | ReshareParticipantSet \<Rightarrow> origin = participant_next 1
           | _ \<Rightarrow> False)
     else pr_scope origin = Current \<and>
       phase \<in> {Commitments, CommitmentAudit} \<union>
         (case kind of session_kind.Refresh _ \<Rightarrow> {RefreshHealthCheck} | _ \<Rightarrow> {}))"

end
