(* ===== verification/Coordination.thy ===== *)
theory Coordination
  imports Coordinator Attempts Dkg_Security
begin

text \<open>
  Key generation as a transition system.  The tasks of a node run the closures of the coordinator on
  one session in any order; what a task carries from one closure to the next is kept beside the
  session.  The lemmas say what each step leaves alone.
\<close>

section \<open>Tasks and the session they share\<close>

text \<open>A task that has passed the checks of phase 1, or is about to write the phase it has begun.\<close>

datatype coordinator_task =
    Phase1Unstarted
  | Phase1Permitted
  | SetPhase dkg_phase

text \<open>
  The session; tasks under way; commitments that passed their checks and wait to be recorded; shares
  in the hands of a handler; the commands selected so far; and how often a phase was written over a
  later one.
\<close>

record ('f, 'g) coordination =
  co_session :: "('f, 'g) session_state"
  co_tasks :: "coordinator_task list"
  co_prepared :: "(u32 \<times> 'g polynomial_commitment \<times> bool) list"
  co_shares :: "'f distributed_share list"
  co_selected :: "dkg_command list"
  co_backward :: nat

definition phase_rank :: "dkg_phase \<Rightarrow> nat" where
  "phase_rank ph =
    (case ph of Initializing \<Rightarrow> 0 | Phase0CommitmentHashes \<Rightarrow> 1 | Phase1Commitments \<Rightarrow> 2
     | Phase2Shares \<Rightarrow> 3 | Phase4Completing \<Rightarrow> 4 | Phase4Complete \<Rightarrow> 5)"

definition is_peer :: "('f, 'g) dkg_node \<Rightarrow> u32 \<Rightarrow> bool" where
  "is_peer n i \<longleftrightarrow> i \<noteq> 0 \<and> i \<le> as_u32 (nd_total_nodes n) \<and> i \<noteq> nd_id n"

text \<open>Operations of the session manager that the coordinator does not make itself.\<close>

fun is_transport_event :: "'f attempt_event \<Rightarrow> bool" where
  "is_transport_event (EvPhase _ _) = False"
| "is_transport_event (EvStoreShare _) = False"
| "is_transport_event (EvTakeShare _) = False"
| "is_transport_event _ = True"

definition then_do :: "'e + 'a \<Rightarrow> coordinator_task \<Rightarrow> coordinator_task list \<Rightarrow> coordinator_task list" where
  "then_do r task tasks = (if is_ok r then task # tasks else tasks)"

text \<open>
  The closures as steps.  A hash comes from another member of the committee: the network layer accepts
  contributions of committee members only and skips the node's own.
\<close>

inductive coordinator_step ::
  "('f::field, 'g::ab_group_add) backend \<Rightarrow> attempt_key \<Rightarrow> ('f, 'g) coordination \<Rightarrow> ('f, 'g) coordination \<Rightarrow> bool"
  for B a where
  hash_prepared: "phase0_commitment_hash B a rng (co_session s) = Some (st, r) \<Longrightarrow>
    coordinator_step B a s (s\<lparr>co_session := st, co_tasks := then_do r (SetPhase Phase0CommitmentHashes) (co_tasks s)\<rparr>)"
| phase1_requested: "\<not> phase1_already_started (co_session s) \<Longrightarrow>
    coordinator_step B a s (s\<lparr>co_tasks := Phase1Unstarted # co_tasks s\<rparr>)"
| phase1_checked: "Phase1Unstarted \<in> set (co_tasks s) \<Longrightarrow> phase1_permitted (co_session s) \<Longrightarrow>
    coordinator_step B a s (s\<lparr>co_tasks := Phase1Permitted # remove1 Phase1Unstarted (co_tasks s)\<rparr>)"
| phase1_committed: "Phase1Permitted \<in> set (co_tasks s) \<Longrightarrow>
    phase1_commitment B rng (co_session s) = Some (st, r) \<Longrightarrow>
    coordinator_step B a s (s\<lparr>co_session := st,
      co_tasks := then_do r (SetPhase Phase1Commitments) (remove1 Phase1Permitted (co_tasks s))\<rparr>)"
| phase2_dealt: "InitiatePhase2Shares \<in> set (co_selected s) \<or> kind_is_reshare (st_kind (co_session s)) \<Longrightarrow>
    phase2_shares B rng (co_session s) = Some (st, r) \<Longrightarrow>
    coordinator_step B a s (s\<lparr>co_session := st, co_tasks := then_do r (SetPhase Phase2Shares) (co_tasks s)\<rparr>)"
| phase_set: "SetPhase ph \<in> set (co_tasks s) \<Longrightarrow>
    coordinator_step B a s (s\<lparr>co_session := transition_phase ph now (co_session s),
      co_tasks := remove1 (SetPhase ph) (co_tasks s),
      co_backward := co_backward s + (if phase_rank ph < phase_rank (st_phase (co_session s)) then 1 else 0)\<rparr>)"
| phase4_finished: "CompletePhase4 \<in> set (co_selected s) \<Longrightarrow>
    coordinator_step B a s (s\<lparr>co_session := transition_phase Phase4Complete now (co_session s)\<rparr>)"
| hash_recorded: "is_peer (st_node (co_session s)) i \<Longrightarrow> record_commitment_hash i h (co_session s) = (st, r) \<Longrightarrow>
    coordinator_step B a s (s\<lparr>co_session := st\<rparr>)"
| commitment_prepared: "prepare_commitment_message B a i c evidence None (co_session s) = Inr (Ready C fresh reshare) \<Longrightarrow>
    coordinator_step B a s (s\<lparr>co_prepared := (i, C, fresh) # co_prepared s\<rparr>)"
| commitment_queued: "coordinator_step B a s (s\<lparr>co_session := fst (queue_commitment i c (co_session s))\<rparr>)"
| commitment_unqueued: "coordinator_step B a s (s\<lparr>co_session := unqueue_commitment i (co_session s)\<rparr>)"
| commitment_recorded: "(i, C, fresh) \<in> set (co_prepared s) \<Longrightarrow> record_commitment i C fresh (co_session s) = (st, r) \<Longrightarrow>
    coordinator_step B a s (s\<lparr>co_session := st, co_prepared := remove1 (i, C, fresh) (co_prepared s)\<rparr>)"
| polynomial_generated: "generate_on_first_commitment B rng (co_session s) = Some (st, r) \<Longrightarrow>
    coordinator_step B a s (s\<lparr>co_session := st\<rparr>)"
| share_arrived: "share_recipient (co_session s) = Inr (ds_to_id share) \<Longrightarrow>
    coordinator_step B a s (s\<lparr>co_shares := share # co_shares s\<rparr>)"
| share_received: "share \<in> set (co_shares s) \<Longrightarrow> try_receive_share B share (co_session s) = (st, r) \<Longrightarrow>
    coordinator_step B a s (s\<lparr>co_session := st, co_shares := (if is_ok r then remove1 share (co_shares s) else co_shares s)\<rparr>)"
| share_queued: "share \<in> set (co_shares s) \<Longrightarrow>
    coordinator_step B a s (s\<lparr>co_session := local_step a (EvStoreShare share) (co_session s),
      co_shares := remove1 share (co_shares s)\<rparr>)"
| share_taken: "map_of (st_pending_shares (co_session s)) i = Some share \<Longrightarrow>
    coordinator_step B a s (s\<lparr>co_session := local_step a (EvTakeShare i) (co_session s), co_shares := share # co_shares s\<rparr>)"
| operated: "is_transport_event e \<Longrightarrow> coordinator_step B a s (s\<lparr>co_session := local_step a e (co_session s)\<rparr>)"
| claimed: "claim_transition B event now (co_session s) = (st, t) \<Longrightarrow>
    coordinator_step B a s (s\<lparr>co_session := st, co_selected := co_selected s @ tr_commands t\<rparr>)"
| acked: "record_valid_reshare_share i (co_session s) = (st, r) \<Longrightarrow> coordinator_step B a s (s\<lparr>co_session := st\<rparr>)"
| ack_received: "reshare_share_ack i j (co_session s) = (st, r) \<Longrightarrow> coordinator_step B a s (s\<lparr>co_session := st\<rparr>)"
| participants_accepted: "accept_reshare_participant_set i js (co_session s) = (st, r) \<Longrightarrow>
    coordinator_step B a s (s\<lparr>co_session := st\<rparr>)"

text \<open>A session as the handler of \<open>SessionInit\<close> creates it.\<close>

definition coordination_start :: "attempt_key \<Rightarrow> ('f, 'g) coordination \<Rightarrow> bool" where
  "coordination_start a s \<longleftrightarrow>
    (\<exists>i t n role kind routing params now node.
      dkg_new i t n (attempt_session_id a) role = Inr node \<and>
      (kind_is_reshare kind \<longleftrightarrow> params \<noteq> None) \<and> (kind_is_reshare kind \<longleftrightarrow> role \<noteq> Standard) \<and>
      s = \<lparr>co_session = init_session kind routing params (reserve a (session_new node now)), co_tasks = [],
           co_prepared = [], co_shares = [], co_selected = [], co_backward = 0\<rparr>)"

abbreviation coordinated :: "('f::field, 'g::ab_group_add) backend \<Rightarrow> attempt_key \<Rightarrow> ('f, 'g) coordination \<Rightarrow> bool" where
  "coordinated B a \<equiv> reachable (coordination_start a) (coordinator_step B a)"

inductive_cases coordinator_stepE: "coordinator_step B a s t"

section \<open>What the closures leave alone\<close>

text \<open>What never changes in a session.\<close>

definition node_static :: "('f, 'g) dkg_node \<Rightarrow> u32 \<times> nat \<times> nat \<times> dkg_role \<times> u128" where
  "node_static n = (nd_id n, nd_total_nodes n, nd_threshold n, nd_role n, nd_session_id n)"

definition static :: "('f, 'g) session_state \<Rightarrow> (u32 \<times> nat \<times> nat \<times> dkg_role \<times> u128) \<times> session_kind \<times> u32 option option" where
  "static st = (node_static (st_node st), st_kind st, map_option rp_new_node_id (rs_params (st_reshare st)))"

lemma receive_commitment_static: "receive_commitment i C n = Inr n' \<Longrightarrow> node_static n' = node_static n"
  by (auto simp: receive_commitment_def node_static_def split: if_splits)

lemma receive_share_static: "receive_share B sh n = (n', r) \<Longrightarrow> node_static n' = node_static n"
  by (auto simp: receive_share_def node_static_def split: if_splits option.splits)

lemma select_static: "select_reshare_participants ids n = Inr n' \<Longrightarrow> node_static n' = node_static n"
  by (auto simp: select_reshare_participants_def node_static_def result_simps split: if_splits)

lemma generate_polynomial_node_static:
  "generate_polynomial B mode rng n = Some (Inr n', rng') \<Longrightarrow> node_static n' = node_static n"
  by (simp add: node_static_def generate_polynomial_fields)

text \<open>The closures that may generate the polynomial change the node only, and only that way.\<close>

definition polynomial_step ::
  "('f::field, 'g::ab_group_add) backend \<Rightarrow> ('f, 'g) session_state \<Rightarrow> ('f, 'g) session_state \<Rightarrow> bool" where
  "polynomial_step B st st' \<longleftrightarrow>
    static st' = static st \<and> st_received_hashes st' = st_received_hashes st \<and> st_phase st' = st_phase st \<and>
    st_pending_shares st' = st_pending_shares st \<and>
    (st_node st' = st_node st \<or>
     \<not> has_polynomial st \<and> (\<exists>mode rng rng'. snd (session_mode st) = Inr mode \<and>
       generate_polynomial B mode rng (st_node st) = Some (Inr (st_node st'), rng')))"

lemma session_mode_frame:
  "session_mode st = (st', r) \<Longrightarrow> static st' = static st \<and> st_received_hashes st' = st_received_hashes st \<and>
    st_phase st' = st_phase st \<and> st_pending_shares st' = st_pending_shares st \<and> st_node st' = st_node st"
  by (auto simp: session_mode_def static_def split: session_kind.splits option.splits)

lemma generate_polynomial_static:
  assumes "static st' = static st" "st_node st' = st_node st"
    and "generate_polynomial B mode rng (st_node st) = Some (Inr n, rng')"
  shows "static (st'\<lparr>st_node := n\<rparr>) = static st"
  using assms(1,2) generate_polynomial_node_static [OF assms(3)] by (simp add: static_def)

lemma session_generate_polynomial_step:
  assumes "session_generate_polynomial B rng st = Some (st', r, rng')" "\<not> has_polynomial st"
  shows "polynomial_step B st st'"
proof -
  obtain st1 m where mode: "session_mode st = (st1, m)" by (cases "session_mode st")
  note frame = session_mode_frame [OF mode]
  show ?thesis
  proof (cases m)
    case (Inl e)
    with assms mode frame show ?thesis by (auto simp: session_generate_polynomial_def polynomial_step_def)
  next
    case (Inr md)
    with assms mode frame show ?thesis
      by (auto simp: session_generate_polynomial_def polynomial_step_def generate_polynomial_static
          split: option.splits prod.splits sum.splits)
  qed
qed

lemma polynomial_step_refl [simp]: "polynomial_step B st st"
  by (simp add: polynomial_step_def)

lemma ensure_polynomial_step: "ensure_polynomial B rng st = Some (st', r, rng') \<Longrightarrow> polynomial_step B st st'"
  by (auto simp: ensure_polynomial_def dest: session_generate_polynomial_step split: if_splits)

lemma with_polynomial_step: "with_polynomial B rng st k = Some (st', r) \<Longrightarrow> polynomial_step B st st'"
proof -
  assume "with_polynomial B rng st k = Some (st', r)"
  then obtain st1 r1 rng1 where ensure: "ensure_polynomial B rng st = Some (st1, r1, rng1)"
    and "(case r1 of Inl e \<Rightarrow> Some (st1, Inl e) | Inr _ \<Rightarrow> map_option (Pair st1) (k st1 rng1)) = Some (st', r)"
    by (auto simp: with_polynomial_def bind_eq_Some_conv)
  then have "st1 = st'" by (cases r1) auto
  with ensure show ?thesis by (simp add: ensure_polynomial_step)
qed

lemma phase_steps:
  "phase0_commitment_hash B a rng st = Some (st', rh) \<Longrightarrow> polynomial_step B st st'"
  "phase1_commitment B rng st = Some (st', rb) \<Longrightarrow> polynomial_step B st st'"
  "phase2_shares B rng st = Some (st', rs) \<Longrightarrow> polynomial_step B st st'"
  by (auto simp: phase0_commitment_hash_def phase1_commitment_def phase2_shares_def
      dest: with_polynomial_step split: if_splits)

lemma first_commitment_step: "generate_on_first_commitment B rng st = Some (st', r) \<Longrightarrow> polynomial_step B st st'"
  unfolding generate_on_first_commitment_def
  by (cases "session_generate_polynomial B rng st")
    (auto dest: session_generate_polynomial_step split: if_splits sum.splits)

lemmas polynomial_steps = phase_steps first_commitment_step

text \<open>Transport operations leave everything of the protocol alone.\<close>

lemma transport_event_frame:
  "is_transport_event e \<Longrightarrow> st_node (local_step a e st) = st_node st"
  "is_transport_event e \<Longrightarrow> st_received_hashes (local_step a e st) = st_received_hashes st"
  "is_transport_event e \<Longrightarrow> st_phase (local_step a e st) = st_phase st"
  "is_transport_event e \<Longrightarrow> st_pending_shares (local_step a e st) = st_pending_shares st"
  "is_transport_event e \<Longrightarrow> map_option rp_new_node_id (rs_params (st_reshare (local_step a e st))) =
    map_option rp_new_node_id (rs_params (st_reshare st))"
  "is_transport_event e \<Longrightarrow> st_kind (local_step a e st) = st_kind st"
  by (cases e; simp add: local_step_def operation_defs Let_def record_received_share_def set_participating_ids_def
      split: option.split prod.split transport_lifecycle.split)+

lemma pending_share_frame:
  "st_node (local_step a (EvStoreShare sh) st) = st_node st"
  "static (local_step a (EvStoreShare sh) st) = static st"
  "st_received_hashes (local_step a (EvStoreShare sh) st) = st_received_hashes st"
  "st_phase (local_step a (EvStoreShare sh) st) = st_phase st"
  "set (map snd (st_pending_shares (local_step a (EvStoreShare sh) st))) \<subseteq> insert sh (snd ` set (st_pending_shares st))"
  "st_node (local_step a (EvTakeShare i) st) = st_node st"
  "static (local_step a (EvTakeShare i) st) = static st"
  "st_received_hashes (local_step a (EvTakeShare i) st) = st_received_hashes st"
  "st_phase (local_step a (EvTakeShare i) st) = st_phase st"
  "set (st_pending_shares (local_step a (EvTakeShare i) st)) \<subseteq> set (st_pending_shares st)"
  by (auto simp: local_step_def operation_defs Let_def static_def update_fresh AList.delete_eq split: option.split prod.split)

text \<open>The remaining closures.\<close>

lemma transition_phase_frame [simp]:
  "st_node (transition_phase ph now st) = st_node st" "st_received_hashes (transition_phase ph now st) = st_received_hashes st"
  "st_pending_shares (transition_phase ph now st) = st_pending_shares st"
  "static (transition_phase ph now st) = static st" "st_phase (transition_phase ph now st) = ph"
  by (simp_all add: transition_phase_def static_def)

lemma claim_transition_frame:
  assumes "claim_transition B e now st = (st', t)"
  shows "st_node st' = st_node st" "st_received_hashes st' = st_received_hashes st"
    "st_pending_shares st' = st_pending_shares st" "static st' = static st"
    "t = transition (snapshot B e st) e" "st_phase st' = case_option (st_phase st) id (tr_next_phase t)"
  using assms by (auto simp: claim_transition_def Let_def split: option.splits)

lemma record_commitment_hash_frame:
  assumes "record_commitment_hash i h st = (st', r)"
  shows "st_node st' = st_node st" "st_pending_shares st' = st_pending_shares st" "static st' = static st"
    "st_phase st' = st_phase st"
    "st_received_hashes st' = st_received_hashes st \<or>
      map_of (st_received_hashes st) i = None \<and> st_received_hashes st' = st_received_hashes st @ [(i, h)]"
  using assms by (auto simp: record_commitment_hash_def static_def update_fresh split: if_splits option.splits)

lemma queue_frame [simp]:
  "st_node (fst (queue_commitment i c st)) = st_node st" "static (fst (queue_commitment i c st)) = static st"
  "st_received_hashes (fst (queue_commitment i c st)) = st_received_hashes st"
  "st_phase (fst (queue_commitment i c st)) = st_phase st"
  "st_pending_shares (fst (queue_commitment i c st)) = st_pending_shares st"
  "st_node (unqueue_commitment i st) = st_node st" "static (unqueue_commitment i st) = static st"
  "st_received_hashes (unqueue_commitment i st) = st_received_hashes st"
  "st_phase (unqueue_commitment i st) = st_phase st" "st_pending_shares (unqueue_commitment i st) = st_pending_shares st"
  by (simp_all add: queue_commitment_def unqueue_commitment_def static_def)

lemma record_commitment_frame:
  assumes "record_commitment i C fresh st = (st', r)"
  shows "st_received_hashes st' = st_received_hashes st" "st_pending_shares st' = st_pending_shares st"
    "static st' = static st" "st_phase st' = st_phase st"
    "st_node st' = st_node st \<or> receive_commitment i C (st_node st) = Inr (st_node st')"
proof -
  consider "st' = st" | n where "receive_commitment i C (st_node st) = Inr n"
    "st' = st\<lparr>st_node := n, st_commitments_received := st_commitments_received st + 1\<rparr>"
    using assms by (cases "receive_commitment i C (st_node st)") (auto simp: record_commitment_def Let_def split: if_splits)
  then show "st_received_hashes st' = st_received_hashes st" "st_pending_shares st' = st_pending_shares st"
    "static st' = static st" "st_phase st' = st_phase st"
    "st_node st' = st_node st \<or> receive_commitment i C (st_node st) = Inr (st_node st')"
    by (cases; simp add: static_def receive_commitment_static)+
qed

lemma try_receive_share_frame:
  assumes "try_receive_share B sh st = (st', r)"
  shows "st_received_hashes st' = st_received_hashes st" "st_pending_shares st' = st_pending_shares st"
    "static st' = static st" "st_phase st' = st_phase st" "receive_share B sh (st_node st) = (st_node st', r)"
  using assms receive_share_static [of B sh "st_node st"]
  by (cases "receive_share B sh (st_node st)"; auto simp: try_receive_share_def static_def)+

lemma valid_reshare_share_frame:
  assumes "record_valid_reshare_share i st = (st', r)"
  shows "st_received_hashes st' = st_received_hashes st" "st_pending_shares st' = st_pending_shares st"
    "static st' = static st" "st_phase st' = st_phase st" "st_node st' = st_node st"
  using assms by (auto simp: record_valid_reshare_share_def static_def split: if_splits option.splits)

lemma record_ack_params [simp]:
  "rs_params (record_ack i j k r) = rs_params r" "rs_selected_dealers (record_ack i j k r) = rs_selected_dealers r"
  by (simp_all add: record_ack_def Let_def)

lemma reshare_share_ack_frame:
  assumes "reshare_share_ack i j st = (st', r)"
  shows "st_received_hashes st' = st_received_hashes st" "st_pending_shares st' = st_pending_shares st"
    "static st' = static st" "st_phase st' = st_phase st"
    "st_node st' = st_node st \<or> (\<exists>ids. select_reshare_participants ids (st_node st) = Inr (st_node st'))"
  using assms
  by (auto simp: reshare_share_ack_def static_def Let_def select_static split: if_splits option.splits sum.splits)

lemma participant_set_frame:
  assumes "accept_reshare_participant_set i js st = (st', r)"
  shows "st_received_hashes st' = st_received_hashes st" "st_pending_shares st' = st_pending_shares st"
    "static st' = static st" "st_phase st' = st_phase st"
    "st_node st' = st_node st \<or> (\<exists>ids. select_reshare_participants ids (st_node st) = Inr (st_node st'))"
  using assms
  by (auto simp: accept_reshare_participant_set_def static_def select_static split: bool.splits sum.splits)

section \<open>Steps of the system\<close>

lemmas closure_frames = transport_event_frame pending_share_frame claim_transition_frame record_commitment_hash_frame
  record_commitment_frame try_receive_share_frame valid_reshare_share_frame reshare_share_ack_frame participant_set_frame

lemma transport_event_static: "is_transport_event e \<Longrightarrow> static (local_step a e st) = static st"
  by (simp add: static_def transport_event_frame)

lemma polynomial_stepD:
  assumes "polynomial_step B st st'"
  shows "static st' = static st" "st_received_hashes st' = st_received_hashes st" "st_phase st' = st_phase st"
    "st_pending_shares st' = st_pending_shares st"
  using assms by (simp_all add: polynomial_step_def)

lemma step_static: "coordinator_step B a s t \<Longrightarrow> static (co_session t) = static (co_session s)"
  by (induction rule: coordinator_step.cases)
    (simp_all add: closure_frames transport_event_static polynomial_stepD(1) [OF polynomial_steps(1)]
      polynomial_stepD(1) [OF polynomial_steps(2)] polynomial_stepD(1) [OF polynomial_steps(3)]
      polynomial_stepD(1) [OF polynomial_steps(4)])

text \<open>A step adds at most one hash, of a peer that had none.\<close>

lemma step_hashes:
  assumes "coordinator_step B a s t"
  shows "st_received_hashes (co_session t) = st_received_hashes (co_session s) \<or>
    (\<exists>i h. is_peer (st_node (co_session s)) i \<and> map_of (st_received_hashes (co_session s)) i = None \<and>
      st_received_hashes (co_session t) = st_received_hashes (co_session s) @ [(i, h)])"
  using assms
proof cases
  case (hash_recorded i h st r)
  then show ?thesis using record_commitment_hash_frame(5) [OF hash_recorded(3)] by auto
qed (simp_all add: closure_frames polynomial_stepD(2) [OF polynomial_steps(1)] polynomial_stepD(2) [OF polynomial_steps(2)]
    polynomial_stepD(2) [OF polynomial_steps(3)] polynomial_stepD(2) [OF polynomial_steps(4)])

text \<open>The commitments a node holds change only when a prepared one is recorded.\<close>

lemma polynomial_step_commitments:
  "polynomial_step B st st' \<Longrightarrow> nd_received_commitments (st_node st') = nd_received_commitments (st_node st)"
  by (auto simp: polynomial_step_def generate_polynomial_fields)

lemma receive_share_commitments: "receive_share B sh n = (n', r) \<Longrightarrow> nd_received_commitments n' = nd_received_commitments n"
  by (auto simp: receive_share_def split: if_splits option.splits)

lemma select_commitments:
  "select_reshare_participants ids n = Inr n' \<Longrightarrow> nd_received_commitments n' = nd_received_commitments n"
  by (auto simp: select_reshare_participants_def result_simps split: if_splits)

lemma receive_commitment_map:
  "receive_commitment i C n = Inr n' \<Longrightarrow> map_of (nd_received_commitments n') = (map_of (nd_received_commitments n))(i \<mapsto> C)"
  by (auto simp: receive_commitment_def update_conv' split: if_splits)

lemma step_commitments:
  assumes "coordinator_step B a s t" "map_of (nd_received_commitments (st_node (co_session t))) i = Some C"
  shows "map_of (nd_received_commitments (st_node (co_session s))) i = Some C \<or> (\<exists>fresh. (i, C, fresh) \<in> set (co_prepared s))"
  using assms
proof cases
  case (commitment_recorded i' C' fresh st r)
  from record_commitment_frame(5) [OF commitment_recorded(3)] show ?thesis
  proof
    assume "st_node st = st_node (co_session s)"
    with assms(2) commitment_recorded(1) show ?thesis by simp
  next
    assume "receive_commitment i' C' (st_node (co_session s)) = Inr (st_node st)"
    from receive_commitment_map [OF this] assms(2) commitment_recorded(1,2) show ?thesis
      by (auto split: if_splits)
  qed
next
  case (share_received share st r)
  with assms(2) receive_share_commitments [OF try_receive_share_frame(5) [OF share_received(3)]] show ?thesis by simp
next
  case (ack_received i' j st r)
  with assms(2) reshare_share_ack_frame(5) [OF ack_received(2)] select_commitments show ?thesis by fastforce
next
  case (participants_accepted i' js st r)
  with assms(2) participant_set_frame(5) [OF participants_accepted(2)] select_commitments show ?thesis by fastforce
qed (use assms(2) in \<open>simp_all add: closure_frames polynomial_step_commitments [OF polynomial_steps(1)]
    polynomial_step_commitments [OF polynomial_steps(2)] polynomial_step_commitments [OF polynomial_steps(3)]
    polynomial_step_commitments [OF polynomial_steps(4)]\<close>)

end
