(* ===== verification/Coordinator_Safety.thy ===== *)
theory Coordinator_Safety
  imports Coordination
begin

text \<open>
  What holds of key generation however its tasks interleave: commitments are fixed before any is
  revealed, what a ceremony completes with is a correct share of the key it publishes, and a phase is
  started once.
\<close>

section \<open>Committed before revealed\<close>

definition hash_of_commitment ::
  "('f, 'g) backend \<Rightarrow> attempt_key \<Rightarrow> u32 \<Rightarrow> 'g polynomial_commitment \<Rightarrow> bytes" where
  "hash_of_commitment B a i C =
    fresh_commitment_hash B (attempt_session_id a) i (serialize_commitment_coefficients B (coefficients C))"

text \<open>A commitment that passed its checks for a fresh key hashes to the hash on record.\<close>

lemma prepared_matches_hash:
  assumes B: "lawful_backend B" and fresh: "kind_is_fresh (st_kind st)"
    and ready: "prepare_commitment_message B a i c evidence None st = Inr (Ready C f r)"
  shows "f \<and> map_of (st_received_hashes st) i = Some (hash_of_commitment B a i C)"
proof -
  from ready have f: f and hash: "map_of (st_received_hashes st) i = Some (fresh_commitment_hash B (attempt_session_id a) i c)"
    and width: "length c mod 32 = 0" and coeffs: "traverse (\<lambda>chunk. map_err (Deserialization
        ''Failed to deserialize commitment coefficient {}: {}'') (element_from_bytes B chunk))
        (as_chunks 32 (length c div 32) c) = Inr (coefficients C)"
    using fresh by (auto simp: prepare_commitment_message_def Let_def GROUP_POINT_SIZE_def result_simps split: if_splits)
  have "length c = 32 * (length c div 32)" using width by presburger
  from lawful_backend.points_of_chunks [OF B this coeffs]
  have "c = concat (map (point_to_bytes B) (coefficients C))" .
  with f hash show ?thesis by (simp add: hash_of_commitment_def serialize_commitment_coefficients_def)
qed

text \<open>The hashes on record and the commitments that were checked against them.\<close>

definition commit_reveal_inv :: "('f, 'g) backend \<Rightarrow> attempt_key \<Rightarrow> ('f, 'g) coordination \<Rightarrow> bool" where
  "commit_reveal_inv B a s \<longleftrightarrow>
    distinct (map fst (st_received_hashes (co_session s))) \<and>
    list_all (\<lambda>(i, _). is_peer (st_node (co_session s)) i) (st_received_hashes (co_session s)) \<and>
    (kind_is_fresh (st_kind (co_session s)) \<longrightarrow>
      (\<forall>i C f. (i, C, f) \<in> set (co_prepared s) \<longrightarrow>
        map_of (st_received_hashes (co_session s)) i = Some (hash_of_commitment B a i C)) \<and>
      (\<forall>i C. map_of (nd_received_commitments (st_node (co_session s))) i = Some C \<longrightarrow>
        map_of (st_received_hashes (co_session s)) i = Some (hash_of_commitment B a i C)))"

lemma is_peer_static: "static st' = static st \<Longrightarrow> is_peer (st_node st') = is_peer (st_node st)"
  by (simp add: static_def node_static_def is_peer_def fun_eq_iff)

lemma kind_static: "static st' = static st \<Longrightarrow> st_kind st' = st_kind st"
  by (simp add: static_def)

lemma step_hash_kept:
  assumes "coordinator_step B a s t" "map_of (st_received_hashes (co_session s)) i = Some h"
  shows "map_of (st_received_hashes (co_session t)) i = Some h"
  using step_hashes [OF assms(1)] assms(2) by auto

lemma step_prepared:
  assumes "coordinator_step B a s t" "(i, C, f) \<in> set (co_prepared t)"
  shows "(i, C, f) \<in> set (co_prepared s) \<or>
    (\<exists>c evidence r. prepare_commitment_message B a i c evidence None (co_session s) = Inr (Ready C f r))"
  using assms by cases (auto dest: set_remove1_subset [THEN subsetD])

lemma commit_reveal_step:
  assumes B: "lawful_backend B" and inv: "commit_reveal_inv B a s" and step: "coordinator_step B a s t"
  shows "commit_reveal_inv B a t"
  unfolding commit_reveal_inv_def
proof (intro conjI impI allI)
  have static: "static (co_session t) = static (co_session s)" using step by (rule step_static)
  note peer = is_peer_static [OF static] and kind = kind_static [OF static]
  show "distinct (map fst (st_received_hashes (co_session t)))"
    using step_hashes [OF step] inv by (auto simp: commit_reveal_inv_def map_of_eq_None_iff)
  show "list_all (\<lambda>(i, _). is_peer (st_node (co_session t)) i) (st_received_hashes (co_session t))"
    using step_hashes [OF step] inv by (auto simp: commit_reveal_inv_def peer)
  fix i C
  assume "kind_is_fresh (st_kind (co_session t))"
  then have fresh: "kind_is_fresh (st_kind (co_session s))" by (simp add: kind)
  have prepared: "map_of (st_received_hashes (co_session t)) i = Some (hash_of_commitment B a i C)"
    if "(i, C, f) \<in> set (co_prepared s)" for f
    by (rule step_hash_kept [OF step]) (use that inv fresh in \<open>unfold commit_reveal_inv_def, blast\<close>)
  show "map_of (st_received_hashes (co_session t)) i = Some (hash_of_commitment B a i C)"
    if "(i, C, f) \<in> set (co_prepared t)" for f
    using step_prepared [OF step that]
  proof
    assume "\<exists>c evidence r. prepare_commitment_message B a i c evidence None (co_session s) = Inr (Ready C f r)"
    then show ?thesis using prepared_matches_hash [OF B fresh] step_hash_kept [OF step] by blast
  qed (use prepared in blast)
  show "map_of (st_received_hashes (co_session t)) i = Some (hash_of_commitment B a i C)"
    if "map_of (nd_received_commitments (st_node (co_session t))) i = Some C"
    using step_commitments [OF step that]
  proof
    assume "map_of (nd_received_commitments (st_node (co_session s))) i = Some C"
    then show ?thesis
      by (intro step_hash_kept [OF step]) (use inv fresh in \<open>unfold commit_reveal_inv_def, blast\<close>)
  qed (use prepared in blast)
qed

lemma commit_reveal_start: "coordination_start a s \<Longrightarrow> commit_reveal_inv B a s"
  by (auto simp: coordination_start_def commit_reveal_inv_def init_session_def reserve_def session_new_def Let_def
      dkg_new_def split: if_splits option.splits)

text \<open>Everybody but the node itself is a peer, so \<open>n - 1\<close> hashes of peers are the hashes of all.\<close>

lemma card_peers:
  assumes "nd_id n \<noteq> 0" "nd_id n \<le> as_u32 (nd_total_nodes n)"
  shows "finite {i. is_peer n i}" "card {i. is_peer n i} \<le> nd_total_nodes n - 1"
proof -
  let ?k = "as_u32 (nd_total_nodes n)"
  have eq: "{i. is_peer n i} = {i. i \<noteq> 0 \<and> i \<le> ?k} - {nd_id n}" by (auto simp: is_peer_def)
  have "unat ` {i. i \<noteq> 0 \<and> i \<le> ?k} \<subseteq> {1..unat ?k}"
    by (auto simp: word_le_nat_alt unat_gt_0 Suc_le_eq)
  moreover have "inj_on unat {i. i \<noteq> 0 \<and> i \<le> ?k}" by (rule inj_onI) (simp add: word_unat_eq_iff)
  ultimately have "card {i. i \<noteq> 0 \<and> i \<le> ?k} \<le> unat ?k"
    using card_inj_on_le [of unat "{i. i \<noteq> 0 \<and> i \<le> ?k}" "{1..unat ?k}"] by simp
  moreover have "unat ?k \<le> nd_total_nodes n" by (simp add: unat_as_u32)
  ultimately show "card {i. is_peer n i} \<le> nd_total_nodes n - 1"
    using assms unfolding eq by (subst card_Diff_singleton) auto
qed simp

lemma all_hashes_recorded:
  assumes n: "nd_id n \<noteq> 0" "nd_id n \<le> as_u32 (nd_total_nodes n)"
    and hs: "distinct (map fst hs)" "list_all (\<lambda>(i, _). is_peer n i) hs"
    and enough: "nd_total_nodes n - 1 \<le> length hs" and i: "is_peer n i"
  shows "map_of hs i \<noteq> None"
proof -
  have sub: "fst ` set hs \<subseteq> {i. is_peer n i}" using hs(2) by (auto simp: list_all_iff)
  have "card (fst ` set hs) = length hs" using hs(1) distinct_card [of "map fst hs"] by simp
  with enough card_peers(2) [OF n] have "card {i. is_peer n i} \<le> card (fst ` set hs)" by simp
  from card_seteq [OF card_peers(1) [OF n] sub this] i show ?thesis by (auto simp: map_of_eq_None_iff)
qed

lemma reveal_selected:
  assumes "RevealCommitment \<in> set (tr_commands (transition sn e))"
  shows "should_reveal_commitment sn"
  using assms by (cases e) (auto simp: no_transition_def push_phase4_if_ready_def Let_def split: if_splits)

definition revealed_inv :: "('f, 'g) coordination \<Rightarrow> bool" where
  "revealed_inv s \<longleftrightarrow>
    (RevealCommitment \<in> set (co_selected s) \<longrightarrow>
      kind_is_fresh (st_kind (co_session s)) \<and>
      (\<forall>i. is_peer (st_node (co_session s)) i \<longrightarrow> map_of (st_received_hashes (co_session s)) i \<noteq> None))"

lemma step_selected:
  assumes "coordinator_step B a s t" "c \<in> set (co_selected t)"
  shows "c \<in> set (co_selected s) \<or> (\<exists>e. c \<in> set (tr_commands (transition (snapshot B e (co_session s)) e)))"
  using assms by cases (auto dest: claim_transition_frame(5))

lemma revealed_step:
  assumes inv: "commit_reveal_inv B a s" "node_inv B (st_node (co_session s))" "revealed_inv s"
    and step: "coordinator_step B a s t"
  shows "revealed_inv t"
  unfolding revealed_inv_def
proof (intro impI conjI allI)
  have static: "static (co_session t) = static (co_session s)" using step by (rule step_static)
  note peer = is_peer_static [OF static] and kind = kind_static [OF static]
  assume "RevealCommitment \<in> set (co_selected t)"
  from step_selected [OF step this]
  have *: "kind_is_fresh (st_kind (co_session s)) \<and>
    (\<forall>i. is_peer (st_node (co_session s)) i \<longrightarrow> map_of (st_received_hashes (co_session s)) i \<noteq> None)"
  proof
    assume "RevealCommitment \<in> set (co_selected s)"
    with inv(3) show ?thesis by (simp add: revealed_inv_def)
  next
    assume "\<exists>e. RevealCommitment \<in> set (tr_commands (transition (snapshot B e (co_session s)) e))"
    then obtain e where "should_reveal_commitment (snapshot B e (co_session s))" by (blast dest: reveal_selected)
    then have "kind_is_fresh (st_kind (co_session s))" "nd_role (st_node (co_session s)) \<noteq> Receiver"
      "nd_total_nodes (st_node (co_session s)) - 1 \<le> length (st_received_hashes (co_session s))"
      by (simp_all add: should_reveal_commitment_def snapshot_def)
    with inv(1,2) show ?thesis
      using all_hashes_recorded [of "st_node (co_session s)" "st_received_hashes (co_session s)"]
      by (simp add: commit_reveal_inv_def node_inv_def)
  qed
  then show "kind_is_fresh (st_kind (co_session t))" by (simp add: kind)
  fix i
  assume "is_peer (st_node (co_session t)) i"
  with * obtain h where "map_of (st_received_hashes (co_session s)) i = Some h" by (auto simp: peer)
  from step_hash_kept [OF step this] show "map_of (st_received_hashes (co_session t)) i \<noteq> None" by simp
qed

section \<open>The node inside the session\<close>

text \<open>
  Every step of the system is a step of the cryptographic node, or leaves the node alone.  Shares in
  flight are addressed to this node, and before the polynomial of a reshare exists only shares under
  the node's own index can have been accepted.
\<close>

definition addressed :: "('f, 'g) session_state \<Rightarrow> 'f distributed_share \<Rightarrow> bool" where
  "addressed st sh \<longleftrightarrow> share_recipient st = Inr (ds_to_id sh)"

definition well_formed :: "('f, 'g) coordination \<Rightarrow> bool" where
  "well_formed s \<longleftrightarrow>
    (let st = co_session s; n = st_node st in
     (kind_is_reshare (st_kind st) \<longleftrightarrow> rs_params (st_reshare st) \<noteq> None) \<and>
     (kind_is_reshare (st_kind st) \<longleftrightarrow> nd_role n \<noteq> Standard) \<and>
     (\<forall>sh\<in>set (co_shares s) \<union> snd ` set (st_pending_shares st). addressed st sh) \<and>
     (\<not> has_polynomial st \<longrightarrow> nd_effective_receive_id n = None \<and>
       (nd_received_shares n = [] \<or> share_recipient st = Inr (nd_id n))))"

lemma share_recipient_eq:
  "share_recipient st =
    (case map_option rp_new_node_id (rs_params (st_reshare st)) of
       Some i \<Rightarrow> ok_or (ShareVerificationFailed
         ''Reshare share received but this node is a pure Dealer with no new-committee assignment'') i
     | None \<Rightarrow> Inr (nd_id (st_node st)))"
  by (simp add: share_recipient_def split: option.split)

lemma share_recipient_static: "static st' = static st \<Longrightarrow> share_recipient st' = share_recipient st"
proof -
  assume "static st' = static st"
  then have "map_option rp_new_node_id (rs_params (st_reshare st')) = map_option rp_new_node_id (rs_params (st_reshare st))"
    "nd_id (st_node st') = nd_id (st_node st)" by (simp_all add: static_def node_static_def)
  then show ?thesis by (simp only: share_recipient_eq)
qed

lemma addressed_static: "static st' = static st \<Longrightarrow> addressed st' = addressed st"
  by (drule share_recipient_static) (simp add: addressed_def fun_eq_iff)

text \<open>What the polynomial of the session's mode does to the node.\<close>

lemma session_mode_fits:
  assumes wf: "well_formed s" and mode: "snd (session_mode (co_session s)) = Inr m"
    and fresh: "\<not> has_polynomial (co_session s)" and role: "nd_role (st_node (co_session s)) \<noteq> Receiver"
  shows "mode_fits m (st_node (co_session s))"
proof (cases "kind_is_reshare (st_kind (co_session s))")
  case False
  with wf have "nd_role (st_node (co_session s)) = Standard" by (simp add: well_formed_def Let_def)
  with False mode show ?thesis
    by (cases "st_kind (co_session s)") (auto simp: session_mode_def mode_fits_def kind_is_reshare_def)
next
  case True
  with wf obtain p where p: "rs_params (st_reshare (co_session s)) = Some p" by (auto simp: well_formed_def Let_def)
  with True mode obtain old where
    m: "m = dkg_mode.Reshare old (rp_participating_ids p) (rp_new_threshold p) (rp_new_total_nodes p) (rp_new_node_id p)"
    by (cases "st_kind (co_session s)"; cases "rp_old_share p") (auto simp: session_mode_def kind_is_reshare_def)
  have "nd_role (st_node (co_session s)) \<in> {Dealer, DealerReceiver}"
    using wf True role by (cases "nd_role (st_node (co_session s))") (auto simp: well_formed_def Let_def)
  moreover have "nd_effective_receive_id (st_node (co_session s)) = None"
    "nd_received_shares (st_node (co_session s)) = [] \<or> rp_new_node_id p = Some (nd_id (st_node (co_session s)))"
    using wf fresh p by (auto simp: well_formed_def Let_def share_recipient_def ok_or_eq_Inr)
  ultimately show ?thesis by (auto simp: m mode_fits_def expected_receive_id_def)
qed

lemma polynomial_step_simulated:
  assumes "well_formed s" "polynomial_step B (co_session s) st'"
  shows "st_node st' = st_node (co_session s) \<or> dkg_step B (st_node (co_session s)) (st_node st')"
  using assms(2) unfolding polynomial_step_def
  by (elim conjE disjE exE)
    (auto intro!: disjI2 dkg_step.polynomial session_mode_fits [OF assms(1)] dest: generate_polynomial_fields(5))

lemma step_simulated:
  assumes wf: "well_formed s" and step: "coordinator_step B a s t"
  shows "st_node (co_session t) = st_node (co_session s) \<or> dkg_step B (st_node (co_session s)) (st_node (co_session t))"
  using step
proof cases
  case (commitment_recorded i C fresh st r)
  then show ?thesis using record_commitment_frame(5) [OF commitment_recorded(3)] by (auto intro: dkg_step.got_commitment)
next
  case (share_received share st r)
  then show ?thesis using try_receive_share_frame(5) [OF share_received(3)] by (auto intro: dkg_step.got_share)
next
  case (ack_received i j st r)
  then show ?thesis using reshare_share_ack_frame(5) [OF ack_received(2)] by (auto intro: dkg_step.participants)
next
  case (participants_accepted i js st r)
  then show ?thesis using participant_set_frame(5) [OF participants_accepted(2)] by (auto intro: dkg_step.participants)
qed (simp_all add: closure_frames polynomial_step_simulated [OF wf] polynomial_steps)

definition node_early :: "('f, 'g) dkg_node \<Rightarrow> 'g polynomial_commitment \<times> u32 option" where
  "node_early n = (nd_commitment n, nd_effective_receive_id n)"

lemma receive_commitment_early:
  "receive_commitment i C n = Inr n' \<Longrightarrow> node_early n' = node_early n \<and> nd_received_shares n' = nd_received_shares n"
  by (auto simp: receive_commitment_def node_early_def split: if_splits)

lemma select_early:
  "select_reshare_participants ids n = Inr n' \<Longrightarrow> node_early n' = node_early n \<and> nd_received_shares n' = nd_received_shares n"
  by (auto simp: select_reshare_participants_def node_early_def result_simps split: if_splits)

lemma receive_share_early:
  "receive_share B sh n = (n', r) \<Longrightarrow> node_early n' = node_early n \<and>
    (nd_received_shares n' = nd_received_shares n \<or> ds_to_id sh = expected_receive_id n)"
  by (auto simp: receive_share_def node_early_def split: if_splits option.splits)

text \<open>Until the polynomial exists a step accepts a share only under the index it is addressed to.\<close>

lemma step_early:
  assumes step: "coordinator_step B a s t" and late: "\<not> has_polynomial (co_session t)"
  shows "node_early (st_node (co_session t)) = node_early (st_node (co_session s)) \<and>
    (nd_received_shares (st_node (co_session t)) = nd_received_shares (st_node (co_session s)) \<or>
     (\<exists>sh\<in>set (co_shares s). ds_to_id sh = expected_receive_id (st_node (co_session s))))"
proof -
  have polynomial: ?thesis if "polynomial_step B (co_session s) (co_session t)"
    using that late generate_polynomial_fields(9,10) by (fastforce simp: polynomial_step_def has_polynomial_def)
  from step show ?thesis
  proof cases
    case (commitment_recorded i C fresh st r)
    then show ?thesis using record_commitment_frame(5) [OF commitment_recorded(3)] by (auto dest: receive_commitment_early)
  next
    case (share_received share st r)
    then show ?thesis using receive_share_early [OF try_receive_share_frame(5) [OF share_received(3)]] by auto
  next
    case (ack_received i j st r)
    then show ?thesis using reshare_share_ack_frame(5) [OF ack_received(2)] by (auto dest: select_early)
  next
    case (participants_accepted i js st r)
    then show ?thesis using participant_set_frame(5) [OF participants_accepted(2)] by (auto dest: select_early)
  next
    case (hash_prepared rng st r)
    then show ?thesis using polynomial by (simp add: polynomial_steps)
  next
    case (phase1_committed rng st r)
    then show ?thesis using polynomial by (simp add: polynomial_steps)
  next
    case (phase2_dealt rng st r)
    then show ?thesis using polynomial by (simp add: polynomial_steps)
  next
    case (polynomial_generated rng st r)
    then show ?thesis using polynomial by (simp add: polynomial_steps)
  qed (simp_all add: closure_frames)
qed

lemma step_shares:
  assumes "coordinator_step B a s t" "sh \<in> set (co_shares t) \<union> snd ` set (st_pending_shares (co_session t))"
  shows "sh \<in> set (co_shares s) \<union> snd ` set (st_pending_shares (co_session s)) \<or> addressed (co_session s) sh"
  using assms(1)
proof cases
  case (share_queued share)
  then show ?thesis using assms(2) pending_share_frame(5) [of a share "co_session s"]
    by (auto dest: set_remove1_subset [THEN subsetD])
next
  case (share_taken i share)
  then show ?thesis using assms(2) pending_share_frame(10) [of a i "co_session s"] by (force dest: map_of_SomeD)
qed (use assms(2) in \<open>auto simp: closure_frames addressed_def polynomial_stepD(4) [OF polynomial_steps(1)]
    polynomial_stepD(4) [OF polynomial_steps(2)] polynomial_stepD(4) [OF polynomial_steps(3)]
    polynomial_stepD(4) [OF polynomial_steps(4)] split: if_splits dest: set_remove1_subset [THEN subsetD]\<close>)

lemma well_formed_step:
  assumes wf: "well_formed s" and step: "coordinator_step B a s t"
  shows "well_formed t"
proof -
  let ?s = "co_session s" and ?t = "co_session t"
  have static: "static ?t = static ?s" using step by (rule step_static)
  then have same: "st_kind ?t = st_kind ?s" "nd_role (st_node ?t) = nd_role (st_node ?s)" "nd_id (st_node ?t) = nd_id (st_node ?s)"
    "map_option rp_new_node_id (rs_params (st_reshare ?t)) = map_option rp_new_node_id (rs_params (st_reshare ?s))"
    by (simp_all add: static_def node_static_def)
  then have params: "(\<exists>p. rs_params (st_reshare ?t) = Some p) \<longleftrightarrow> (\<exists>p. rs_params (st_reshare ?s) = Some p)"
    by (cases "rs_params (st_reshare ?t)"; cases "rs_params (st_reshare ?s)") simp_all
  have addressed: "addressed ?t sh" if "sh \<in> set (co_shares t) \<union> snd ` set (st_pending_shares ?t)" for sh
    using step_shares [OF step that] wf by (auto simp: addressed_static [OF static] well_formed_def Let_def)
  have early: "nd_effective_receive_id (st_node ?t) = None \<and>
      (nd_received_shares (st_node ?t) = [] \<or> share_recipient ?t = Inr (nd_id (st_node ?t)))"
    if late: "\<not> has_polynomial ?t"
  proof -
    from step_early [OF step late] have early: "node_early (st_node ?t) = node_early (st_node ?s)"
      and shares: "nd_received_shares (st_node ?t) = nd_received_shares (st_node ?s) \<or>
        (\<exists>sh\<in>set (co_shares s). ds_to_id sh = expected_receive_id (st_node ?s))" by blast+
    from early late have "\<not> has_polynomial ?s" by (simp add: node_early_def has_polynomial_def)
    with wf have "nd_effective_receive_id (st_node ?s) = None"
      "nd_received_shares (st_node ?s) = [] \<or> share_recipient ?s = Inr (nd_id (st_node ?s))"
      "\<forall>sh\<in>set (co_shares s). addressed ?s sh" by (auto simp: well_formed_def Let_def)
    with early shares show ?thesis
      by (auto simp: node_early_def same share_recipient_static [OF static] addressed_def expected_receive_id_def)
  qed
  from wf same(1,2) params have "kind_is_reshare (st_kind ?t) \<longleftrightarrow> (\<exists>p. rs_params (st_reshare ?t) = Some p)"
    "kind_is_reshare (st_kind ?t) \<longleftrightarrow> nd_role (st_node ?t) \<noteq> Standard" by (auto simp: well_formed_def Let_def)
  with addressed early show ?thesis by (auto simp: well_formed_def Let_def)
qed

lemma well_formed_start:
  assumes "coordination_start a s"
  shows "well_formed s \<and> dkg_init (st_node (co_session s))"
proof -
  from assms obtain i t n role kind routing params now node where
    new: "dkg_new i t n (attempt_session_id a) role = Inr node"
    and kind: "kind_is_reshare kind \<longleftrightarrow> params \<noteq> None" "kind_is_reshare kind \<longleftrightarrow> role \<noteq> Standard"
    and s: "s = \<lparr>co_session = init_session kind routing params (reserve a (session_new node now)), co_tasks = [],
           co_prepared = [], co_shares = [], co_selected = [], co_backward = 0\<rparr>"
    unfolding coordination_start_def by blast
  from new have "nd_role node = role" "nd_effective_receive_id node = None" "nd_received_shares node = []"
    by (auto simp: dkg_new_def split: if_splits)
  then have "well_formed s" using kind
    by (auto simp: s well_formed_def init_session_def reserve_def session_new_def Let_def split: option.splits)
  moreover have "st_node (co_session s) = node"
    by (simp add: s init_session_def reserve_def session_new_def Let_def split: option.split)
  with new have "dkg_init (st_node (co_session s))" unfolding dkg_init_def by blast
  ultimately show ?thesis by simp
qed

definition coordination_inv :: "('f::field, 'g::ab_group_add) backend \<Rightarrow> attempt_key \<Rightarrow> ('f, 'g) coordination \<Rightarrow> bool" where
  "coordination_inv B a s \<longleftrightarrow> well_formed s \<and> dkg_reachable B (st_node (co_session s)) \<and>
    (lawful_backend B \<longrightarrow> commit_reveal_inv B a s \<and> revealed_inv s)"

interpretation coordination: inductive_invariant "coordination_start a" "coordinator_step B a" "coordination_inv B a"
  for a and B :: "('f::field, 'g::ab_group_add) backend"
proof
  fix s :: "('f, 'g) coordination"
  assume "coordination_start a s"
  then show "coordination_inv B a s"
    using well_formed_start [of a s] commit_reveal_start [of a s B] reachable.start [of dkg_init]
    by (auto simp: coordination_inv_def revealed_inv_def coordination_start_def)
next
  fix s t :: "('f, 'g) coordination"
  assume inv: "coordination_inv B a s" and step: "coordinator_step B a s t"
  then have s: "well_formed s" "dkg_reachable B (st_node (co_session s))" by (simp_all add: coordination_inv_def)
  have "dkg_reachable B (st_node (co_session t))"
    using step_simulated [OF s(1) step] s(2) by (auto intro: reachable.step)
  moreover have "node_inv B (st_node (co_session s))" using s(2) by (rule dkg.reachable_inv)
  ultimately show "coordination_inv B a t"
    using inv well_formed_step [OF s(1) step] commit_reveal_step [OF _ _ step] revealed_step [OF _ _ _ step]
    by (simp add: coordination_inv_def)
qed

lemma accepted_from_peer:
  assumes "dkg_reachable B (st_node (co_session t))" "well_formed t" "kind_is_fresh (st_kind (co_session t))"
    and "map_of (nd_received_commitments (st_node (co_session t))) i = Some C"
  shows "is_peer (st_node (co_session t)) i"
proof -
  have "node_inv B (st_node (co_session t))" using assms(1) by (rule dkg.reachable_inv)
  then have "valid_sender (st_node (co_session t)) i" using map_of_SomeD [OF assms(4)] by (auto simp: node_inv_def)
  moreover have "\<not> kind_is_reshare (st_kind (co_session t))" using assms(3)
    by (simp add: kind_is_fresh_def kind_is_reshare_def split: session_kind.splits)
  then have "nd_role (st_node (co_session t)) = Standard" using assms(2) by (simp add: well_formed_def Let_def)
  ultimately show ?thesis by (simp add: valid_sender_def is_peer_def)
qed

text \<open>
  C5: commitments are fixed before any is revealed.  Suppose a node has been told to reveal its
  commitment to a fresh key, whatever its peers sent and however its tasks interleaved.  Then at that
  moment it holds a hash from every member whose commitment it will ever accept in this attempt, and
  what it accepts later hashes to exactly that value: nobody can choose a commitment in answer to the
  one this node reveals.
\<close>

theorem commit_before_reveal:
  assumes B: "lawful_backend B" and s: "coordinated B a s" "RevealCommitment \<in> set (co_selected s)"
    and t: "reachable ((=) s) (coordinator_step B a) t"
    and accepted: "map_of (nd_received_commitments (st_node (co_session t))) i = Some C"
  shows "map_of (st_received_hashes (co_session s)) i = Some (hash_of_commitment B a i C)"
proof -
  have inv: "coordination_inv B a s" using s(1) by (rule coordination.reachable_inv)
  from t inv have "coordination_inv B a t \<and> static (co_session t) = static (co_session s) \<and>
    (\<forall>h. map_of (st_received_hashes (co_session s)) i = Some h \<longrightarrow> map_of (st_received_hashes (co_session t)) i = Some h)"
  proof (induction rule: reachable.induct)
    case (step t t')
    then show ?case using coordination.step_inv step_static [OF step.hyps(2)] step_hash_kept [OF step.hyps(2)] by auto
  qed simp
  then have t_inv: "coordination_inv B a t" and static: "static (co_session t) = static (co_session s)"
    and kept: "\<And>h. map_of (st_received_hashes (co_session s)) i = Some h \<Longrightarrow> map_of (st_received_hashes (co_session t)) i = Some h"
    by blast+
  have revealed: "revealed_inv s" and held: "commit_reveal_inv B a t" using inv t_inv B by (simp_all add: coordination_inv_def)
  then have fresh: "kind_is_fresh (st_kind (co_session t))" using s(2) by (simp add: revealed_inv_def kind_static [OF static])
  have "dkg_reachable B (st_node (co_session t))" "well_formed t" using t_inv by (simp_all add: coordination_inv_def)
  then have "is_peer (st_node (co_session t)) i" using accepted fresh by (intro accepted_from_peer [of B])
  then obtain h where h: "map_of (st_received_hashes (co_session s)) i = Some h"
    using revealed s(2) by (auto simp: revealed_inv_def is_peer_static [OF static])
  have "map_of (st_received_hashes (co_session t)) i = Some (hash_of_commitment B a i C)"
    using held fresh accepted unfolding commit_reveal_inv_def by blast
  with h kept show ?thesis by simp
qed

section \<open>Completion\<close>

lemma completion_selected:
  assumes "CompletePhase4 \<in> set (tr_commands (transition sn e))" "sn_role sn \<noteq> Dealer"
  shows "should_complete_phase4 sn \<and> tr_next_phase (transition sn e) = Some Phase4Completing"
  using assms by (cases e) (auto simp: no_transition_def push_phase4_if_ready_def Let_def split: if_splits)

lemma should_complete_available:
  "should_complete_phase4 (snapshot B e st) \<Longrightarrow>
    is_ok (compute_secret_share (st_node st)) \<and> is_ok (compute_aggregate_public_key B (st_node st)) \<and>
    st_phase st \<notin> {Phase4Completing, Phase4Complete}"
  by (auto simp: should_complete_phase4_def snapshot_def split: if_splits)

lemma is_ok_iff: "is_ok r \<longleftrightarrow> (\<exists>x. r = Inr x)"
  by (cases r) (simp_all add: is_ok_def)

text \<open>
  C6: a ceremony completes with a correct share of its key.  Whatever the peers sent and however the
  tasks of a node interleaved, when its state machine decides to complete, the node has a secret share
  and a public key; the share's public image is the value of the public polynomial it publishes at the
  share's index, and the key is the value of that polynomial at zero.  This holds for fresh keys,
  refreshes and the receivers of a reshare alike.
\<close>

theorem completion_is_sound:
  assumes B: "lawful_backend B" and s: "coordinated B a s" "nd_role (st_node (co_session s)) \<noteq> Dealer"
    and claim: "claim_transition B e now (co_session s) = (st, t)" "CompletePhase4 \<in> set (tr_commands t)"
    and P: "compute_public_polynomial B (st_node st) = Inr P"
  shows "st_phase st = Phase4Completing \<and>
    (\<exists>share. compute_secret_share (st_node st) = Inr share \<and>
      compute_aggregate_public_key B (st_node st) = Inr (pub_poly_eval B P 0) \<and>
      smul B (pri_v share) (generator B) = pub_poly_eval B P (pri_i share))"
proof -
  note frame = claim_transition_frame [OF claim(1)]
  have "coordination_inv B a s" using s(1) by (rule coordination.reachable_inv)
  then have reach: "dkg_reachable B (st_node st)" by (simp add: coordination_inv_def frame(1))
  have "sn_role (snapshot B e (co_session s)) \<noteq> Dealer" using s(2) by (simp add: snapshot_def)
  with claim(2) have selected: "should_complete_phase4 (snapshot B e (co_session s))" "tr_next_phase t = Some Phase4Completing"
    using completion_selected [of "snapshot B e (co_session s)" e] by (simp_all add: frame(5))
  obtain share where share: "compute_secret_share (st_node st) = Inr share"
    using should_complete_available [OF selected(1)] by (auto simp: frame(1) is_ok_iff)
  then show ?thesis
    using share_on_polynomial [OF B reach share P] key_of_polynomial [OF B reach P] frame(6) selected(2)
    by (simp add: lawful_backend.pub_poly_eval_0 [OF B])
qed

section \<open>Every phase is started once\<close>

definition started :: "dkg_command \<Rightarrow> nat" where
  "started c = (case c of RevealCommitment \<Rightarrow> 2 | InitiatePhase2Shares \<Rightarrow> 3 | _ \<Rightarrow> 4)"

text \<open>A selected command moves the phase from before its own to its own.\<close>

definition next_phase :: "session_snapshot \<Rightarrow> dkg_event \<Rightarrow> dkg_phase" where
  "next_phase sn e = case_option (sn_phase sn) id (tr_next_phase (transition sn e))"

lemma ready_phase4_before:
  "should_complete_phase4 sn \<Longrightarrow> phase_rank (sn_phase sn) < 4"
  "should_initiate_phase2 sn \<Longrightarrow> phase_rank (sn_phase sn) < 3"
  "should_reveal_commitment sn \<Longrightarrow> phase_rank (sn_phase sn) < 2"
  by (cases "sn_phase sn"; simp add: should_complete_phase4_def should_initiate_phase2_def should_reveal_commitment_def
      phase_rank_def)+

lemma transition_moves_phase:
  assumes "sn_role sn \<noteq> Dealer"
  shows "phase_rank (sn_phase sn) \<le> phase_rank (next_phase sn e)"
    and "c \<in> {RevealCommitment, InitiatePhase2Shares, CompletePhase4} \<Longrightarrow>
      count_list (tr_commands (transition sn e)) c \<le>
        (if phase_rank (sn_phase sn) < started c \<and> started c \<le> phase_rank (next_phase sn e) then 1 else 0)"
  using assms ready_phase4_before [of sn]
  by (cases e; auto simp: next_phase_def no_transition_def push_phase4_if_ready_def Let_def started_def
      phase_rank_def [of Phase1Commitments] phase_rank_def [of Phase2Shares] phase_rank_def [of Phase4Completing])+

lemma snapshot_fields [simp]:
  "sn_phase (snapshot B e st) = st_phase st" "sn_role (snapshot B e st) = nd_role (st_node st)"
  by (simp_all add: snapshot_def)

lemma claim_moves_phase:
  assumes "claim_transition B e now st = (st', t)"
  shows "t = transition (snapshot B e st) e" "st_phase st' = next_phase (snapshot B e st) e"
  using claim_transition_frame(5,6) [OF assms] by (simp_all add: next_phase_def split: option.split)

text \<open>A command is selected once, and once more for every time a later phase was overwritten.\<close>

definition once_inv :: "('f, 'g) coordination \<Rightarrow> bool" where
  "once_inv s \<longleftrightarrow> nd_role (st_node (co_session s)) \<noteq> Dealer \<longrightarrow>
    (\<forall>c\<in>{RevealCommitment, InitiatePhase2Shares, CompletePhase4}.
      count_list (co_selected s) c \<le>
        co_backward s + (if started c \<le> phase_rank (st_phase (co_session s)) then 1 else 0))"

lemma once_invD:
  assumes "once_inv s" "nd_role (st_node (co_session s)) \<noteq> Dealer"
    and "c \<in> {RevealCommitment, InitiatePhase2Shares, CompletePhase4}"
  shows "count_list (co_selected s) c \<le> co_backward s + (if started c \<le> phase_rank (st_phase (co_session s)) then 1 else 0)"
  using assms unfolding once_inv_def by blast

lemma once_phase:
  assumes "once_inv s" "nd_role (st_node (co_session t)) = nd_role (st_node (co_session s))"
    and "co_selected t = co_selected s" "co_backward s \<le> co_backward t"
    and "phase_rank (st_phase (co_session s)) \<le> phase_rank (st_phase (co_session t)) \<or> co_backward s < co_backward t"
  shows "once_inv t"
  unfolding once_inv_def
proof (intro impI ballI)
  fix c
  assume "nd_role (st_node (co_session t)) \<noteq> Dealer" "c \<in> {RevealCommitment, InitiatePhase2Shares, CompletePhase4}"
  with assms(2) have "count_list (co_selected s) c \<le>
      co_backward s + (if started c \<le> phase_rank (st_phase (co_session s)) then 1 else 0)"
    by (intro once_invD [OF assms(1)]) simp_all
  with assms(3-5) show "count_list (co_selected t) c \<le>
      co_backward t + (if started c \<le> phase_rank (st_phase (co_session t)) then 1 else 0)"
    by (auto split: if_splits)
qed

lemma step_role: "coordinator_step B a s t \<Longrightarrow> nd_role (st_node (co_session t)) = nd_role (st_node (co_session s))"
  by (drule step_static) (simp add: static_def node_static_def)

lemma once_step:
  assumes inv: "once_inv s" and step: "coordinator_step B a s t"
  shows "once_inv t"
  using step
proof cases
  case (claimed e now st tr)
  show ?thesis unfolding once_inv_def
  proof (intro impI ballI)
    fix c
    assume "nd_role (st_node (co_session t)) \<noteq> Dealer" and c: "c \<in> {RevealCommitment, InitiatePhase2Shares, CompletePhase4}"
    then have role: "sn_role (snapshot B e (co_session s)) \<noteq> Dealer" by (simp add: step_role [OF step])
    have "count_list (co_selected s) c \<le>
        co_backward s + (if started c \<le> phase_rank (st_phase (co_session s)) then 1 else 0)"
      using role c by (intro once_invD [OF inv]) simp_all
    with transition_moves_phase(1) [OF role, of e] transition_moves_phase(2) [OF role c, of e]
    show "count_list (co_selected t) c \<le> co_backward t + (if started c \<le> phase_rank (st_phase (co_session t)) then 1 else 0)"
      by (simp add: claimed(1) claim_moves_phase [OF claimed(2)] split: if_splits)
  qed
next
  case (phase_set ph now)
  show ?thesis by (rule once_phase [OF inv step_role [OF step]]) (auto simp: phase_set(1))
next
  case (phase4_finished now)
  show ?thesis
    by (rule once_phase [OF inv step_role [OF step]])
      (auto simp: phase4_finished(1) phase_rank_def split: dkg_phase.split)
qed (rule once_phase [OF inv step_role [OF step]];
    simp add: closure_frames polynomial_stepD(3) [OF polynomial_steps(1)] polynomial_stepD(3) [OF polynomial_steps(2)]
      polynomial_stepD(3) [OF polynomial_steps(3)] polynomial_stepD(3) [OF polynomial_steps(4)])+

interpretation once: inductive_invariant "coordination_start a" "coordinator_step B a" once_inv
  for a and B :: "('f::field, 'g::ab_group_add) backend"
proof
  show "once_inv s" if "coordination_start a s" for s :: "('f, 'g) coordination"
    using that by (auto simp: coordination_start_def once_inv_def)
qed (rule once_step)


section \<open>A run\<close>

text \<open>
  The node of the run over the reference field, inside a session for a fresh key: it prepares its
  hash, records the hash of node 2, is told to reveal, and accepts node 2's commitment and share.
\<close>

definition ex_key :: attempt_key where
  "ex_key = \<lparr>ak_ceremony_id = CeremonyId 9, ak_attempt_id = AttemptId [1]\<rparr>"

definition ex_commitment :: "ref_scalar polynomial_commitment" where
  "ex_commitment = \<lparr>coefficients = [3, 7]\<rparr>"

definition ex_hash :: bytes where
  "ex_hash = hash_of_commitment ref_backend ex_key 2 ex_commitment"

definition ex_at ::
  "(ref_scalar, ref_scalar) dkg_node \<Rightarrow> dkg_phase \<Rightarrow> (u32 \<times> bytes) list \<Rightarrow> nat \<Rightarrow> u32 list \<Rightarrow> (ref_scalar, ref_scalar) session_state" where
  "ex_at n ph hashes commitments dealers =
    (reserve ex_key (session_new n 0))\<lparr>st_phase := ph, st_received_hashes := hashes,
      st_own_hash_broadcast_complete := (ph \<noteq> Initializing), st_commitments_received := commitments,
      st_received_shares := set dealers, st_shares_received := length dealers\<rparr>"

definition ex_run :: "(ref_scalar, ref_scalar) session_state \<Rightarrow> dkg_command list \<Rightarrow> (ref_scalar, ref_scalar) coordination" where
  "ex_run st selected = \<lparr>co_session = st, co_tasks = [], co_prepared = [], co_shares = [],
     co_selected = selected, co_backward = 0\<rparr>"

lemmas ex_run_defs = ex_run_def ex_at_def reserve_def session_new_def transport_default_def

abbreviation ex_steps :: "(ref_scalar, ref_scalar) coordination \<Rightarrow> (ref_scalar, ref_scalar) coordination \<Rightarrow> bool" where
  "ex_steps s \<equiv> reachable ((=) s) (coordinator_step ref_backend ex_key)"

lemma ex_run_start: "coordinated ref_backend ex_key (ex_run (ex_at ex_node0 Initializing [] 0 []) [])"
proof (rule reachable.start)
  show "coordination_start ex_key (ex_run (ex_at ex_node0 Initializing [] 0 []) [])"
    unfolding coordination_start_def
    by (intro exI [of _ 1] exI [of _ 2] exI [of _ 2] exI [of _ Standard] exI [of _ session_kind.Fresh]
        exI [of _ "st_routing (ex_at ex_node0 Initializing [] 0 [])"] exI [of _ None] exI [of _ 0] exI [of _ ex_node0])
      (simp add: ex_step0 ex_key_def kind_is_reshare_def ex_run_defs init_session_def Let_def)
qed

lemma ex_fresh_polynomial:
  "generate_polynomial ref_backend dkg_mode.Fresh (replicate 32 0 @ ex_tape) ex_node0 = Some (Inr ex_node1, [])"
  by code_simp

lemma ex_hash_prepared:
  "\<exists>h. phase0_commitment_hash ref_backend ex_key (replicate 32 0 @ ex_tape) (ex_at ex_node0 Initializing [] 0 []) =
    Some (ex_at ex_node1 Initializing [] 0 [], Inr h)"
proof -
  have "session_mode (ex_at ex_node0 Initializing [] 0 []) = (ex_at ex_node0 Initializing [] 0 [], Inr dkg_mode.Fresh)"
    "\<not> has_polynomial (ex_at ex_node0 Initializing [] 0 [])" "st_node (ex_at ex_node0 Initializing [] 0 []) = ex_node0"
    "ex_at ex_node0 Initializing [] 0 [] \<lparr>st_node := ex_node1\<rparr> = ex_at ex_node1 Initializing [] 0 []"
    "kind_is_fresh (st_kind (ex_at ex_node0 Initializing [] 0 []))" "nd_role ex_node0 \<noteq> Receiver"
    by (simp_all add: session_mode_def ex_run_defs has_polynomial_def kind_is_fresh_def ex_node0_def)
  with ex_fresh_polynomial show ?thesis
    by (simp add: phase0_commitment_hash_def with_polynomial_def ensure_polynomial_def session_generate_polynomial_def)
qed

lemma ex_local_steps:
  assumes "ts_attempt (st_transport st) = Some ex_key"
  shows "local_step ex_key EvHashBroadcast st = st\<lparr>st_own_hash_broadcast_complete := True\<rparr>"
    "local_step ex_key (EvShare i) st = record_received_share i st"
  using assms by (simp_all add: local_step_def mark_commitment_hash_broadcast_complete_for_attempt_def
      record_received_share_for_attempt_def with_attempt_state_mut_def)

lemma ex_at_attempt: "ts_attempt (st_transport (ex_at n ph hs c ds)) = Some ex_key"
  by (simp add: ex_run_defs ts_attempt_def)

lemma ex_broadcast: "coordinated ref_backend ex_key (ex_run (ex_at ex_node1 Phase0CommitmentHashes [] 0 []) [])"
proof -
  let ?s = "ex_run (ex_at ex_node0 Initializing [] 0 []) []"
  let ?t = "(ex_run (ex_at ex_node1 Initializing [] 0 []) [])\<lparr>co_tasks := [SetPhase Phase0CommitmentHashes]\<rparr>"
  let ?u = "ex_run (transition_phase Phase0CommitmentHashes 0 (ex_at ex_node1 Initializing [] 0 [])) []"
  obtain h where hash: "phase0_commitment_hash ref_backend ex_key (replicate 32 0 @ ex_tape) (co_session ?s)
      = Some (ex_at ex_node1 Initializing [] 0 [], Inr h)"
    using ex_hash_prepared by (auto simp: ex_run_def)
  have "coordinator_step ref_backend ex_key ?s ?t"
    using coordinator_step.hash_prepared [OF hash] by (simp add: ex_run_def then_do_def is_ok_def)
  moreover have "coordinator_step ref_backend ex_key ?t ?u"
    using coordinator_step.phase_set [of Phase0CommitmentHashes ?t ref_backend ex_key 0]
    by (simp add: ex_run_defs phase_rank_def)
  moreover have "coordinator_step ref_backend ex_key ?u (ex_run (ex_at ex_node1 Phase0CommitmentHashes [] 0 []) [])"
    using coordinator_step.operated [of EvHashBroadcast ref_backend ex_key ?u]
    by (simp add: ex_run_defs ex_local_steps transition_phase_def ts_attempt_def)
  ultimately show ?thesis using ex_run_start by (blast intro: reachable.step)
qed

lemma ex_revealing:
  "coordinated ref_backend ex_key (ex_run (ex_at ex_node1 Phase1Commitments [(2, ex_hash)] 0 []) [RevealCommitment])"
proof -
  let ?s = "ex_run (ex_at ex_node1 Phase0CommitmentHashes [] 0 []) []"
  let ?t = "ex_run (ex_at ex_node1 Phase0CommitmentHashes [(2, ex_hash)] 0 []) []"
  have "coordinator_step ref_backend ex_key ?s ?t"
    using coordinator_step.hash_recorded [of ?s 2 ex_hash _ _ ref_backend ex_key]
    by (simp add: ex_run_defs record_commitment_hash_def kind_is_fresh_def is_peer_def ex_node1_def ex_node0_def as_u32_def)
  moreover have "coordinator_step ref_backend ex_key ?t
      (ex_run (ex_at ex_node1 Phase1Commitments [(2, ex_hash)] 0 []) [RevealCommitment])"
    using coordinator_step.claimed [of ref_backend CommitmentHashRecorded 0 ?t _ _ ex_key]
    by (simp add: ex_run_defs claim_transition_def snapshot_def should_reveal_commitment_def kind_is_fresh_def
        has_polynomial_def ex_node1_def ex_node0_def transition_phase_def)
  ultimately show ?thesis using ex_broadcast by (blast intro: reachable.step)
qed

lemma ex_prepare:
  "prepare_commitment_message ref_backend ex_key 2 (serialize_commitment_coefficients ref_backend [3, 7]) (Inr ()) None
    (ex_at ex_node1 Phase1Commitments [(2, ex_hash)] 0 []) = Inr (Ready ex_commitment True False)"
proof -
  have bytes: "serialize_commitment_coefficients ref_backend [3, 7] = concat (map (point_to_bytes ref_backend) [3, 7])"
    by (simp add: serialize_commitment_coefficients_def)
  have chunks: "as_chunks 32 2 (serialize_commitment_coefficients ref_backend [3, 7]) = map (point_to_bytes ref_backend) [3, 7]"
  proof -
    have "length [3, 7 :: ref_scalar] = 2" by simp
    with reference.chunks_of_points [of "[3, 7]"] show ?thesis by (simp only: bytes)
  qed
  have width: "length (serialize_commitment_coefficients ref_backend [3, 7]) = 64"
    by (simp add: bytes ref_scalar_bytes_def)
  have size: "expected_commitment_size (ex_at ex_node1 Phase1Commitments [(2, ex_hash)] 0 []) = 2"
    by (simp add: expected_commitment_size_def ex_run_defs ex_node1_def ex_node0_def)
  have "element_from_bytes ref_backend (ref_scalar_bytes x) = Inr x" for x
    using reference.element_from_bytes_to_bytes [of x] by simp
  with ex_step2 width chunks size show ?thesis
    by (auto simp: prepare_commitment_message_def ex_run_defs ex_hash_def hash_of_commitment_def ex_commitment_def Let_def
        kind_is_fresh_def kind_is_refresh_def kind_is_reshare_def MAX_COMMITMENT_COEFFICIENTS_def GROUP_POINT_SIZE_def result_simps)
qed

lemma ex_steps_trans:
  assumes "ex_steps s t" "coordinated ref_backend ex_key s" shows "coordinated ref_backend ex_key t"
  using assms by (induction rule: reachable.induct) (auto intro: reachable.step)

lemma ex_committed:
  "ex_steps (ex_run (ex_at ex_node1 Phase1Commitments [(2, ex_hash)] 0 []) [RevealCommitment])
    (ex_run (ex_at ex_node2 Phase1Commitments [(2, ex_hash)] 1 []) [RevealCommitment])"
proof -
  let ?s = "ex_run (ex_at ex_node1 Phase1Commitments [(2, ex_hash)] 0 []) [RevealCommitment]"
  let ?t = "?s\<lparr>co_prepared := [(2, ex_commitment, True)]\<rparr>"
  have "coordinator_step ref_backend ex_key ?s ?t"
    using coordinator_step.commitment_prepared [of ref_backend ex_key 2 _ "Inr ()" ?s] ex_prepare
    by (simp add: ex_run_def)
  moreover have "coordinator_step ref_backend ex_key ?t
      (ex_run (ex_at ex_node2 Phase1Commitments [(2, ex_hash)] 1 []) [RevealCommitment])"
    using coordinator_step.commitment_recorded [of 2 ex_commitment True ?t _ _ ref_backend ex_key] ex_step2
    by (simp add: ex_run_defs record_commitment_def ex_commitment_def has_polynomial_def ex_node1_def)
  ultimately show ?thesis by (blast intro: reachable.intros)
qed

lemma ex_shared: "coordinated ref_backend ex_key (ex_run (ex_at ex_node3 Phase1Commitments [(2, ex_hash)] 1 [2]) [RevealCommitment])"
proof -
  let ?s = "ex_run (ex_at ex_node2 Phase1Commitments [(2, ex_hash)] 1 []) [RevealCommitment]"
  let ?t = "?s\<lparr>co_shares := [ex_share]\<rparr>"
  let ?u = "ex_run (ex_at ex_node3 Phase1Commitments [(2, ex_hash)] 1 []) [RevealCommitment]"
  have "coordinator_step ref_backend ex_key ?s ?t"
    using coordinator_step.share_arrived [of ?s ex_share ref_backend ex_key]
    by (simp add: ex_run_defs share_recipient_def ex_share_def ex_node2_def ex_node1_def ex_node0_def)
  moreover have "coordinator_step ref_backend ex_key ?t ?u"
    using coordinator_step.share_received [of ex_share ?t ref_backend _ _ ex_key] ex_step3
    by (simp add: ex_run_defs try_receive_share_def is_ok_def)
  moreover have "coordinator_step ref_backend ex_key ?u (ex_run (ex_at ex_node3 Phase1Commitments [(2, ex_hash)] 1 [2]) [RevealCommitment])"
    using coordinator_step.operated [of "EvShare 2" ref_backend ex_key ?u]
    by (simp add: ex_run_def ex_local_steps ex_at_attempt) (simp add: ex_run_defs record_received_share_def)
  ultimately show ?thesis using ex_steps_trans [OF ex_committed ex_revealing] by (blast intro: reachable.step)
qed

lemma ex_complete:
  "claim_transition ref_backend ReadinessChanged 0 (ex_at ex_node3 Phase1Commitments [(2, ex_hash)] 1 [2]) =
    (ex_at ex_node3 Phase4Completing [(2, ex_hash)] 1 [2],
     \<lparr>tr_next_phase = Some Phase4Completing, tr_commands = [CompletePhase4]\<rparr>)"
proof -
  have "is_ok (compute_aggregate_public_key ref_backend ex_node3)" by code_simp
  moreover have "is_ok (compute_secret_share ex_node3)" using ex_results by (simp add: is_ok_def)
  moreover have "nd_role ex_node3 = Standard" "nd_total_nodes ex_node3 = 2"
    by (simp_all add: ex_node3_def ex_node2_def ex_node1_def ex_node0_def)
  ultimately show ?thesis
    by (simp add: claim_transition_def snapshot_def ex_run_defs push_phase4_if_ready_def should_complete_phase4_def
        phase4_expected_shares_def no_transition_def transition_phase_def kind_is_reshare_def)
qed

lemma commit_before_reveal_witness:
  "map_of (st_received_hashes (ex_at ex_node1 Phase1Commitments [(2, ex_hash)] 0 [])) 2 =
    Some (hash_of_commitment ref_backend ex_key 2 ex_commitment)"
proof -
  have "RevealCommitment \<in> set (co_selected (ex_run (ex_at ex_node1 Phase1Commitments [(2, ex_hash)] 0 []) [RevealCommitment]))"
    "map_of (nd_received_commitments (st_node (co_session
      (ex_run (ex_at ex_node2 Phase1Commitments [(2, ex_hash)] 1 []) [RevealCommitment])))) 2 = Some ex_commitment"
    by (simp_all add: ex_run_defs ex_node2_def ex_commitment_def)
  from commit_before_reveal [OF reference.lawful_backend_axioms ex_revealing this(1) ex_committed this(2)]
  show ?thesis by (simp add: ex_run_def)
qed

lemma completion_is_sound_witness:
  "\<exists>share. compute_secret_share ex_node3 = Inr share \<and>
    compute_aggregate_public_key ref_backend ex_node3 = Inr (pub_poly_eval ref_backend \<lparr>commits = [3, 12]\<rparr> 0) \<and>
    smul ref_backend (pri_v share) (generator ref_backend) = pub_poly_eval ref_backend \<lparr>commits = [3, 12]\<rparr> (pri_i share)"
proof -
  let ?s = "ex_run (ex_at ex_node3 Phase1Commitments [(2, ex_hash)] 1 [2]) [RevealCommitment]"
  have "nd_role (st_node (co_session ?s)) \<noteq> Dealer"
    by (simp add: ex_run_defs ex_node3_def ex_node2_def ex_node1_def ex_node0_def)
  moreover have "claim_transition ref_backend ReadinessChanged 0 (co_session ?s) =
      (ex_at ex_node3 Phase4Completing [(2, ex_hash)] 1 [2], \<lparr>tr_next_phase = Some Phase4Completing, tr_commands = [CompletePhase4]\<rparr>)"
    using ex_complete by (simp add: ex_run_def)
  moreover have "st_node (ex_at ex_node3 Phase4Completing [(2, ex_hash)] 1 [2]) = ex_node3" by (simp add: ex_run_defs)
  ultimately show ?thesis
    using completion_is_sound [OF reference.lawful_backend_axioms ex_shared, of ReadinessChanged 0 _ _ "\<lparr>commits = [3, 12]\<rparr>"]
      ex_results(2) by (auto simp del: One_nat_def)
qed


text \<open>
  The bound is tight: a node that writes the start of phase 1 after its last commitment came in deals
  its shares twice.
\<close>

lemma ex_phase1_pending:
  "coordinated ref_backend ex_key ((ex_run (ex_at ex_node1 Phase1Commitments [(2, ex_hash)] 0 []) [RevealCommitment])
    \<lparr>co_tasks := [SetPhase Phase1Commitments]\<rparr>)"
proof -
  let ?s = "ex_run (ex_at ex_node1 Phase1Commitments [(2, ex_hash)] 0 []) [RevealCommitment]"
  have commitment: "phase1_commitment ref_backend [] (co_session ?s) = Some (co_session ?s, Inr (commitment_bytes ref_backend (co_session ?s)))"
    by (simp add: phase1_commitment_def with_polynomial_def ensure_polynomial_def has_polynomial_def ex_run_defs ex_node1_def)
  have "coordinator_step ref_backend ex_key ?s (?s\<lparr>co_tasks := [Phase1Unstarted]\<rparr>)"
    using coordinator_step.phase1_requested [of ?s] by (simp add: ex_run_defs phase1_already_started_def)
  moreover have "coordinator_step ref_backend ex_key (?s\<lparr>co_tasks := [Phase1Unstarted]\<rparr>) (?s\<lparr>co_tasks := [Phase1Permitted]\<rparr>)"
    using coordinator_step.phase1_checked [of "?s\<lparr>co_tasks := [Phase1Unstarted]\<rparr>"]
    by (simp add: ex_run_defs phase1_permitted_def kind_is_reshare_def)
  moreover have "coordinator_step ref_backend ex_key (?s\<lparr>co_tasks := [Phase1Permitted]\<rparr>) (?s\<lparr>co_tasks := [SetPhase Phase1Commitments]\<rparr>)"
    using coordinator_step.phase1_committed [of "?s\<lparr>co_tasks := [Phase1Permitted]\<rparr>" ref_backend "[]"] commitment
    by (simp add: ex_run_def then_do_def is_ok_def)
  ultimately show ?thesis using ex_revealing by (blast intro: reachable.step)
qed

lemma ex_phase2_claimed:
  "claim_transition ref_backend CommitmentRecorded 0 (ex_at ex_node2 Phase1Commitments [(2, ex_hash)] 1 []) =
    (ex_at ex_node2 Phase2Shares [(2, ex_hash)] 1 [],
     \<lparr>tr_next_phase = Some Phase2Shares, tr_commands = [InitiatePhase2Shares]\<rparr>)"
  by (simp add: claim_transition_def snapshot_def ex_run_defs should_initiate_phase2_def phase1_expected_commitments_def
      transition_phase_def kind_is_reshare_def has_polynomial_def ex_node2_def ex_node1_def ex_node0_def)

lemma phase2_selected_twice:
  "\<exists>s. coordinated ref_backend ex_key s \<and> co_backward s = 1 \<and> count_list (co_selected s) InitiatePhase2Shares = 2"
proof -
  let ?at = "\<lambda>n ph c. ex_at n ph [(2, ex_hash)] c []"
  let ?s = "\<lambda>st prepared selected. (ex_run st selected)\<lparr>co_tasks := [SetPhase Phase1Commitments], co_prepared := prepared\<rparr>"
  let ?t = "\<lambda>st selected. (ex_run st selected)\<lparr>co_backward := 1\<rparr>"
  have "coordinator_step ref_backend ex_key (?s (?at ex_node1 Phase1Commitments 0) [] [RevealCommitment])
      (?s (?at ex_node1 Phase1Commitments 0) [(2, ex_commitment, True)] [RevealCommitment])"
    using coordinator_step.commitment_prepared [of ref_backend ex_key 2 _ "Inr ()" "?s (?at ex_node1 Phase1Commitments 0) [] [RevealCommitment]"]
      ex_prepare by (simp add: ex_run_def)
  moreover have "coordinator_step ref_backend ex_key (?s (?at ex_node1 Phase1Commitments 0) [(2, ex_commitment, True)] [RevealCommitment])
      (?s (?at ex_node2 Phase1Commitments 1) [] [RevealCommitment])"
    using coordinator_step.commitment_recorded [of 2 ex_commitment True
        "?s (?at ex_node1 Phase1Commitments 0) [(2, ex_commitment, True)] [RevealCommitment]" _ _ ref_backend ex_key] ex_step2
    by (simp add: ex_run_defs record_commitment_def ex_commitment_def has_polynomial_def ex_node1_def)
  moreover have "coordinator_step ref_backend ex_key (?s (?at ex_node2 Phase1Commitments 1) [] [RevealCommitment])
      (?s (?at ex_node2 Phase2Shares 1) [] [RevealCommitment, InitiatePhase2Shares])"
    using coordinator_step.claimed [of ref_backend CommitmentRecorded 0 "?s (?at ex_node2 Phase1Commitments 1) [] [RevealCommitment]" _ _ ex_key]
      ex_phase2_claimed by (simp add: ex_run_def)
  moreover have "coordinator_step ref_backend ex_key (?s (?at ex_node2 Phase2Shares 1) [] [RevealCommitment, InitiatePhase2Shares])
      (?t (?at ex_node2 Phase1Commitments 1) [RevealCommitment, InitiatePhase2Shares])"
    using coordinator_step.phase_set [of Phase1Commitments
        "?s (?at ex_node2 Phase2Shares 1) [] [RevealCommitment, InitiatePhase2Shares]" ref_backend ex_key 0]
    by (simp add: ex_run_defs phase_rank_def transition_phase_def)
  moreover have "coordinator_step ref_backend ex_key (?t (?at ex_node2 Phase1Commitments 1) [RevealCommitment, InitiatePhase2Shares])
      (?t (?at ex_node2 Phase2Shares 1) [RevealCommitment, InitiatePhase2Shares, InitiatePhase2Shares])"
    using coordinator_step.claimed [of ref_backend CommitmentRecorded 0
        "?t (?at ex_node2 Phase1Commitments 1) [RevealCommitment, InitiatePhase2Shares]" _ _ ex_key]
      ex_phase2_claimed by (simp add: ex_run_def)
  moreover have "coordinated ref_backend ex_key (?s (?at ex_node1 Phase1Commitments 0) [] [RevealCommitment])"
    using ex_phase1_pending by (simp add: ex_run_def)
  ultimately have "coordinated ref_backend ex_key
      (?t (?at ex_node2 Phase2Shares 1) [RevealCommitment, InitiatePhase2Shares, InitiatePhase2Shares])"
    by (meson reachable.step)
  then show ?thesis by (intro exI conjI, assumption) (simp_all add: ex_run_def)
qed

end
