(* ===== verification/Sign_Service.thy ===== *)
theory Sign_Service
  imports Sign_Security Receipts Replay
begin

text \<open>
  The signing service of a node (\<open>sign/v0\<close>) over FROST: what a responder does with a request for a
  nonce and a request for a signature share.  Authorization by token, bulletin and policy engine and the
  encrypted storage are arguments: their verdicts and what they hold.
\<close>

section \<open>Errors and messages\<close>

datatype sign_error =
    Unauthorized string
  | Serialization string
  | Deserialization string
  | NetworkConnection string
  | NetworkCommunication string
  | Crypto string
  | VerificationFailed string
  | RecoveryFailed string
  | Storage string
  | RingNotFound string
  | InsufficientShares nat nat
  | Timeout string
  | InvalidInput string
  | InvalidState string
  | NonceState string
  | ProtocolError string
  | ReshareInProgress
  | Generic string
  | SystemTime string
  | RequestTimestamp string
  | RingState string
  | AuthZ string

record key_derivation =
  kd_ring_id :: string
  kd_derivation :: string
  kd_policy_id :: string
  kd_resource :: string
  kd_permission :: string

text \<open>
  The valid window of a policy context, which authorization reads, and its relay statement, used for
  reports, are left out.
\<close>

record policy_context =
  pc_token_string :: string
  pc_derivation_id :: string
  pc_key_derivation :: key_derivation

record ring_reshare_update_statement =
  ru_domain :: string
  ru_session_id :: u128
  ru_chain_id :: string
  ru_ring_pk :: string
  ru_ring_id :: string
  ru_current_ring_sha256 :: string
  ru_finalized_ring_sha256 :: string
  ru_block_number_nonce :: u64

record refresh_health_check_statement =
  rh_domain :: string
  rh_session_id :: u128
  rh_ring_pk :: string
  rh_public_polynomial_sha256 :: string
  rh_peer_node_keys_sha256 :: string
  rh_threshold :: u32
  rh_total_participants :: u32

text \<open>Of a report only the id of its envelope is kept.\<close>

datatype sign_context =
    Bulletin string
  | Policy policy_context
  | RingReshareUpdate ring_reshare_update_statement
  | RefreshHealthCheck refresh_health_check_statement
  | Report string

record nonce_request =
  nr_request_id :: string
  nr_from_node_id :: u32
  nr_ring_pk :: bytes
  nr_context :: sign_context

record sign_request =
  sq_request_id :: string
  sq_from_node_id :: u32
  sq_message :: bytes
  sq_all_commitments :: bytes
  sq_context :: sign_context

datatype sign_message =
    NonceRequest nonce_request
  | NonceResponse string u32 bytes
  | SignRequest sign_request
  | SignResponse string u32 bytes u64 bytes
  | SignFailure string string

section \<open>Commitment lists on the wire\<close>

definition MAX_COMMITMENTS :: nat where
  "MAX_COMMITMENTS = 256"

definition MAX_COMMITMENT_SIZE :: nat where
  "MAX_COMMITMENT_SIZE = 1024"

definition MIN_ITEM_SIZE :: nat where
  "MIN_ITEM_SIZE = 9"

definition commitment_item :: "('f, 'g) backend \<Rightarrow> u32 \<times> 'g frost_nonce_commitment \<Rightarrow> bytes" where
  "commitment_item B c =
    (let b = nonce_commitment_to_bytes B (snd c) in le_u32 (fst c) @ le_u32 (as_u32 (length b)) @ b)"

definition serialize_commitments :: "('f, 'g) backend \<Rightarrow> (u32 \<times> 'g frost_nonce_commitment) list \<Rightarrow> bytes" where
  "serialize_commitments B cs =
    (if cs = [] then [] else le_u32 (as_u32 (length cs)) @ concat (map (commitment_item B) cs))"

text \<open>The loop of \<open>deserialize_commitments\<close>, on what is left of the buffer.\<close>

fun read_commitments :: "('f, 'g) backend \<Rightarrow> nat \<Rightarrow> bytes
    \<Rightarrow> sign_error + ((u32 \<times> 'g frost_nonce_commitment) list \<times> bytes)" where
  "read_commitments B 0 b = Inr ([], b)"
| "read_commitments B (Suc n) b =
    (if length b < 8 then Inl (Deserialization ''Commitment bytes truncated'')
     else
       let i = u32_of_le (slice 0 4 b); commitment_len = unat (u32_of_le (slice 4 8 b)); rest = drop 8 b
       in if MAX_COMMITMENT_SIZE < commitment_len
          then Inl (Deserialization ''Commitment length {} exceeds maximum {}'')
          else if length rest < commitment_len then Inl (Deserialization ''Commitment data truncated'')
          else
            rbind (map_err (Deserialization ''Failed to deserialize commitment: {}'')
                    (nonce_commitment_from_bytes B (take commitment_len rest))) (\<lambda>commitment.
            rbind (read_commitments B n (drop commitment_len rest)) (\<lambda>(cs, b).
              Inr ((i, commitment) # cs, b))))"

definition deserialize_commitments ::
  "('f, 'g) backend \<Rightarrow> bytes \<Rightarrow> sign_error + (u32 \<times> 'g frost_nonce_commitment) list" where
  "deserialize_commitments B b =
    (if b = [] then Inr []
     else if length b < 4 then Inl (Deserialization ''Commitment bytes too short'')
     else
       let count = unat (u32_of_le (slice 0 4 b))
       in if MAX_COMMITMENTS < count then Inl (Deserialization ''Commitment count {} exceeds maximum {}'')
          else if (length b - 4) div MIN_ITEM_SIZE < count
          then Inl (Deserialization ''Commitment count {} exceeds what fits in {} remaining bytes'')
          else rbind (read_commitments B count (drop 4 b)) (\<lambda>(cs, rest).
            if rest \<noteq> [] then Inl (Deserialization ''Trailing bytes: consumed {} of {} bytes'') else Inr cs))"

section \<open>Commitment lists round-trip\<close>

context lawful_backend
begin

lemma read_commitment_items:
  "read_commitments B (length cs) (concat (map (commitment_item B) cs) @ rest) = Inr (cs, rest)"
proof (induction cs)
  case (Cons c cs)
  let ?b = "nonce_commitment_to_bytes B (snd c)"
  have len: "length ?b = 64" by (simp add: nonce_commitment_to_bytes_def)
  then have "commitment_item B c = le_u32 (fst c) @ le_u32 64 @ ?b" by (simp add: commitment_item_def as_u32_def)
  moreover have "nonce_commitment_from_bytes B ?b = Inr (snd c)" by (simp add: nonce_commitment_codec)
  ultimately show ?case
    using Cons.IH len by (simp add: slice_simps MAX_COMMITMENT_SIZE_def)
qed simp

lemma commitments_round_trip:
  assumes "length cs \<le> MAX_COMMITMENTS"
  shows "deserialize_commitments B (serialize_commitments B cs) = Inr cs"
proof (cases "cs = []")
  case False
  have item: "length (commitment_item B c) = 72" for c
    by (simp add: commitment_item_def Let_def nonce_commitment_to_bytes_def)
  have items: "length (concat (map (commitment_item B) cs)) = 72 * length cs"
    by (simp add: length_concat item comp_def sum_list_triv)
  have "unat (as_u32 (length cs)) = length cs"
    using assms by (simp add: as_u32_small MAX_COMMITMENTS_def)
  moreover have "le_u32 (as_u32 (length cs)) \<noteq> []"
    by (metis length_le_u32 length_0_conv zero_neq_numeral)
  ultimately show ?thesis
    using False assms read_commitment_items [of cs "[]"] items
    by (simp add: deserialize_commitments_def serialize_commitments_def slice_simps MIN_ITEM_SIZE_def)
qed (simp add: serialize_commitments_def deserialize_commitments_def)

end

section \<open>Context keys\<close>

text \<open>The crate \<open>hex\<close>.\<close>

record hex_codec =
  hex_encode :: "bytes \<Rightarrow> string"
  hex_decode :: "string \<Rightarrow> bytes option"

definition sha256_hex :: "('f, 'g) backend \<Rightarrow> hex_codec \<Rightarrow> bytes \<Rightarrow> string" where
  "sha256_hex B H b = hex_encode H (sha256 B b)"

definition decode_sha256_hex :: "hex_codec \<Rightarrow> string \<Rightarrow> sign_error + bytes" where
  "decode_sha256_hex H v =
    rbind (ok_or (Deserialization ''Failed to decode {label} hex: {e}'') (hex_decode H v)) (\<lambda>b.
      if length b \<noteq> 32 then Inl (InvalidInput ''{label} must decode to 32 bytes, got {}'') else Inr b)"

text \<open>\<open>ring_reshare_finalize_sign_bytes\<close> of the bulletin client is the argument \<open>sign_bytes\<close>.\<close>

type_synonym finalize_sign_bytes = "string \<Rightarrow> string \<Rightarrow> string \<Rightarrow> bytes \<Rightarrow> bytes \<Rightarrow> u64 \<Rightarrow> bytes option"

definition ring_reshare_update_message ::
  "hex_codec \<Rightarrow> finalize_sign_bytes \<Rightarrow> ring_reshare_update_statement \<Rightarrow> sign_error + bytes" where
  "ring_reshare_update_message H sign_bytes s =
    rbind (decode_sha256_hex H (ru_current_ring_sha256 s)) (\<lambda>current_ring_sha256.
    rbind (decode_sha256_hex H (ru_finalized_ring_sha256 s)) (\<lambda>finalized_ring_sha256.
      ok_or (Serialization ''Failed to serialize ring reshare finalize sign document: {e}'')
        (sign_bytes (ru_chain_id s) (ru_ring_id s) (ru_ring_pk s) current_ring_sha256 finalized_ring_sha256
          (ru_block_number_nonce s))))"

definition ring_reshare_update_context_key :: "('f, 'g) backend \<Rightarrow> hex_codec \<Rightarrow> finalize_sign_bytes
    \<Rightarrow> ring_reshare_update_statement \<Rightarrow> sign_error + string" where
  "ring_reshare_update_context_key B H sign_bytes s =
    rbind (ring_reshare_update_message H sign_bytes s) (\<lambda>b. Inr (''ring-reshare-update:'' @ sha256_hex B H b))"

definition write_len_prefixed_bytes :: "bytes \<Rightarrow> bytes" where
  "write_len_prefixed_bytes b = le_u32 (as_u32 (length b)) @ b"

definition write_len_prefixed_str :: "string \<Rightarrow> bytes" where
  "write_len_prefixed_str s = le_u32 (as_u32 (length s)) @ as_bytes s"

definition refresh_health_check_message :: "hex_codec \<Rightarrow> refresh_health_check_statement \<Rightarrow> sign_error + bytes" where
  "refresh_health_check_message H s =
    rbind (decode_sha256_hex H (rh_public_polynomial_sha256 s)) (\<lambda>public_polynomial_sha256.
    rbind (decode_sha256_hex H (rh_peer_node_keys_sha256 s)) (\<lambda>peer_node_keys_sha256.
      Inr (write_len_prefixed_str (rh_domain s) @ le_bytes 16 (unat (rh_session_id s))
        @ write_len_prefixed_str (rh_ring_pk s) @ write_len_prefixed_bytes public_polynomial_sha256
        @ write_len_prefixed_bytes peer_node_keys_sha256 @ le_u32 (rh_threshold s)
        @ le_u32 (rh_total_participants s))))"

definition refresh_health_check_context_key ::
  "('f, 'g) backend \<Rightarrow> hex_codec \<Rightarrow> refresh_health_check_statement \<Rightarrow> sign_error + string" where
  "refresh_health_check_context_key B H s =
    rbind (refresh_health_check_message H s) (\<lambda>b. Inr (''refresh-health-check:'' @ sha256_hex B H b))"

definition context_key ::
  "('f, 'g) backend \<Rightarrow> hex_codec \<Rightarrow> finalize_sign_bytes \<Rightarrow> sign_context \<Rightarrow> sign_error + string" where
  "context_key B H sign_bytes context =
    (case context of
       Bulletin object_id \<Rightarrow> Inr (''bulletin:'' @ object_id)
     | Policy ctx \<Rightarrow> Inr (pc_derivation_id ctx)
     | RingReshareUpdate s \<Rightarrow> ring_reshare_update_context_key B H sign_bytes s
     | RefreshHealthCheck s \<Rightarrow> refresh_health_check_context_key B H s
     | Report report_id \<Rightarrow> Inr (''report:'' @ report_id))"

section \<open>Nonces between the rounds\<close>

record nonce_entry =
  ne_bytes :: bytes
  ne_context_key :: string
  ne_coordinator_peer_id :: bytes
  ne_created_at :: instant

datatype nonce_store_outcome = NonceStored | NonceAlreadyExists | NonceLimitReached

record consumed_nonce =
  cn_bytes :: bytes
  cn_context_key :: string

type_synonym nonce_map = "(string \<times> nonce_entry) list"

definition MAX_NONCE_STATES :: nat where
  "MAX_NONCE_STATES = 1000"

definition SIGN_NONCE_TTL :: duration where
  "SIGN_NONCE_TTL = from_secs 45"

definition sign_key :: "u64 \<Rightarrow> string \<Rightarrow> string" where
  "sign_key protocol_version request_id = CHR ''v'' # decimal (unat protocol_version) @ CHR '':'' # request_id"

definition remove_expired_nonces :: "nonce_map \<Rightarrow> instant \<Rightarrow> nonce_map \<times> nat" where
  "remove_expired_nonces m now =
    (let kept = filter (\<lambda>(_, entry). \<not> SIGN_NONCE_TTL \<le> now - ne_created_at entry) m
     in (kept, length m - length kept))"

text \<open>The clock is read for the expiry of old entries and again for the new one.\<close>

definition store_nonce :: "nonce_map \<Rightarrow> u64 \<Rightarrow> string \<Rightarrow> bytes \<Rightarrow> string \<Rightarrow> bytes \<Rightarrow> instant \<Rightarrow> instant
    \<Rightarrow> nonce_map \<times> nonce_store_outcome" where
  "store_nonce m protocol_version request_id b key_of_context coordinator_peer_id now stamp =
    (let key = sign_key protocol_version request_id; m = fst (remove_expired_nonces m now)
     in if MAX_NONCE_STATES \<le> length m then (m, NonceLimitReached)
        else if map_of m key \<noteq> None then (m, NonceAlreadyExists)
        else (AList.update key \<lparr>ne_bytes = b, ne_context_key = key_of_context,
               ne_coordinator_peer_id = coordinator_peer_id, ne_created_at = stamp\<rparr> m, NonceStored))"

definition consume_nonce :: "nonce_map \<Rightarrow> u64 \<Rightarrow> string \<Rightarrow> bytes \<Rightarrow> nonce_map \<times> consumed_nonce option" where
  "consume_nonce m protocol_version request_id coordinator_peer_id =
    (let key = sign_key protocol_version request_id
     in case map_of m key of
          None \<Rightarrow> (m, None)
        | Some entry \<Rightarrow>
            if ne_coordinator_peer_id entry \<noteq> coordinator_peer_id then (m, None)
            else (AList.delete key m,
                  Some \<lparr>cn_bytes = ne_bytes entry, cn_context_key = ne_context_key entry\<rparr>))"

definition into_bytes_for_context :: "consumed_nonce \<Rightarrow> string \<Rightarrow> bytes option" where
  "into_bytes_for_context n expected_context_key =
    (if cn_context_key n \<noteq> expected_context_key then None else Some (cn_bytes n))"

section \<open>The responder\<close>

definition MAX_SIGN_MESSAGE_BYTES :: nat where
  "MAX_SIGN_MESSAGE_BYTES = 1024 * 1024"

definition decode_ring_pk_bytes :: "('f, 'g) backend \<Rightarrow> bytes \<Rightarrow> sign_error + 'g" where
  "decode_ring_pk_bytes B b =
    map_err (Deserialization ''Failed to deserialize ring public key: {}'') (element_from_bytes B b)"

definition bundle_pri_share :: "('f, 'g) backend \<Rightarrow> ring_share_bundle \<Rightarrow> string + 'f pri_share" where
  "bundle_pri_share B bundle =
    map_err ''Failed to deserialize PriShare: {}'' (pri_share_from_bytes (fr_from_bytes B) (rb_share_bytes bundle))"

text \<open>\<open>RingShareBundle::load\<close> on the encrypted storage is the argument \<open>load\<close>.\<close>

definition load_dist_key_share ::
  "('f, 'g) backend \<Rightarrow> ('g \<Rightarrow> string + ring_share_bundle) \<Rightarrow> 'g \<Rightarrow> sign_error + 'f dist_key_share" where
  "load_dist_key_share B load ring_pk =
    rbind (map_err (Storage ''Failed to load share bundle: {}'') (load ring_pk)) (\<lambda>bundle.
    rbind (map_err (Deserialization ''Failed to deserialize final share: {}'') (bundle_pri_share B bundle)) (\<lambda>share.
      Inr \<lparr>dks_pri_share = share\<rparr>))"

text \<open>
  What the authorization of a nonce request yields: the ring key, the staged bundle of a refresh or
  reshare, and for a policy context the id and expiry of the client's token.
\<close>

record nonce_authorization =
  na_ring_pk_hex :: string
  na_staged_bundle :: "ring_share_bundle option"
  na_token :: "(string \<times> u64) option"

definition nonce_share :: "('f, 'g) backend \<Rightarrow> hex_codec \<Rightarrow> ('g \<Rightarrow> string + ring_share_bundle) \<Rightarrow> nonce_authorization
    \<Rightarrow> nonce_request \<Rightarrow> sign_error + 'f dist_key_share" where
  "nonce_share B H load na req =
    rbind (decode_ring_pk_bytes B (nr_ring_pk req)) (\<lambda>client_ring_pk.
    rbind (ok_or (Deserialization ''Failed to decode authoritative ring_pk: {}'') (hex_decode H (na_ring_pk_hex na)))
      (\<lambda>authoritative_ring_pk_bytes.
    rbind (decode_ring_pk_bytes B authoritative_ring_pk_bytes) (\<lambda>authoritative_ring_pk.
      if client_ring_pk \<noteq> authoritative_ring_pk
      then Inl (Unauthorized ''Nonce request ring_pk does not match authorized context'')
      else case na_staged_bundle na of
             Some bundle \<Rightarrow>
               rbind (map_err (Deserialization ''Failed to deserialize staged share: {}'') (bundle_pri_share B bundle))
                 (\<lambda>share. Inr \<lparr>dks_pri_share = share\<rparr>)
           | None \<Rightarrow> load_dist_key_share B load authoritative_ring_pk)))"

definition check_token :: "(string \<times> u64) option \<Rightarrow> u64 \<Rightarrow> instant \<Rightarrow> jti_map \<Rightarrow> jti_map \<times> (sign_error + unit)" where
  "check_token token now_unix now jti =
    (case token of
       None \<Rightarrow> (jti, Inr ())
     | Some (jwt_id, expiration_time) \<Rightarrow>
         let (jti, r, _) = check_and_record jti jwt_id expiration_time now_unix now
         in (jti, map_err (Unauthorized ''{}'') r))"

text \<open>The replay guard and the nonces change; \<open>None\<close> says that the random tape ended.\<close>

definition handle_nonce_request ::
  "('f::field, 'g) backend \<Rightarrow> hex_codec \<Rightarrow> finalize_sign_bytes \<Rightarrow> u64 \<Rightarrow> ('g \<Rightarrow> string + ring_share_bundle)
    \<Rightarrow> sign_error + nonce_authorization \<Rightarrow> bytes \<Rightarrow> u64 \<Rightarrow> instant \<Rightarrow> instant \<Rightarrow> nonce_request \<Rightarrow> bytes
    \<Rightarrow> jti_map \<times> nonce_map \<Rightarrow> ((jti_map \<times> nonce_map) \<times> (sign_error + sign_message)) option" where
  "handle_nonce_request B H sign_bytes version load auth rng now_unix now stamp req sender st =
    (case auth of
       Inl e \<Rightarrow> Some (st, Inl e)
     | Inr na \<Rightarrow>
         let (jti, fresh) = check_token (na_token na) now_unix now (fst st); nonces = snd st
         in case rbind fresh (\<lambda>_. nonce_share B H load na req) of
              Inl e \<Rightarrow> Some ((jti, nonces), Inl e)
            | Inr share \<Rightarrow>
                Option.bind (generate_nonces B share rng) (\<lambda>((commitment, state), _).
                  case context_key B H sign_bytes (nr_context req) of
                    Inl e \<Rightarrow> Some ((jti, nonces), Inl e)
                  | Inr key \<Rightarrow>
                      let (nonces, outcome) = store_nonce nonces version (nr_request_id req)
                            (signing_state_to_bytes B state) key sender now stamp
                      in Some ((jti, nonces),
                           case outcome of
                             NonceStored \<Rightarrow> Inr (NonceResponse (nr_request_id req) (pri_i (dks_pri_share share))
                               (nonce_commitment_to_bytes B commitment))
                           | NonceAlreadyExists \<Rightarrow> Inl (NonceState ''Nonce state already exists for request {request_id}'')
                           | NonceLimitReached \<Rightarrow> Inl (NonceState ''Nonce state limit exceeded''))))"

text \<open>
  What the authorization of a sign request yields.  \<open>bundle\<close> is the share bundle for the context (the
  staged one of a refresh or reshare, and the stored one otherwise), \<open>attest\<close> the signature of the node
  key over the response.
\<close>

record sign_request_authorization =
  sa_ring_pk_hex :: string
  sa_derivation :: "bytes option"
  sa_metadata :: "bytes option"

definition sign_with_nonce ::
  "('f::field, 'g::ab_group_add) backend \<Rightarrow> hex_codec \<Rightarrow> finalize_sign_bytes
    \<Rightarrow> sign_error + sign_request_authorization \<Rightarrow> ('g \<Rightarrow> sign_error + ring_share_bundle)
    \<Rightarrow> (u32 \<Rightarrow> bytes \<Rightarrow> sign_error + u64 \<times> bytes) \<Rightarrow> sign_request \<Rightarrow> consumed_nonce \<Rightarrow> sign_error + sign_message" where
  "sign_with_nonce B H sign_bytes auth bundle attest req consumed =
    (if MAX_SIGN_MESSAGE_BYTES < length (sq_message req)
     then Inl (InvalidInput ''Message too large: {} bytes exceeds maximum {}'')
     else
       rbind auth (\<lambda>a.
       rbind (ok_or (Deserialization ''Failed to decode ring_pk hex: {}'') (hex_decode H (sa_ring_pk_hex a))) (\<lambda>ring_pk_bytes.
       rbind (decode_ring_pk_bytes B ring_pk_bytes) (\<lambda>ring_pk.
       rbind (bundle ring_pk) (\<lambda>bundle.
       rbind (ok_or (Deserialization ''Failed to decode public polynomial hex: {}'')
               (hex_decode H (rb_public_polynomial bundle))) (\<lambda>pub_poly_bytes.
       rbind (map_err (Deserialization ''Failed to deserialize public polynomial: {}'')
               (pub_poly_from_bytes B pub_poly_bytes)) (\<lambda>pub_poly.
       rbind (map_err (Deserialization ''Failed to deserialize final share: {}'') (bundle_pri_share B bundle)) (\<lambda>pri_share.
       rbind (deserialize_commitments B (sq_all_commitments req)) (\<lambda>all_commitments.
       rbind (context_key B H sign_bytes (sq_context req)) (\<lambda>expected_context_key.
       rbind (ok_or (NonceState ''Nonce context key mismatch for request_id {}'')
               (into_bytes_for_context consumed expected_context_key)) (\<lambda>state_bytes.
       rbind (map_err (Deserialization ''Failed to deserialize signing state: {}'')
               (signing_state_from_bytes B state_bytes)) (\<lambda>signing_state.
       rbind (map_err (Crypto ''Signing failed: {}'')
               (frost_sign B \<lparr>dks_pri_share = pri_share\<rparr> (sq_message req) pub_poly (Some signing_state)
                 all_commitments (sa_derivation a) (sa_metadata a))) (\<lambda>sig_share.
       let sig_share_bytes = scalar_to_bytes B (pub_v sig_share)
       in rbind (attest (pri_i pri_share) sig_share_bytes) (\<lambda>(signed_at, response_signature).
            Inr (SignResponse (sq_request_id req) (pri_i pri_share) sig_share_bytes signed_at response_signature)))))))))))))))"

definition handle_sign_request ::
  "('f::field, 'g::ab_group_add) backend \<Rightarrow> hex_codec \<Rightarrow> finalize_sign_bytes \<Rightarrow> u64
    \<Rightarrow> sign_error + sign_request_authorization \<Rightarrow> ('g \<Rightarrow> sign_error + ring_share_bundle)
    \<Rightarrow> (u32 \<Rightarrow> bytes \<Rightarrow> sign_error + u64 \<times> bytes) \<Rightarrow> sign_request \<Rightarrow> bytes \<Rightarrow> nonce_map
    \<Rightarrow> nonce_map \<times> (sign_error + sign_message)" where
  "handle_sign_request B H sign_bytes version auth bundle attest req sender nonces =
    (case consume_nonce nonces version (''nonce-'' @ sq_request_id req) sender of
       (nonces, None) \<Rightarrow>
         (nonces, Inl (NonceState ''No nonce state found for request_id {} or coordinator mismatch''))
     | (nonces, Some consumed) \<Rightarrow> (nonces, sign_with_nonce B H sign_bytes auth bundle attest req consumed))"

end
