(* ===== verification/Sign_Nonces.thy ===== *)
theory Sign_Nonces
  imports Sign_Service Dkg_Correctness
begin

text \<open>
  The life of a nonce on a responder.  Two signature shares made with one nonce reveal the key share of
  the signer, so the service must spend every nonce once, and only for the request it was made for.
\<close>

section \<open>A responder and what it has issued\<close>

text \<open>
  The replay guard and the nonces of a responder, and beside them two logs that the code does not have:
  the nonces it has issued and the nonces it has answered with a signature share.
\<close>

record signer =
  sgn_jti :: jti_map
  sgn_nonces :: nonce_map
  sgn_issued :: "(string \<times> nonce_entry) list"
  sgn_spent :: "(string \<times> nonce_entry) list"

definition log_entry :: "string \<Rightarrow> nonce_map \<Rightarrow> sign_error + 'a \<Rightarrow> (string \<times> nonce_entry) list \<Rightarrow> (string \<times> nonce_entry) list" where
  "log_entry key nonces r entries = (case r of Inl _ \<Rightarrow> entries | Inr _ \<Rightarrow> (key, the (map_of nonces key)) # entries)"

inductive signer_step ::
  "('f::field, 'g::ab_group_add) backend \<Rightarrow> hex_codec \<Rightarrow> finalize_sign_bytes \<Rightarrow> signer \<Rightarrow> signer \<Rightarrow> bool"
  for B H sign_bytes where
  nonce_requested: "handle_nonce_request B H sign_bytes version load auth rng now_unix now stamp req sender
      (sgn_jti s, sgn_nonces s) = Some ((jti, nonces), r) \<Longrightarrow>
    signer_step B H sign_bytes s (s\<lparr>sgn_jti := jti, sgn_nonces := nonces,
      sgn_issued := log_entry (sign_key version (nr_request_id req)) nonces r (sgn_issued s)\<rparr>)"
| share_requested: "handle_sign_request B H sign_bytes version auth bundle attest req sender (sgn_nonces s) = (nonces, r) \<Longrightarrow>
    signer_step B H sign_bytes s (s\<lparr>sgn_nonces := nonces,
      sgn_spent := log_entry (sign_key version (''nonce-'' @ sq_request_id req)) (sgn_nonces s) r (sgn_spent s)\<rparr>)"
| nonces_expired: "signer_step B H sign_bytes s (s\<lparr>sgn_nonces := fst (remove_expired_nonces (sgn_nonces s) now)\<rparr>)"

definition signer_start :: "signer \<Rightarrow> bool" where
  "signer_start s \<longleftrightarrow> sgn_nonces s = [] \<and> sgn_issued s = [] \<and> sgn_spent s = []"

section \<open>Issued, on hand, spent\<close>

definition nonce_inv :: "signer \<Rightarrow> bool" where
  "nonce_inv s \<longleftrightarrow> distinct (map fst (sgn_nonces s)) \<and>
    mset (sgn_spent s) + mset (sgn_nonces s) \<subseteq># mset (sgn_issued s)"

lemma expired_nonces_subset: "mset (fst (remove_expired_nonces m now)) \<subseteq># mset m"
  by (simp add: remove_expired_nonces_def Let_def multiset_filter_subset)

lemma expired_nonces_distinct:
  "distinct (map fst m) \<Longrightarrow> distinct (map fst (fst (remove_expired_nonces m now)))"
  by (simp add: remove_expired_nonces_def Let_def distinct_map_filter)

lemma store_nonce_cases:
  assumes "store_nonce m v i b k peer now stamp = (m', outcome)"
  obtains "outcome = NonceStored" "map_of (fst (remove_expired_nonces m now)) (sign_key v i) = None"
    "m' = fst (remove_expired_nonces m now) @ [(sign_key v i, \<lparr>ne_bytes = b, ne_context_key = k,
       ne_coordinator_peer_id = peer, ne_created_at = stamp\<rparr>)]"
  | "outcome \<noteq> NonceStored" "m' = fst (remove_expired_nonces m now)"
proof -
  let ?kept = "fst (remove_expired_nonces m now)"
  consider "MAX_NONCE_STATES \<le> length ?kept \<or> map_of ?kept (sign_key v i) \<noteq> None"
    | "\<not> MAX_NONCE_STATES \<le> length ?kept" "map_of ?kept (sign_key v i) = None" by blast
  then show thesis
  proof cases
    case 1
    with assms have "outcome \<noteq> NonceStored" "m' = ?kept" by (auto simp: store_nonce_def Let_def split: if_splits)
    then show thesis by (rule that(2))
  next
    case 2
    with assms have "outcome = NonceStored" "m' = ?kept @ [(sign_key v i, \<lparr>ne_bytes = b, ne_context_key = k,
        ne_coordinator_peer_id = peer, ne_created_at = stamp\<rparr>)]"
      by (simp_all add: store_nonce_def update_fresh)
    with 2(2) show thesis by (intro that(1))
  qed
qed

lemma consume_nonce_Some:
  assumes "consume_nonce m v i peer = (m', Some c)"
  obtains e where "map_of m (sign_key v i) = Some e" "ne_coordinator_peer_id e = peer"
    "c = \<lparr>cn_bytes = ne_bytes e, cn_context_key = ne_context_key e\<rparr>" "m' = AList.delete (sign_key v i) m"
  using assms by (auto simp: consume_nonce_def Let_def split: option.splits if_splits)

lemma mset_delete:
  assumes "distinct (map fst m)" "map_of m k = Some e"
  shows "mset m = add_mset (k, e) (mset (AList.delete k m))"
  using assms
proof (induction m)
  case (Cons x m)
  show ?case
  proof (cases "fst x = k")
    case True
    with Cons.prems have "AList.delete k m = m" by (auto intro: delete_id)
    with True Cons.prems show ?thesis by (cases x) (auto simp: AList.delete_eq)
  qed (use Cons in auto)
qed simp

lemma nonce_inv_nonces:
  assumes "nonce_inv s" "mset nonces \<subseteq># mset (sgn_nonces s)" "distinct (map fst nonces)"
  shows "nonce_inv (s\<lparr>sgn_nonces := nonces\<rparr>)" "nonce_inv (s\<lparr>sgn_jti := jti, sgn_nonces := nonces\<rparr>)"
  using assms subset_mset.order_trans [OF subset_mset.add_left_mono [OF assms(2)]]
  by (auto simp: nonce_inv_def)

lemma nonce_requested_inv:
  assumes inv: "nonce_inv s"
    and req: "handle_nonce_request B H sb v load auth rng nu now stamp req sender (sgn_jti s, sgn_nonces s) = Some ((jti, nonces), r)"
  shows "nonce_inv (s\<lparr>sgn_jti := jti, sgn_nonces := nonces,
    sgn_issued := log_entry (sign_key v (nr_request_id req)) nonces r (sgn_issued s)\<rparr>)"
proof -
  consider e where "nonces = sgn_nonces s" "r = Inl e"
    | b k outcome where "store_nonce (sgn_nonces s) v (nr_request_id req) b k sender now stamp = (nonces, outcome)"
      "isl r \<longleftrightarrow> outcome \<noteq> NonceStored"
    using req by (auto simp: handle_nonce_request_def Let_def split: sum.splits prod.splits bind_splits nonce_store_outcome.splits)
  then show ?thesis
  proof cases
    case 1
    with inv show ?thesis by (simp add: nonce_inv_def log_entry_def)
  next
    case 2
    let ?kept = "fst (remove_expired_nonces (sgn_nonces s) now)"
    have kept: "nonce_inv (s\<lparr>sgn_jti := jti, sgn_nonces := ?kept\<rparr>)"
      using inv by (intro nonce_inv_nonces expired_nonces_subset) (simp_all add: nonce_inv_def expired_nonces_distinct)
    from 2(1) show ?thesis
    proof (cases rule: store_nonce_cases)
      case 1
      with 2(2) obtain x where "r = Inr x" by (cases r) auto
      with 1 kept show ?thesis by (auto simp: nonce_inv_def log_entry_def map_add_def map_of_eq_None_iff [symmetric])
    next
      case 2
      with \<open>isl r \<longleftrightarrow> outcome \<noteq> NonceStored\<close> obtain e where "r = Inl e" by (cases r) auto
      with 2 kept show ?thesis by (simp add: nonce_inv_def log_entry_def)
    qed
  qed
qed

lemma share_requested_inv:
  assumes inv: "nonce_inv s"
    and req: "handle_sign_request B H sb v auth bundle attest req sender (sgn_nonces s) = (nonces, r)"
  shows "nonce_inv (s\<lparr>sgn_nonces := nonces,
    sgn_spent := log_entry (sign_key v (''nonce-'' @ sq_request_id req)) (sgn_nonces s) r (sgn_spent s)\<rparr>)"
proof (cases "snd (consume_nonce (sgn_nonces s) v (''nonce-'' @ sq_request_id req) sender)")
  case None
  then have "nonces = sgn_nonces s" "isl r"
    using req by (auto simp: handle_sign_request_def consume_nonce_def Let_def split: option.splits if_splits)
  with inv show ?thesis by (auto simp: nonce_inv_def log_entry_def split: sum.split)
next
  case (Some c)
  then have "consume_nonce (sgn_nonces s) v (''nonce-'' @ sq_request_id req) sender = (nonces, Some c)"
    using req by (auto simp: handle_sign_request_def split: prod.splits)
  then obtain e where e: "map_of (sgn_nonces s) (sign_key v (''nonce-'' @ sq_request_id req)) = Some e"
    "nonces = AList.delete (sign_key v (''nonce-'' @ sq_request_id req)) (sgn_nonces s)"
    by (rule consume_nonce_Some)
  have distinct: "distinct (map fst (sgn_nonces s))" using inv by (simp add: nonce_inv_def)
  have "mset (sgn_nonces s) = add_mset (sign_key v (''nonce-'' @ sq_request_id req), e) (mset nonces)"
    using mset_delete [OF distinct e(1)] e(2) by simp
  moreover have "distinct (map fst nonces)" using distinct e(2) by (simp add: distinct_delete)
  ultimately show ?thesis using inv e(1)
    by (auto simp: nonce_inv_def log_entry_def dest: mset_subset_eq_insertD subset_mset.less_imp_le split: sum.split)
qed

interpretation nonces: inductive_invariant signer_start "signer_step B H sign_bytes" nonce_inv
  for B :: "('f::field, 'g::ab_group_add) backend" and H sign_bytes
proof
  show "nonce_inv s" if "signer_start s" for s using that by (simp add: signer_start_def nonce_inv_def)
next
  fix s t assume inv: "nonce_inv s" and step: "signer_step B H sign_bytes s t"
  from step show "nonce_inv t"
  proof cases
    case (nonces_expired now)
    with inv show ?thesis
      by (auto simp: nonce_inv_def expired_nonces_distinct
          intro: subset_mset.order_trans [OF subset_mset.add_left_mono [OF expired_nonces_subset]])
  qed (use inv nonce_requested_inv share_requested_inv in auto)
qed

text \<open>A response carries a signature share computed with a signing state.\<close>

definition signed_with ::
  "('f::field, 'g::ab_group_add) backend \<Rightarrow> sign_request \<Rightarrow> 'f frost_signing_state \<Rightarrow> sign_message \<Rightarrow> bool" where
  "signed_with B req state r \<longleftrightarrow>
    (\<exists>share P cs derivation metadata z signed_at signature.
      frost_sign B share (sq_message req) P (Some state) cs derivation metadata = Inr z \<and>
      r = SignResponse (sq_request_id req) (pri_i (dks_pri_share share)) (scalar_to_bytes B (pub_v z)) signed_at signature)"

lemma sign_with_nonce_Inr:
  assumes "sign_with_nonce B H sb auth bundle attest req c = Inr r"
  obtains state where "context_key B H sb (sq_context req) = Inr (cn_context_key c)"
    "signing_state_from_bytes B (cn_bytes c) = Inr state" "signed_with B req state r"
proof -
  from assms obtain d md P pri cs state z t sg where "context_key B H sb (sq_context req) = Inr (cn_context_key c)"
    "signing_state_from_bytes B (cn_bytes c) = Inr state"
    "frost_sign B \<lparr>dks_pri_share = pri\<rparr> (sq_message req) P (Some state) cs d md = Inr z"
    "r = SignResponse (sq_request_id req) (pri_i pri) (scalar_to_bytes B (pub_v z)) t sg"
    unfolding sign_with_nonce_def Let_def
    by (clarsimp simp: result_simps into_bytes_for_context_def split: if_splits)
  moreover from this have "signed_with B req state r" unfolding signed_with_def by (intro exI conjI) (assumption, simp)
  ultimately show thesis by (intro that [of state])
qed

text \<open>
  C7: a nonce signs once.  Take a responder that started empty, and let requests for nonces and for
  signature shares, from any peers and in any order, reach it, with any verdicts of the authorization,
  any storage and expiry at any time.  When it answers a request with a signature share, the share was
  computed with the nonce of an entry that it issued to the same peer, for the same protocol version,
  request and signing context, and that no earlier signature share was computed with: the entry is in
  what it issued without what it spent.
\<close>

theorem nonce_signs_once:
  assumes "reachable signer_start (signer_step B H sign_bytes) s"
    and "handle_sign_request B H sign_bytes version auth bundle attest req sender (sgn_nonces s) = (nonces, Inr r)"
  shows "\<exists>e state. (sign_key version (''nonce-'' @ sq_request_id req), e) \<in># mset (sgn_issued s) - mset (sgn_spent s) \<and>
    ne_coordinator_peer_id e = sender \<and> context_key B H sign_bytes (sq_context req) = Inr (ne_context_key e) \<and>
    signing_state_from_bytes B (ne_bytes e) = Inr state \<and> signed_with B req state r"
proof -
  have inv: "nonce_inv s" using assms(1) by (rule nonces.reachable_inv)
  obtain c where c: "consume_nonce (sgn_nonces s) version (''nonce-'' @ sq_request_id req) sender = (nonces, Some c)"
    and signed: "sign_with_nonce B H sign_bytes auth bundle attest req c = Inr r"
    using assms(2) by (auto simp: handle_sign_request_def split: prod.splits option.splits)
  from c obtain e where e: "map_of (sgn_nonces s) (sign_key version (''nonce-'' @ sq_request_id req)) = Some e"
    "ne_coordinator_peer_id e = sender" "c = \<lparr>cn_bytes = ne_bytes e, cn_context_key = ne_context_key e\<rparr>"
    by (rule consume_nonce_Some)
  have "mset (sgn_nonces s) \<subseteq># mset (sgn_issued s) - mset (sgn_spent s)"
    using inv by (simp add: nonce_inv_def subseteq_mset_def add.commute add_le_imp_le_diff)
  then have "(sign_key version (''nonce-'' @ sq_request_id req), e) \<in># mset (sgn_issued s) - mset (sgn_spent s)"
    using map_of_SomeD [OF e(1)] by (auto dest: mset_subset_eqD)
  moreover obtain state where "context_key B H sign_bytes (sq_context req) = Inr (cn_context_key c)"
    "signing_state_from_bytes B (cn_bytes c) = Inr state" "signed_with B req state r"
    using signed by (rule sign_with_nonce_Inr)
  ultimately show ?thesis using e by (intro exI [of _ e] exI [of _ state]) simp
qed

text \<open>A peer asks for a nonce and then for the share of a one-member ring, over the reference field.\<close>

definition ex_codec :: hex_codec where
  "ex_codec = \<lparr>hex_encode = (\<lambda>b. []), hex_decode = (\<lambda>s. Some (as_bytes s))\<rparr>"

definition ex_chars :: "bytes \<Rightarrow> string" where
  "ex_chars b = map (\<lambda>w. char_of (unat w)) b"

definition ex_bundle :: ring_share_bundle where
  "ex_bundle = \<lparr>rb_share_bytes = pri_share_to_bytes (scalar_to_bytes ref_backend) (dks_pri_share (ex_key 1)),
     rb_public_polynomial = ex_chars (pub_poly_to_bytes ref_backend ex_ring), rb_last_pss = 0\<rparr>"

definition ex_ring_pk :: bytes where
  "ex_ring_pk = point_to_bytes ref_backend 5"

definition ex_nonce_request :: nonce_request where
  "ex_nonce_request = \<lparr>nr_request_id = ''nonce-r'', nr_from_node_id = 2, nr_ring_pk = ex_ring_pk, nr_context = Bulletin ''doc''\<rparr>"

definition ex_nonce_entry :: nonce_entry where
  "ex_nonce_entry = \<lparr>ne_bytes = signing_state_to_bytes ref_backend (snd (snd (ex_signer 1 108 212))),
     ne_context_key = ''bulletin:doc'', ne_coordinator_peer_id = [7], ne_created_at = 0\<rparr>"

definition ex_sign_request :: sign_request where
  "ex_sign_request = \<lparr>sq_request_id = ''r'', sq_from_node_id = 2, sq_message = [42],
     sq_all_commitments = serialize_commitments ref_backend ex_commitments, sq_context = Bulletin ''doc''\<rparr>"

lemma ex_inputs:
  "hex_decode ex_codec (ex_chars ex_ring_pk) = Some ex_ring_pk" "decode_ring_pk_bytes ref_backend ex_ring_pk = Inr 5"
  "hex_decode ex_codec (rb_public_polynomial ex_bundle) = Some (pub_poly_to_bytes ref_backend ex_ring)"
  "bundle_pri_share ref_backend ex_bundle = Inr (dks_pri_share (ex_key 1))"
  by code_simp+

lemma ex_nonce_share:
  "nonce_share ref_backend ex_codec (\<lambda>_. Inr ex_bundle)
    \<lparr>na_ring_pk_hex = ex_chars ex_ring_pk, na_staged_bundle = None, na_token = None\<rparr> ex_nonce_request = Inr (ex_key 1)"
  by (simp add: nonce_share_def ex_inputs load_dist_key_share_def ex_nonce_request_def)

lemma ex_nonces: "generate_nonces ref_backend (ex_key 1) (replicate 64 1) = Some (snd (ex_signer 1 108 212), [])"
  by code_simp

lemma ex_nonce_issued:
  "\<exists>r. handle_nonce_request ref_backend ex_codec (\<lambda>_ _ _ _ _ _. None) 1 (\<lambda>_. Inr ex_bundle)
    (Inr \<lparr>na_ring_pk_hex = ex_chars ex_ring_pk, na_staged_bundle = None, na_token = None\<rparr>) (replicate 64 1) 0 0 0
    ex_nonce_request [7] ([], []) = Some (([], [(sign_key 1 ''nonce-r'', ex_nonce_entry)]), Inr r)"
proof -
  have "store_nonce [] 1 ''nonce-r'' (ne_bytes ex_nonce_entry) ''bulletin:doc'' [7] 0 0 =
      ([(sign_key 1 ''nonce-r'', ex_nonce_entry)], NonceStored)"
    by (simp add: store_nonce_def remove_expired_nonces_def MAX_NONCE_STATES_def ex_nonce_entry_def)
  moreover have "context_key ref_backend ex_codec (\<lambda>_ _ _ _ _ _. None) (nr_context ex_nonce_request) = Inr ''bulletin:doc''"
    "nr_request_id ex_nonce_request = ''nonce-r''"
    by (simp_all add: context_key_def ex_nonce_request_def)
  ultimately show ?thesis
    using ex_nonce_share ex_nonces
    by (simp add: handle_nonce_request_def check_token_def ex_nonce_entry_def ex_signer_def)
qed

lemma ex_share_inputs:
  "pub_poly_from_bytes ref_backend (pub_poly_to_bytes ref_backend ex_ring) = Inr ex_ring"
  "deserialize_commitments ref_backend (sq_all_commitments ex_sign_request) = Inr ex_commitments"
  "signing_state_from_bytes ref_backend (ne_bytes ex_nonce_entry) = Inr (snd (snd (ex_signer 1 108 212)))"
proof -
  show "pub_poly_from_bytes ref_backend (pub_poly_to_bytes ref_backend ex_ring) = Inr ex_ring"
    using reference.points_roundtrip [of "[5, 3]"]
    by (simp add: pub_poly_from_bytes_def pub_poly_to_bytes_def ex_ring_def)
  show "deserialize_commitments ref_backend (sq_all_commitments ex_sign_request) = Inr ex_commitments"
    using reference.commitments_round_trip [of ex_commitments]
    by (simp add: ex_sign_request_def MAX_COMMITMENTS_def ex_commitments_def ex_signers_def)
  show "signing_state_from_bytes ref_backend (ne_bytes ex_nonce_entry) = Inr (snd (snd (ex_signer 1 108 212)))"
    unfolding reference.signing_state_codec by (simp add: ex_nonce_entry_def)
qed

lemma ex_frost_share:
  "\<exists>z. frost_sign ref_backend (ex_key 1) [42] ex_ring (Some (snd (snd (ex_signer 1 108 212)))) ex_commitments None None = Inr z"
proof -
  have "isl (frost_sign ref_backend (ex_key 1) [42] ex_ring (Some (snd (snd (ex_signer 1 108 212)))) ex_commitments None None) = False"
    by code_simp
  then show ?thesis by (cases "frost_sign ref_backend (ex_key 1) [42] ex_ring (Some (snd (snd (ex_signer 1 108 212)))) ex_commitments None None") simp_all
qed

definition ex_signer_state :: signer where
  "ex_signer_state = \<lparr>sgn_jti = [], sgn_nonces = [(sign_key 1 ''nonce-r'', ex_nonce_entry)],
     sgn_issued = [(sign_key 1 ''nonce-r'', ex_nonce_entry)], sgn_spent = []\<rparr>"

lemma ex_signer_reachable:
  "reachable signer_start (signer_step ref_backend ex_codec (\<lambda>_ _ _ _ _ _. None)) ex_signer_state"
proof (rule reachable.step)
  let ?s = "\<lparr>sgn_jti = [], sgn_nonces = [], sgn_issued = [], sgn_spent = []\<rparr>"
  show "reachable signer_start (signer_step ref_backend ex_codec (\<lambda>_ _ _ _ _ _. None)) ?s"
    by (rule reachable.start) (simp add: signer_start_def)
  obtain r where r: "handle_nonce_request ref_backend ex_codec (\<lambda>_ _ _ _ _ _. None) 1 (\<lambda>_. Inr ex_bundle)
    (Inr \<lparr>na_ring_pk_hex = ex_chars ex_ring_pk, na_staged_bundle = None, na_token = None\<rparr>) (replicate 64 1) 0 0 0
    ex_nonce_request [7] (sgn_jti ?s, sgn_nonces ?s) = Some (([], [(sign_key 1 ''nonce-r'', ex_nonce_entry)]), Inr r)"
    using ex_nonce_issued by auto
  show "signer_step ref_backend ex_codec (\<lambda>_ _ _ _ _ _. None) ?s ex_signer_state"
    using signer_step.nonce_requested [OF r] by (simp add: ex_signer_state_def log_entry_def ex_nonce_request_def)
qed

lemma ex_signed:
  "\<exists>r. handle_sign_request ref_backend ex_codec (\<lambda>_ _ _ _ _ _. None) 1
    (Inr \<lparr>sa_ring_pk_hex = ex_chars ex_ring_pk, sa_derivation = None, sa_metadata = None\<rparr>) (\<lambda>_. Inr ex_bundle)
    (\<lambda>_ _. Inr (0, [])) ex_sign_request [7] (sgn_nonces ex_signer_state) = ([], Inr r)"
proof -
  obtain z where z: "frost_sign ref_backend (ex_key 1) [42] ex_ring (Some (snd (snd (ex_signer 1 108 212)))) ex_commitments None None = Inr z"
    using ex_frost_share by blast
  have consumed: "consume_nonce (sgn_nonces ex_signer_state) 1 ''nonce-r'' [7] =
      ([], Some \<lparr>cn_bytes = ne_bytes ex_nonce_entry, cn_context_key = ''bulletin:doc''\<rparr>)"
    by (simp add: consume_nonce_def ex_signer_state_def ex_nonce_entry_def)
  have key: "context_key ref_backend ex_codec (\<lambda>_ _ _ _ _ _. None) (sq_context ex_sign_request) = Inr ''bulletin:doc''"
    by (simp add: context_key_def ex_sign_request_def)
  have "sq_request_id ex_sign_request = ''r''" "sq_message ex_sign_request = [42]" by (simp_all add: ex_sign_request_def)
  then show ?thesis
    using z consumed key ex_inputs ex_share_inputs
    by (simp add: handle_sign_request_def sign_with_nonce_def into_bytes_for_context_def MAX_SIGN_MESSAGE_BYTES_def ex_key_def)
qed

lemma nonce_signs_once_witness:
  "\<exists>r e state. (sign_key 1 ''nonce-r'', e) \<in># mset (sgn_issued ex_signer_state) - mset (sgn_spent ex_signer_state) \<and>
    ne_coordinator_peer_id e = [7] \<and> signed_with ref_backend ex_sign_request state r"
proof -
  obtain r where "handle_sign_request ref_backend ex_codec (\<lambda>_ _ _ _ _ _. None) 1
    (Inr \<lparr>sa_ring_pk_hex = ex_chars ex_ring_pk, sa_derivation = None, sa_metadata = None\<rparr>) (\<lambda>_. Inr ex_bundle)
    (\<lambda>_ _. Inr (0, [])) ex_sign_request [7] (sgn_nonces ex_signer_state) = ([], Inr r)"
    using ex_signed by blast
  from nonce_signs_once [OF ex_signer_reachable this] show ?thesis by (auto simp: ex_sign_request_def)
qed

end
