(* ===== verification/Sign_Initiator.thy ===== *)
theory Sign_Initiator
  imports Sign_Service
begin

text \<open>
  The initiator of a signature (\<open>sign/v0/coordinator/rounds\<close>): it collects nonce commitments, chooses
  the signers, collects and checks their shares and combines them.  What the peers send, in which order
  it arrives and when the collection times out is arbitrary.
\<close>

section \<open>Members of a ring\<close>

record ring_config =
  rcf_ring_id :: string
  rcf_ring_pk_bytes :: bytes
  rcf_peer_ids :: "string list"
  rcf_peer_node_keys :: "string list"
  rcf_threshold :: nat
  rcf_total_participants :: nat
  rcf_public_polynomial_hex :: string

text \<open>\<open>to_lowercase\<close> on hexadecimal node parts.\<close>

definition to_lowercase :: "string \<Rightarrow> string" where
  "to_lowercase s = map (\<lambda>c. if CHR ''A'' \<le> c \<and> c \<le> CHR ''Z'' then char_of (of_char c + 32 :: nat) else c) s"

definition is_self_peer_id :: "string \<Rightarrow> string \<Rightarrow> bool" where
  "is_self_peer_id our_peer_id_hex peer_id \<longleftrightarrow> our_peer_id_hex = to_lowercase (extract_node_part peer_id)"

definition determine_ring_node_id_from_peer_id :: "string \<Rightarrow> ring_config \<Rightarrow> u32 option" where
  "determine_ring_node_id_from_peer_id peer_id ring =
    (if length (rcf_peer_node_keys ring) \<noteq> length (rcf_peer_ids ring) then None
     else
       let peer_node_part = to_lowercase (extract_node_part peer_id)
       in case find (\<lambda>(_, route). to_lowercase (extract_node_part route) = peer_node_part)
              (zip (rcf_peer_node_keys ring) (rcf_peer_ids ring)) of
            None \<Rightarrow> None
          | Some (node_key, _) \<Rightarrow> determine_session_node_id node_key (rcf_peer_node_keys ring))"

definition excludes_peer :: "string set \<Rightarrow> string \<Rightarrow> ring_config \<Rightarrow> bool" where
  "excludes_peer excluded_node_keys peer_id ring =
    (case find (\<lambda>(_, route). extract_node_part route = extract_node_part peer_id)
            (zip (rcf_peer_node_keys ring) (rcf_peer_ids ring)) of
       None \<Rightarrow> False
     | Some (node_key, _) \<Rightarrow> node_key \<in> excluded_node_keys)"

text \<open>The peers a round expects answers from.\<close>

definition expected_peers :: "string \<Rightarrow> string set \<Rightarrow> ring_config \<Rightarrow> string list" where
  "expected_peers our_peer_id_hex excluded ring =
    filter (\<lambda>p. \<not> is_self_peer_id our_peer_id_hex p \<and> \<not> excludes_peer excluded p ring) (rcf_peer_ids ring)"

section \<open>Signing material\<close>

record ('f, 'g) signing_material =
  sm_pub_poly :: "'g pub_poly"
  sm_local_dist_key_share :: "'f dist_key_share option"
  sm_derivation :: "bytes option"
  sm_metadata :: "bytes option"

text \<open>
  What the initiator asks of the rest of its node: the stored bundle of a ring key, the verdicts on the
  statements of refresh and reshare contexts with the staged bundle, and the context of fault reports
  for a commitment list, of which only the test survives that says which bad answers can be reported.
\<close>

record 'g signing_node =
  sn_node_key :: string
  sn_peer_id_hex :: string
  sn_load :: "'g \<Rightarrow> string + ring_share_bundle"
  sn_refresh :: "refresh_health_check_statement \<Rightarrow> bytes \<Rightarrow> sign_error + ring_share_bundle"
  sn_reshare :: "ring_reshare_update_statement \<Rightarrow> bytes \<Rightarrow> sign_error + ring_share_bundle option"
  sn_report_base :: "sign_context \<Rightarrow> bytes \<Rightarrow> sign_error + (u32 \<Rightarrow> sign_message \<Rightarrow> bool)"
  sn_reshare_in_progress :: bool

definition decode_pub_poly_hex :: "('f, 'g) backend \<Rightarrow> hex_codec \<Rightarrow> string \<Rightarrow> string + 'g pub_poly" where
  "decode_pub_poly_hex B H hex_str =
    rbind (ok_or ''Failed to decode polynomial hex: {error}'' (hex_decode H hex_str)) (\<lambda>b.
      map_err ''Failed to deserialize public polynomial: {error}'' (pub_poly_from_bytes B b))"

definition load_ring_pub_poly_and_bundle ::
  "('f, 'g) backend \<Rightarrow> hex_codec \<Rightarrow> ('g \<Rightarrow> string + ring_share_bundle) \<Rightarrow> ring_config \<Rightarrow> bool
    \<Rightarrow> string + 'g pub_poly \<times> ring_share_bundle option" where
  "load_ring_pub_poly_and_bundle B H load ring self_in_list =
    (if \<not> self_in_list
     then rbind (decode_pub_poly_hex B H (rcf_public_polynomial_hex ring)) (\<lambda>P. Inr (P, None))
     else
       rbind (map_err ''Failed to deserialize ring public key: {error}'' (element_from_bytes B (rcf_ring_pk_bytes ring)))
         (\<lambda>ring_pk.
           case load ring_pk of
             Inl _ \<Rightarrow> rbind (decode_pub_poly_hex B H (rcf_public_polynomial_hex ring)) (\<lambda>P. Inr (P, None))
           | Inr bundle \<Rightarrow>
               rbind (map_err ''bundle polynomial: {error}'' (decode_pub_poly_hex B H (rb_public_polynomial bundle)))
                 (\<lambda>P. Inr (P, Some bundle))))"

definition bundle_share :: "('f, 'g) backend \<Rightarrow> ring_share_bundle \<Rightarrow> sign_error + 'f dist_key_share" where
  "bundle_share B bundle =
    rbind (map_err (Deserialization ''Failed to deserialize PriShare: {}'') (bundle_pri_share B bundle)) (\<lambda>share.
      Inr \<lparr>dks_pri_share = share\<rparr>)"

definition staged_material :: "('f, 'g) backend \<Rightarrow> hex_codec \<Rightarrow> string \<Rightarrow> ring_share_bundle \<Rightarrow> bool
    \<Rightarrow> sign_error + 'g pub_poly \<times> 'f dist_key_share option" where
  "staged_material B H kind bundle self_in_list =
    rbind (ok_or (Deserialization (''Failed to decode staged '' @ kind @ '' public polynomial: {}''))
            (hex_decode H (rb_public_polynomial bundle))) (\<lambda>pub_poly_bytes.
    rbind (map_err (Deserialization (''Failed to deserialize staged '' @ kind @ '' public polynomial: {}''))
            (pub_poly_from_bytes B pub_poly_bytes)) (\<lambda>pub_poly.
    rbind (if self_in_list then rbind (bundle_share B bundle) (\<lambda>share. Inr (Some share)) else Inr None) (\<lambda>share.
      Inr (pub_poly, share))))"

definition stored_material ::
  "('f, 'g) backend \<Rightarrow> hex_codec \<Rightarrow> ('g \<Rightarrow> string + ring_share_bundle) \<Rightarrow> ring_config \<Rightarrow> bool
    \<Rightarrow> sign_error + 'g pub_poly \<times> 'f dist_key_share option" where
  "stored_material B H load ring self_in_list =
    rbind (map_err (Deserialization ''{}'') (load_ring_pub_poly_and_bundle B H load ring self_in_list)) (\<lambda>(poly, bundle).
      case bundle of
        Some bundle \<Rightarrow> rbind (bundle_share B bundle) (\<lambda>share. Inr (poly, Some share))
      | None \<Rightarrow> Inr (poly, None))"

definition resolve_signing_material ::
  "('f, 'g) backend \<Rightarrow> hex_codec \<Rightarrow> 'g signing_node \<Rightarrow> ring_config \<Rightarrow> sign_context \<Rightarrow> bytes \<Rightarrow> bool \<Rightarrow> nat
    \<Rightarrow> sign_error + ('f, 'g) signing_material" where
  "resolve_signing_material B H node ring context message self_in_list actual_peer_count =
    rbind (case context of
        RefreshHealthCheck statement \<Rightarrow>
          rbind (sn_refresh node statement message) (\<lambda>bundle. staged_material B H ''refresh'' bundle self_in_list)
      | RingReshareUpdate statement \<Rightarrow>
          rbind (sn_reshare node statement message) (\<lambda>staged_bundle.
            case staged_bundle of
              Some bundle \<Rightarrow> staged_material B H ''reshare'' bundle self_in_list
            | None \<Rightarrow> stored_material B H (sn_load node) ring self_in_list)
      | _ \<Rightarrow> stored_material B H (sn_load node) ring self_in_list) (\<lambda>(pub_poly, share).
      let potential_shares = (if self_in_list then actual_peer_count + 1 else actual_peer_count)
      in if potential_shares < rcf_threshold ring then Inl (InsufficientShares potential_shares (rcf_threshold ring))
         else
           let (derivation, metadata) =
             (case context of
                Policy ctx \<Rightarrow>
                  let kd = pc_key_derivation ctx
                  in (Some (as_bytes (kd_derivation kd)),
                      Some (encode_metadata B (kd_policy_id kd) (kd_resource kd) (kd_permission kd)))
              | _ \<Rightarrow> (None, None))
           in Inr \<lparr>sm_pub_poly = pub_poly, sm_local_dist_key_share = share,
                sm_derivation = derivation, sm_metadata = metadata\<rparr>)"

section \<open>Collecting answers\<close>

text \<open>
  The two rounds collect answers in the same way: first those that arrive in time, until enough are
  good, then those that were stored meanwhile.  A checker sees the set of members that have answered.
\<close>

fun collect_until :: "('r \<Rightarrow> 's \<Rightarrow> 's \<times> 'a option) \<Rightarrow> nat \<Rightarrow> 'r list \<Rightarrow> 's \<times> 'a list \<Rightarrow> 's \<times> 'a list" where
  "collect_until check needed [] acc = acc"
| "collect_until check needed (r # rs) (seen, xs) =
    (case check r seen of
       (seen, None) \<Rightarrow> collect_until check needed rs (seen, xs)
     | (seen, Some x) \<Rightarrow>
         if needed \<le> length xs + 1 then (seen, xs @ [x]) else collect_until check needed rs (seen, xs @ [x]))"

fun collect_all :: "('r \<Rightarrow> 's \<Rightarrow> 's \<times> 'a option) \<Rightarrow> 'r list \<Rightarrow> 's \<times> 'a list \<Rightarrow> 's \<times> 'a list" where
  "collect_all check [] acc = acc"
| "collect_all check (r # rs) (seen, xs) =
    (case check r seen of
       (seen, None) \<Rightarrow> collect_all check rs (seen, xs)
     | (seen, Some x) \<Rightarrow> collect_all check rs (seen, xs @ [x]))"

definition collect_answers :: "('r \<Rightarrow> 's \<Rightarrow> 's \<times> 'a option) \<Rightarrow> nat \<Rightarrow> 'r list \<Rightarrow> 'r list \<Rightarrow> 's \<Rightarrow> 's \<times> 'a list" where
  "collect_answers check needed arrived stored seen =
    collect_all check stored (if 0 < needed then collect_until check needed arrived (seen, []) else (seen, []))"

section \<open>Round 1\<close>

definition parse_peer_nonce_response ::
  "('f, 'g) backend \<Rightarrow> sign_message \<Rightarrow> u32 \<Rightarrow> u32 set \<Rightarrow> u32 set \<times> (u32 \<times> 'g frost_nonce_commitment) option" where
  "parse_peer_nonce_response B response expected_node_id seen =
    (case response of
       NonceResponse _ from_node_id nonce_commitment \<Rightarrow>
         if from_node_id \<noteq> expected_node_id then (seen, None)
         else if from_node_id \<in> seen then (seen, None)
         else (insert from_node_id seen,
               case nonce_commitment_from_bytes B nonce_commitment of
                 Inl _ \<Rightarrow> None
               | Inr commitment \<Rightarrow> Some (from_node_id, commitment))
     | _ \<Rightarrow> (seen, None))"

definition check_nonce_response :: "('f, 'g) backend \<Rightarrow> ring_config \<Rightarrow> string \<times> sign_message \<Rightarrow> u32 set
    \<Rightarrow> u32 set \<times> (u32 \<times> 'g frost_nonce_commitment) option" where
  "check_nonce_response B ring response seen =
    (case determine_ring_node_id_from_peer_id (fst response) ring of
       None \<Rightarrow> (seen, None)
     | Some expected_node_id \<Rightarrow> parse_peer_nonce_response B (snd response) expected_node_id seen)"

text \<open>\<open>stored\<close> is what the response manager holds at the end, or \<open>None\<close> when it has dropped the request.\<close>

definition collect_nonces ::
  "('f::field, 'g) backend \<Rightarrow> ring_config \<Rightarrow> u32 \<Rightarrow> bool \<Rightarrow> 'f dist_key_share option \<Rightarrow> bytes \<Rightarrow> response_init_outcome
    \<Rightarrow> (string \<times> sign_message) list \<Rightarrow> (string \<times> sign_message) list option
    \<Rightarrow> (sign_error + (u32 \<times> 'g frost_nonce_commitment) list \<times> 'f frost_signing_state option) option" where
  "collect_nonces B ring node_id self_in_list local_share rng init arrived stored =
    map_option (\<lambda>own.
      let own_commitments = (case own of Some (commitment, _) \<Rightarrow> [(node_id, commitment)] | None \<Rightarrow> []);
          needed = rcf_threshold ring - length own_commitments
      in case init of
           InitAlreadyExists \<Rightarrow> Inl (ProtocolError ''Nonce response state already exists for request {nonce_request_id}'')
         | InitLimitReached \<Rightarrow> Inl (ProtocolError ''Nonce response limit exceeded'')
         | Created \<Rightarrow>
             (case stored of
                None \<Rightarrow> Inl (Timeout ''No nonce responses found for request {}'')
              | Some stored \<Rightarrow>
                  Inr (sort_key fst (own_commitments
                         @ snd (collect_answers (check_nonce_response B ring) needed arrived stored (set (map fst own_commitments)))),
                       map_option snd own)))
      (case (if self_in_list then local_share else None) of
         Some share \<Rightarrow> map_option (\<lambda>(x, _). Some x) (generate_nonces B share rng)
       | None \<Rightarrow> Some None)"

fun select_loop :: "nat \<Rightarrow> (u32 \<times> 'c) list \<Rightarrow> (u32 \<times> 'c) list \<Rightarrow> (u32 \<times> 'c) list" where
  "select_loop threshold [] selected = selected"
| "select_loop threshold ((i, c) # cs) selected =
    (if length selected = threshold then selected
     else if list_ex (\<lambda>(j, _). j = i) selected then select_loop threshold cs selected
     else select_loop threshold cs (selected @ [(i, c)]))"

definition select_signing_commitments ::
  "(u32 \<times> 'c) list \<Rightarrow> nat \<Rightarrow> u32 option \<Rightarrow> sign_error + (u32 \<times> 'c) list" where
  "select_signing_commitments commitments threshold preferred_node_id =
    (if length commitments < threshold then Inl (InsufficientShares (length commitments) threshold)
     else
       let selected = (case preferred_node_id of
               None \<Rightarrow> []
             | Some preferred \<Rightarrow>
                 (case find (\<lambda>(i, _). i = preferred) commitments of None \<Rightarrow> [] | Some c \<Rightarrow> [c]))
       in Inr (sort_key fst (select_loop threshold commitments selected)))"

record ('f, 'g) commitment_round =
  cm_signing_commitments :: "(u32 \<times> 'g frost_nonce_commitment) list"
  cm_local_signing_state :: "'f frost_signing_state option"
  cm_all_commitments_bytes :: bytes
  cm_should_attempt_local_share :: bool
  cm_reportable :: "u32 \<Rightarrow> sign_message \<Rightarrow> bool"

definition collect_signing_commitments ::
  "('f::field, 'g) backend \<Rightarrow> (bytes \<Rightarrow> sign_error + (u32 \<Rightarrow> sign_message \<Rightarrow> bool)) \<Rightarrow> ring_config \<Rightarrow> u32 \<Rightarrow> bool
    \<Rightarrow> 'f dist_key_share option \<Rightarrow> bytes \<Rightarrow> response_init_outcome
    \<Rightarrow> (string \<times> sign_message) list \<Rightarrow> (string \<times> sign_message) list option
    \<Rightarrow> (sign_error + ('f, 'g) commitment_round) option" where
  "collect_signing_commitments B report_base ring node_id self_in_list local_share rng init arrived stored =
    map_option (\<lambda>r. rbind r (\<lambda>(all_commitments, local_signing_state).
      rbind (select_signing_commitments all_commitments (rcf_threshold ring) (if self_in_list then Some node_id else None))
        (\<lambda>signing_commitments.
          let all_commitments_bytes = serialize_commitments B signing_commitments
          in rbind (report_base all_commitments_bytes) (\<lambda>reportable.
            Inr \<lparr>cm_signing_commitments = signing_commitments, cm_local_signing_state = local_signing_state,
              cm_all_commitments_bytes = all_commitments_bytes,
              cm_should_attempt_local_share =
                (local_share \<noteq> None \<and> node_id \<in> set (map fst signing_commitments)),
              cm_reportable = reportable\<rparr>))))
      (collect_nonces B ring node_id self_in_list local_share rng init arrived stored)"

section \<open>Round 2\<close>

definition compute_local_signature_share ::
  "('f::field, 'g::ab_group_add) backend \<Rightarrow> ('f, 'g) signing_material \<Rightarrow> ('f, 'g) commitment_round \<Rightarrow> bytes
    \<Rightarrow> 'f pub_share option" where
  "compute_local_signature_share B material rnd message =
    (if \<not> cm_should_attempt_local_share rnd then None
     else case sm_local_dist_key_share material of
            None \<Rightarrow> None
          | Some share \<Rightarrow>
              (case frost_sign B share message (sm_pub_poly material) (cm_local_signing_state rnd)
                      (cm_signing_commitments rnd) (sm_derivation material) (sm_metadata material) of
                 Inl _ \<Rightarrow> None
               | Inr sig_share \<Rightarrow>
                   (case frost_verify_share B message (sm_pub_poly material) sig_share
                           (cm_signing_commitments rnd) (sm_derivation material) (sm_metadata material) of
                      Inl _ \<Rightarrow> None
                    | Inr _ \<Rightarrow> Some sig_share)))"

text \<open>\<open>reportable\<close>: the response carries a valid signature of the accused node and can be reported.\<close>

datatype 'f peer_signature_verification =
    Verified "'f pub_share"
  | InvalidCrypto
  | Rejected

definition verify_peer_signature_response ::
  "('f::field, 'g::ab_group_add) backend \<Rightarrow> (u32 \<Rightarrow> sign_message \<Rightarrow> bool) \<Rightarrow> bytes \<Rightarrow> 'g pub_poly
    \<Rightarrow> (u32 \<times> 'g frost_nonce_commitment) list \<Rightarrow> bytes option \<Rightarrow> bytes option \<Rightarrow> sign_message \<Rightarrow> u32 \<Rightarrow> u32 set
    \<Rightarrow> u32 set \<times> 'f peer_signature_verification" where
  "verify_peer_signature_response B reportable message pub_poly signing_commitments derivation metadata
      response expected_node_id seen =
    (case response of
       SignResponse _ from_node_id sig_share_bytes _ _ \<Rightarrow>
         if from_node_id \<noteq> expected_node_id then (seen, Rejected)
         else if from_node_id \<in> seen then (seen, Rejected)
         else (insert from_node_id seen,
               case rbind (fr_from_bytes B sig_share_bytes) (\<lambda>v.
                      let sig_share = \<lparr>pub_i = from_node_id, pub_v = v\<rparr>
                      in rbind (frost_verify_share B message pub_poly sig_share signing_commitments derivation metadata)
                           (\<lambda>_. Inr sig_share)) of
                 Inr sig_share \<Rightarrow> Verified sig_share
               | Inl _ \<Rightarrow> if reportable expected_node_id response then InvalidCrypto else Rejected)
     | _ \<Rightarrow> (seen, Rejected))"

definition check_share_response ::
  "('f::field, 'g::ab_group_add) backend \<Rightarrow> ring_config \<Rightarrow> (u32 \<Rightarrow> sign_message \<Rightarrow> bool) \<Rightarrow> bytes
    \<Rightarrow> ('f, 'g) signing_material \<Rightarrow> (u32 \<times> 'g frost_nonce_commitment) list \<Rightarrow> string \<times> sign_message \<Rightarrow> u32 set
    \<Rightarrow> u32 set \<times> 'f pub_share option" where
  "check_share_response B ring reportable message material signing_commitments response seen =
    (case determine_ring_node_id_from_peer_id (fst response) ring of
       None \<Rightarrow> (seen, None)
     | Some expected_node_id \<Rightarrow>
         (case verify_peer_signature_response B reportable message (sm_pub_poly material) signing_commitments
                 (sm_derivation material) (sm_metadata material) (snd response) expected_node_id seen of
            (seen, Verified share) \<Rightarrow> (seen, Some share)
          | (seen, _) \<Rightarrow> (seen, None)))"

definition collect_network_signature_shares ::
  "('f::field, 'g::ab_group_add) backend \<Rightarrow> ring_config \<Rightarrow> (u32 \<Rightarrow> sign_message \<Rightarrow> bool) \<Rightarrow> bytes
    \<Rightarrow> ('f, 'g) signing_material \<Rightarrow> (u32 \<times> 'g frost_nonce_commitment) list
    \<Rightarrow> (string \<times> sign_message) list \<Rightarrow> (string \<times> sign_message) list option \<Rightarrow> u32 set \<Rightarrow> nat
    \<Rightarrow> sign_error + 'f pub_share list" where
  "collect_network_signature_shares B ring reportable message material signing_commitments arrived stored seen
      already_verified_count =
    (case stored of
       None \<Rightarrow> Inl (Timeout ''No responses found for request {}'')
     | Some stored \<Rightarrow>
         Inr (snd (collect_answers (check_share_response B ring reportable message material signing_commitments)
           (rcf_threshold ring - already_verified_count) arrived stored seen)))"

text \<open>The signature is returned as bytes; their hexadecimal and JSON wrapping is left out.\<close>

definition finalize_signature ::
  "('f::field, 'g::ab_group_add) backend \<Rightarrow> 'f pub_share list \<Rightarrow> ring_config \<Rightarrow> bytes
    \<Rightarrow> (u32 \<times> 'g frost_nonce_commitment) list \<Rightarrow> ('f, 'g) signing_material \<Rightarrow> bool \<Rightarrow> sign_error + bytes" where
  "finalize_signature B verified_shares ring message signing_commitments material reshare_in_progress =
    (if length verified_shares < rcf_threshold ring
     then if reshare_in_progress then Inl ReshareInProgress
          else Inl (InsufficientShares (length verified_shares) (rcf_threshold ring))
     else
       let aggregate_pk = pub_poly_eval B (sm_pub_poly material) 0
       in rbind (case sm_derivation material of
              Some deriv \<Rightarrow>
                map_err (Crypto ''Key derivation for verification failed: {}'')
                  (sign_derive_public_key B aggregate_pk deriv (sm_metadata material))
            | None \<Rightarrow> Inr aggregate_pk) (\<lambda>verify_pk.
          rbind (map_err (RecoveryFailed ''Failed to recover signature: {}'')
                  (frost_recover B verified_shares (rcf_threshold ring) verify_pk message signing_commitments)) (\<lambda>signature_opt.
          rbind (ok_or (RecoveryFailed ''Recovery returned None'') signature_opt) (\<lambda>signature.
          rbind (map_err (RecoveryFailed ''Final signature verification failed: {}'')
                  (frost_verify B verify_pk message signature)) (\<lambda>_.
            Inr (schnorr_signature_to_bytes B signature))))))"

text \<open>The whole pipeline, given what each round received.\<close>

record round_answers =
  ra_init :: response_init_outcome
  ra_arrived :: "(string \<times> sign_message) list"
  ra_stored :: "(string \<times> sign_message) list option"

definition initiate_signing_inner ::
  "('f::field, 'g::ab_group_add) backend \<Rightarrow> hex_codec \<Rightarrow> 'g signing_node \<Rightarrow> ring_config \<Rightarrow> bytes \<Rightarrow> u32 \<Rightarrow> bool \<Rightarrow> nat
    \<Rightarrow> sign_context \<Rightarrow> bytes \<Rightarrow> round_answers \<Rightarrow> round_answers \<Rightarrow> (sign_error + bytes) option" where
  "initiate_signing_inner B H node ring message node_id self_in_list actual_peer_count context rng round1 round2 =
    (case resolve_signing_material B H node ring context message self_in_list actual_peer_count of
       Inl e \<Rightarrow> Some (Inl e)
     | Inr material \<Rightarrow>
         map_option (\<lambda>r. rbind r (\<lambda>rnd.
           let own_shares = (case compute_local_signature_share B material rnd message of
                   Some share \<Rightarrow> [share]
                 | None \<Rightarrow> [])
           in rbind (collect_network_signature_shares B ring (cm_reportable rnd) message material
                  (cm_signing_commitments rnd) (ra_arrived round2) (ra_stored round2) (set (map pub_i own_shares))
                  (length own_shares)) (\<lambda>shares.
                finalize_signature B (own_shares @ shares) ring message (cm_signing_commitments rnd) material
                  (sn_reshare_in_progress node))))
           (collect_signing_commitments B (sn_report_base node context) ring node_id self_in_list
             (sm_local_dist_key_share material) rng (ra_init round1) (ra_arrived round1) (ra_stored round1)))"

definition initiate_signing ::
  "('f::field, 'g::ab_group_add) backend \<Rightarrow> hex_codec \<Rightarrow> 'g signing_node \<Rightarrow> ring_config \<Rightarrow> bytes \<Rightarrow> sign_context
    \<Rightarrow> string set \<Rightarrow> bytes \<Rightarrow> round_answers \<Rightarrow> round_answers \<Rightarrow> (sign_error + bytes) option" where
  "initiate_signing B H node ring message context excluded rng round1 round2 =
    (let node_id_opt = determine_session_node_id (sn_node_key node) (rcf_peer_node_keys ring);
         self_in_list = (node_id_opt \<noteq> None \<and> sn_node_key node \<notin> excluded);
         node_id = (case node_id_opt of Some i \<Rightarrow> i | None \<Rightarrow> 0);
         actual_peer_count = length (expected_peers (sn_peer_id_hex node) excluded ring)
     in case ra_init round2 of
          InitAlreadyExists \<Rightarrow> Some (Inl (ProtocolError ''Sign response state already exists for request {request_id}''))
        | InitLimitReached \<Rightarrow> Some (Inl (ProtocolError ''Sign response limit exceeded, too many pending requests''))
        | Created \<Rightarrow>
            initiate_signing_inner B H node ring message node_id self_in_list actual_peer_count context rng round1 round2)"

end
