(* ===== verification/Sign_Robust.thy ===== *)
theory Sign_Robust
  imports Sign_Initiator Sign_Nonces
begin

text \<open>
  A signature fails for want of answers only: whatever the peers send, once a threshold of commitments
  and of shares has passed the initiator's checks, the combined signature verifies under the key.
\<close>

section \<open>One answer per member\<close>

definition kept :: "('a \<Rightarrow> 'i) \<Rightarrow> ('a \<Rightarrow> bool) \<Rightarrow> 'a list \<Rightarrow> 'i set \<times> 'a list \<Rightarrow> bool" where
  "kept ident good own acc \<longleftrightarrow> distinct (map ident (own @ snd acc)) \<and> ident ` set (own @ snd acc) \<subseteq> fst acc \<and>
    list_all good (snd acc)"

locale answer_check =
  fixes check :: "'r \<Rightarrow> 'i set \<Rightarrow> 'i set \<times> 'a option"
    and ident :: "'a \<Rightarrow> 'i"
    and good :: "'a \<Rightarrow> bool"
  assumes refused: "check r seen = (seen', None) \<Longrightarrow> seen \<subseteq> seen'"
    and accepted: "check r seen = (seen', Some x) \<Longrightarrow> ident x \<notin> seen \<and> seen' = insert (ident x) seen \<and> good x"
begin

lemma kept_refused:
  "kept ident good own (seen, xs) \<Longrightarrow> check r seen = (seen', None) \<Longrightarrow> kept ident good own (seen', xs)"
  using refused [of r seen seen'] unfolding kept_def by (simp, blast)

lemma kept_accepted:
  "kept ident good own (seen, xs) \<Longrightarrow> check r seen = (seen', Some x) \<Longrightarrow> kept ident good own (seen', xs @ [x])"
  using accepted [of r seen seen' x] unfolding kept_def by auto

lemma kept_until:
  "kept ident good own (seen, xs) \<Longrightarrow> kept ident good own (collect_until check needed rs (seen, xs))"
  by (induction rs arbitrary: seen xs)
    (auto split: prod.split option.split dest: kept_refused kept_accepted)

lemma kept_all:
  "kept ident good own (seen, xs) \<Longrightarrow> kept ident good own (collect_all check rs (seen, xs))"
  by (induction rs arbitrary: seen xs)
    (auto split: prod.split option.split dest: kept_refused kept_accepted)

lemma one_answer_each:
  assumes "distinct (map ident own)"
  shows "kept ident good own (collect_answers check needed arrived stored (set (map ident own)))"
proof -
  let ?acc = "if 0 < needed then collect_until check needed arrived (set (map ident own), []) else (set (map ident own), [])"
  have "kept ident good own (set (map ident own), [])" using assms by (simp add: kept_def)
  then have "kept ident good own ?acc" using kept_until by simp
  then show ?thesis
    unfolding collect_answers_def by (cases ?acc) (simp only: kept_all)
qed

end

interpretation nonce_answers: answer_check "check_nonce_response B ring" fst "\<lambda>_. True" for B ring
  by unfold_locales
    (auto simp: check_nonce_response_def parse_peer_nonce_response_def
      split: option.splits sign_message.splits if_splits sum.splits)

interpretation share_answers: answer_check "check_share_response B ring reportable message material cs" pub_i
    "\<lambda>s. frost_verify_share B message (sm_pub_poly material) s cs (sm_derivation material) (sm_metadata material) = Inr ()"
  for B ring reportable message material cs
  by unfold_locales
    (auto simp: check_share_response_def verify_peer_signature_response_def Let_def result_simps
      split: option.splits sign_message.splits if_splits sum.splits prod.splits peer_signature_verification.splits)

section \<open>The signing set\<close>

lemma any_selected: "list_ex (\<lambda>(j, _). j = i) sel \<longleftrightarrow> i \<in> fst ` set sel"
  by (force simp: list_ex_iff)

lemma find_in_set: "find P xs = Some x \<Longrightarrow> x \<in> set xs"
  by (auto simp: find_Some_iff)

lemma select_loop_keeps:
  assumes "distinct (map fst sel)" "set sel \<subseteq> A" "set cs \<subseteq> A" "length sel \<le> t"
  shows "distinct (map fst (select_loop t cs sel)) \<and> set (select_loop t cs sel) \<subseteq> A \<and>
    length (select_loop t cs sel) \<le> t"
  using assms by (induction t cs sel rule: select_loop.induct) (auto simp: any_selected)

lemma select_loop_covers:
  "length (select_loop t cs sel) = t \<or> fst ` set cs \<union> fst ` set sel \<subseteq> fst ` set (select_loop t cs sel)"
proof (induction t cs sel rule: select_loop.induct)
  case (2 t i c cs sel)
  then show ?case by (cases "i \<in> fst ` set sel") (simp add: any_selected, blast?)+
qed simp

lemma select_signing_commitments_Inr:
  assumes "select_signing_commitments cs t preferred = Inr sel" and "distinct (map fst cs)" and "0 < t"
  shows "distinct (map fst sel) \<and> set sel \<subseteq> set cs \<and> length sel = t"
proof -
  define s0 where "s0 = (case preferred of None \<Rightarrow> []
    | Some p \<Rightarrow> (case find (\<lambda>(i, _). i = p) cs of None \<Rightarrow> [] | Some c \<Rightarrow> [c]))"
  let ?s = "select_loop t cs s0"
  have s0: "distinct (map fst s0)" "set s0 \<subseteq> set cs" "length s0 \<le> t"
    using assms(3) by (auto simp: s0_def dest: find_in_set [OF sym] split: option.splits)
  have keeps: "distinct (map fst ?s)" "set ?s \<subseteq> set cs" "length ?s \<le> t"
    using select_loop_keeps [OF s0(1,2) subset_refl s0(3)] by blast+
  have sel: "sel = sort_key fst ?s" "t \<le> length cs"
    using assms(1) by (auto simp: select_signing_commitments_def s0_def Let_def split: if_splits)
  have "t \<le> length ?s"
  proof (cases "length ?s = t")
    case False
    then have "card (fst ` set cs) \<le> card (fst ` set ?s)"
      using select_loop_covers [of t cs s0] by (intro card_mono) auto
    then show ?thesis
      using sel(2) distinct_card [OF assms(2)] distinct_card [OF keeps(1)] by simp
  qed simp
  then show ?thesis
    using keeps unfolding sel(1) by (simp add: distinct_map distinct_sort)
qed

section \<open>Combining the shares\<close>

context lawful_backend
begin

lemma derived_signing_key:
  assumes "signing_key B P derivation metadata \<noteq> 0"
  shows "(case derivation of
      Some deriv \<Rightarrow> map_err e (sign_derive_public_key B (pub_poly_eval B P 0) deriv metadata)
    | None \<Rightarrow> Inr (pub_poly_eval B P 0)) = Inr (signing_key B P derivation metadata)"
  using assms by (cases derivation) (auto simp: sign_derive_public_key_def Let_def result_simps)

lemma finalize_verifies:
  assumes ver: "\<And>s. s \<in> set shares \<Longrightarrow> frost_verify_share B message (sm_pub_poly material) s cs
      (sm_derivation material) (sm_metadata material) = Inr ()"
    and ids: "distinct (map pub_i shares)" and cs: "length cs = rcf_threshold ring"
    and t: "0 < rcf_threshold ring" "rcf_threshold ring \<le> length shares"
    and deg: "commits (sm_pub_poly material) \<noteq> []" "length (commits (sm_pub_poly material)) \<le> rcf_threshold ring"
  shows "\<exists>sig. finalize_signature B shares ring message cs material busy = Inr (schnorr_signature_to_bytes B sig) \<and>
    frost_verify B (signing_key B (sm_pub_poly material) (sm_derivation material) (sm_metadata material)) message sig
      = Inr ()"
proof -
  let ?pk = "signing_key B (sm_pub_poly material) (sm_derivation material) (sm_metadata material)"
  have "shares \<noteq> []" using t by auto
  then have "?pk \<noteq> 0" using ver [of "hd shares"] by (simp add: verify_share_Inr)
  note key = derived_signing_key [OF this]
  have sub: "set (map pub_i shares) \<subseteq> set (map fst cs)"
    using ver by (force simp: verify_share_Inr dest: map_of_SomeD)
  have "card (set (map fst cs)) \<le> card (set (map pub_i shares))"
    using distinct_card [OF ids] card_length [of "map fst cs"] cs t(2) by simp
  then have "set (map pub_i shares) = set (map fst cs)"
    using sub by (intro card_seteq) auto
  then obtain sig where sig: "frost_recover B shares (rcf_threshold ring) ?pk message cs = Inr (Some sig)"
      "frost_verify B ?pk message sig = Inr ()"
    using verified_sum_verifies [OF ver ids _ deg(1)] deg(2) t cs by metis
  then have "finalize_signature B shares ring message cs material busy = Inr (schnorr_signature_to_bytes B sig)"
    unfolding finalize_signature_def Let_def key using t(2) by (simp add: map_err_def ok_or_def rbind_def)
  then show ?thesis using sig(2) by blast
qed

end

section \<open>The two rounds\<close>

lemma collect_nonces_Inr:
  fixes B :: "('f::field, 'g) backend"
  assumes "collect_nonces B ring node_id self_in_list share rng init arrived stored = Some (Inr (cs, st))"
  shows "distinct (map fst cs)"
proof -
  define commitments where "commitments own = (case own of Some (c, _) \<Rightarrow> [(node_id, c)] | None \<Rightarrow> [])"
    for own :: "('g frost_nonce_commitment \<times> 'f frost_signing_state) option"
  define merged where "merged own answers = sort_key fst (commitments own @ snd (collect_answers (check_nonce_response B ring)
      (rcf_threshold ring - length (commitments own)) arrived answers (set (map fst (commitments own)))))" for own answers
  have "\<exists>own answers. cs = merged own answers"
    using assms unfolding collect_nonces_def commitments_def [symmetric] Let_def merged_def [symmetric]
    by (cases init) (auto split: option.splits if_splits)
  moreover have "distinct (map fst (merged own answers))" for own answers
  proof -
    have "distinct (map fst (commitments own))" by (simp add: commitments_def split: option.split)
    from nonce_answers.one_answer_each [OF this] show ?thesis
      unfolding merged_def kept_def by (simp only: distinct_map set_sort distinct_sort) blast
  qed
  ultimately show ?thesis by blast
qed

lemma collect_nonces_Inl:
  "collect_nonces B ring node_id self_in_list share rng init arrived stored = Some (Inl e) \<Longrightarrow>
    (\<exists>m. e = ProtocolError m) \<or> (\<exists>m. e = Timeout m)"
  by (auto simp: collect_nonces_def Let_def split: option.splits response_init_outcome.splits if_splits)

lemma collect_signing_commitments_Inr:
  assumes "collect_signing_commitments B base ring node_id self_in_list share rng init arrived stored = Some (Inr rnd)"
    and "0 < rcf_threshold ring"
  shows "length (cm_signing_commitments rnd) = rcf_threshold ring"
proof -
  obtain cs st where nonces: "collect_nonces B ring node_id self_in_list share rng init arrived stored = Some (Inr (cs, st))"
    and "select_signing_commitments cs (rcf_threshold ring) (if self_in_list then Some node_id else None)
      = Inr (cm_signing_commitments rnd)"
    using assms(1) by (auto simp: collect_signing_commitments_def Let_def result_simps)
  then show ?thesis
    using select_signing_commitments_Inr collect_nonces_Inr [OF nonces] assms(2) by blast
qed

lemma compute_local_signature_share_Some:
  "compute_local_signature_share B material rnd message = Some s \<Longrightarrow>
    frost_verify_share B message (sm_pub_poly material) s (cm_signing_commitments rnd)
      (sm_derivation material) (sm_metadata material) = Inr ()"
  by (auto simp: compute_local_signature_share_def split: if_splits option.splits sum.splits)

lemma collect_network_signature_shares_Inr:
  assumes "collect_network_signature_shares B ring reportable message material cs arrived stored
      (set (map pub_i own)) (length own) = Inr shares"
    and "distinct (map pub_i own)"
  shows "distinct (map pub_i (own @ shares)) \<and> list_all (\<lambda>s. frost_verify_share B message (sm_pub_poly material) s cs
      (sm_derivation material) (sm_metadata material) = Inr ()) shares"
proof (cases stored)
  case (Some answers)
  then show ?thesis
    using assms(1) share_answers.one_answer_each [OF assms(2), of B message material cs ring reportable
        "rcf_threshold ring - length own" arrived answers]
    unfolding kept_def collect_network_signature_shares_def by auto
qed (use assms(1) in \<open>simp add: collect_network_signature_shares_def\<close>)

lemma finalize_signature_few:
  "length shares < rcf_threshold ring \<Longrightarrow> finalize_signature B shares ring message cs material busy
    = Inl (if busy then ReshareInProgress else InsufficientShares (length shares) (rcf_threshold ring))"
  by (simp add: finalize_signature_def)

text \<open>The ways a signature can fail once its material is there.\<close>

definition lacks_answers :: "nat \<Rightarrow> sign_error \<Rightarrow> bool" where
  "lacks_answers threshold e =
    (case e of
       InsufficientShares got need \<Rightarrow> got < threshold \<and> need = threshold
     | ProtocolError _ \<Rightarrow> True
     | Timeout _ \<Rightarrow> True
     | ReshareInProgress \<Rightarrow> True
     | _ \<Rightarrow> False)"

lemma collect_signing_commitments_Inl:
  assumes "collect_signing_commitments B base ring node_id self_in_list share rng init arrived stored = Some (Inl e)"
  shows "lacks_answers (rcf_threshold ring) e \<or> (\<exists>b. base b = Inl e)"
  using assms
  by (auto simp: collect_signing_commitments_def Let_def result_simps lacks_answers_def select_signing_commitments_def
      dest!: collect_nonces_Inl split: if_splits)

lemma shares_combine:
  assumes "lawful_backend B" and t: "0 < rcf_threshold ring"
    and deg: "commits (sm_pub_poly material) \<noteq> []" "length (commits (sm_pub_poly material)) \<le> rcf_threshold ring"
    and cs: "length (cm_signing_commitments rnd) = rcf_threshold ring"
    and own: "own = (case compute_local_signature_share B material rnd message of Some s \<Rightarrow> [s] | None \<Rightarrow> [])"
    and net: "collect_network_signature_shares B ring reportable message material (cm_signing_commitments rnd)
      arrived stored (set (map pub_i own)) (length own) = Inr shares"
    and fin: "finalize_signature B (own @ shares) ring message (cm_signing_commitments rnd) material busy = r"
  shows "case r of
      Inl e \<Rightarrow> lacks_answers (rcf_threshold ring) e
    | Inr b \<Rightarrow> \<exists>sig. b = schnorr_signature_to_bytes B sig \<and>
        frost_verify B (signing_key B (sm_pub_poly material) (sm_derivation material) (sm_metadata material)) message sig
          = Inr ()"
proof (cases "length (own @ shares) < rcf_threshold ring")
  case True
  then show ?thesis using fin by (auto simp: finalize_signature_few lacks_answers_def)
next
  case False
  have "distinct (map pub_i own)" by (simp add: own split: option.split)
  note good = collect_network_signature_shares_Inr [OF net this]
  have "frost_verify_share B message (sm_pub_poly material) s (cm_signing_commitments rnd)
      (sm_derivation material) (sm_metadata material) = Inr ()" if "s \<in> set (own @ shares)" for s
    using that good compute_local_signature_share_Some
    by (auto simp: own list_all_iff split: option.splits)
  then obtain sig where "r = Inr (schnorr_signature_to_bytes B sig)"
      "frost_verify B (signing_key B (sm_pub_poly material) (sm_derivation material) (sm_metadata material)) message sig
        = Inr ()"
    using lawful_backend.finalize_verifies [OF assms(1) _ conjunct1 [OF good] cs t _ deg] False fin by (metis not_less)
  then show ?thesis by auto
qed

text \<open>
  C8: whatever the peers answer and in whatever order, an initiator whose key material has a polynomial
  of degree below the threshold either returns a signature that verifies under the key of the material
  (the derived one for a policy context), or fails because fewer than a threshold of members gave a
  usable answer, its response state was gone or taken, or the context of fault reports could not be read.
  No set of answers that pass its checks makes the combination or the final verification fail.
\<close>

theorem signing_robust:
  assumes "lawful_backend B"
    and "resolve_signing_material B H node ring context message self_in_list peers = Inr material"
    and "0 < rcf_threshold ring"
    and "commits (sm_pub_poly material) \<noteq> []" "length (commits (sm_pub_poly material)) \<le> rcf_threshold ring"
    and "initiate_signing_inner B H node ring message node_id self_in_list peers context rng round1 round2 = Some r"
  shows "case r of
      Inl e \<Rightarrow> lacks_answers (rcf_threshold ring) e \<or> (\<exists>b. sn_report_base node context b = Inl e)
    | Inr b \<Rightarrow> \<exists>sig. schnorr_signature_from_bytes B b = Inr sig \<and>
        frost_verify B (signing_key B (sm_pub_poly material) (sm_derivation material) (sm_metadata material)) message sig
          = Inr ()"
proof -
  let ?c = "collect_signing_commitments B (sn_report_base node context) ring node_id self_in_list
             (sm_local_dist_key_share material) rng (ra_init round1) (ra_arrived round1) (ra_stored round1)"
  obtain c where c: "?c = Some c"
    using assms(2,6) by (auto simp: initiate_signing_inner_def)
  show ?thesis
  proof (cases c)
    case (Inl e)
    then have "r = Inl e" using assms(2,6) c by (simp add: initiate_signing_inner_def)
    then show ?thesis using collect_signing_commitments_Inl c Inl by fastforce
  next
    case (Inr rnd)
    define own where "own = (case compute_local_signature_share B material rnd message of Some s \<Rightarrow> [s] | None \<Rightarrow> [])"
    define net where "net = collect_network_signature_shares B ring (cm_reportable rnd) message material
      (cm_signing_commitments rnd) (ra_arrived round2) (ra_stored round2) (set (map pub_i own)) (length own)"
    have r: "r = rbind net (\<lambda>shares. finalize_signature B (own @ shares) ring message (cm_signing_commitments rnd)
        material (sn_reshare_in_progress node))"
      using assms(2,6) c Inr by (simp add: initiate_signing_inner_def own_def net_def Let_def)
    show ?thesis
    proof (cases net)
      case (Inl e)
      then show ?thesis
        using r by (auto simp: net_def collect_network_signature_shares_def lacks_answers_def split: option.splits)
    next
      case shares: (Inr shares)
      then show ?thesis
        using shares_combine [OF assms(1,3-5) collect_signing_commitments_Inr [OF c [unfolded Inr] assms(3)] own_def
            shares [unfolded net_def] refl, of "sn_reshare_in_progress node"]
          lawful_backend.schnorr_signature_codec [OF assms(1)] r
        by (auto split: sum.splits)
    qed
  qed
qed

text \<open>
  A run of the ring of three: the initiator is member 1, member 2 answers honestly, member 3 sends a
  malformed commitment and a wrong share.
\<close>

definition ex_ring_config :: ring_config where
  "ex_ring_config = \<lparr>rcf_ring_id = ''ring'', rcf_ring_pk_bytes = ex_ring_pk,
     rcf_peer_ids = [''aa@h:1'', ''bb@h:1'', ''cc@h:1''], rcf_peer_node_keys = [''ka'', ''kb'', ''kc''],
     rcf_threshold = 2, rcf_total_participants = 3, rcf_public_polynomial_hex = rb_public_polynomial ex_bundle\<rparr>"

definition ex_node :: "ref_scalar signing_node" where
  "ex_node = \<lparr>sn_node_key = ''ka'', sn_peer_id_hex = ''aa'', sn_load = (\<lambda>_. Inr ex_bundle),
     sn_refresh = (\<lambda>_ _. Inl (InvalidState [])), sn_reshare = (\<lambda>_ _. Inl (InvalidState [])),
     sn_report_base = (\<lambda>_ _. Inr (\<lambda>_ _. False)), sn_reshare_in_progress = False\<rparr>"

definition ex_round1 :: round_answers where
  "ex_round1 = \<lparr>ra_init = Created, ra_arrived = [(''cc'', NonceResponse ''nonce-r'' 3 [1, 2])],
     ra_stored = Some [(''bb'', NonceResponse ''nonce-r'' 2 (nonce_commitment_to_bytes ref_backend (snd (ex_commitments ! 1))))]\<rparr>"

definition ex_share :: "u32 \<Rightarrow> ref_scalar \<Rightarrow> ref_scalar \<Rightarrow> ref_scalar pub_share" where
  "ex_share i d e = projr (frost_sign ref_backend (ex_key i) (as_bytes ''msg'') ex_ring
     (Some (snd (snd (ex_signer i d e)))) (take 2 ex_commitments) None None)"

definition ex_round2 :: round_answers where
  "ex_round2 = \<lparr>ra_init = Created,
     ra_arrived = [(''cc'', SignResponse ''r'' 3 (scalar_to_bytes ref_backend 1) 0 []),
       (''bb'', SignResponse ''r'' 2 (scalar_to_bytes ref_backend (pub_v (ex_share 2 45 149))) 0 [])],
     ra_stored = Some []\<rparr>"

definition ex_material :: "(ref_scalar, ref_scalar) signing_material" where
  "ex_material = \<lparr>sm_pub_poly = ex_ring, sm_local_dist_key_share = Some (ex_key 1), sm_derivation = None, sm_metadata = None\<rparr>"

lemma ex_members:
  "determine_ring_node_id_from_peer_id ''bb'' ex_ring_config = Some 2"
  "determine_ring_node_id_from_peer_id ''cc'' ex_ring_config = Some 3"
  by code_simp+

lemma ex_resolved:
  "resolve_signing_material ref_backend ex_codec ex_node ex_ring_config (Bulletin ''doc'') (as_bytes ''msg'') True 2
    = Inr ex_material"
proof -
  have "element_from_bytes ref_backend ex_ring_pk = Inr 5" by code_simp
  then show ?thesis
    by (simp add: ex_share_inputs(1) resolve_signing_material_def stored_material_def load_ring_pub_poly_and_bundle_def ex_node_def
        ex_ring_config_def decode_pub_poly_hex_def bundle_share_def ex_inputs ex_material_def ex_key_def)
qed

lemma ex_pair: "take 2 ex_commitments = [(1, \<lparr>nc_hiding = 108, nc_binding = 212\<rparr>), (2, \<lparr>nc_hiding = 45, nc_binding = 149\<rparr>)]"
  by (simp add: ex_commitments_def ex_signers_def ex_signer_def ex_key_def)

lemma ex_honest_share:
  assumes "(i, d, e) \<in> {(1, 108, 212), (2, 45, 149)}"
  shows "frost_sign ref_backend (ex_key i) (as_bytes ''msg'') ex_ring (Some (snd (snd (ex_signer i d e))))
      (take 2 ex_commitments) None None = Inr (ex_share i d e) \<and> pub_i (ex_share i d e) = i \<and>
    frost_verify_share ref_backend (as_bytes ''msg'') ex_ring (ex_share i d e) (take 2 ex_commitments) None None = Inr ()"
proof -
  have key: "signing_key ref_backend ex_ring None None \<noteq> 0" using ex_ring_key by code_simp
  have ids: "distinct (map fst (take 2 ex_commitments))" by (simp add: ex_pair)
  have com: "map_of (take 2 ex_commitments) i = Some \<lparr>nc_hiding = smul ref_backend d (generator ref_backend),
      nc_binding = smul ref_backend e (generator ref_backend)\<rparr>"
    using assms unfolding ex_pair by auto
  have share: "smul ref_backend (5 + 3 * fr_of_u32 i) (generator ref_backend) = pub_poly_eval ref_backend ex_ring i"
    using assms by (auto; code_simp)
  show ?thesis
    using reference.frost_sign_accepted [OF key ids com share, of "as_bytes ''msg''"]
    by (auto simp: ex_share_def ex_key_def ex_signer_def)
qed

lemma ex_round:
  "collect_signing_commitments ref_backend (sn_report_base ex_node (Bulletin ''doc'')) ex_ring_config 1 True
      (sm_local_dist_key_share ex_material) (replicate 64 1) (ra_init ex_round1) (ra_arrived ex_round1) (ra_stored ex_round1)
    = Some (Inr \<lparr>cm_signing_commitments = take 2 ex_commitments, cm_local_signing_state = Some (snd (snd (ex_signer 1 108 212))),
        cm_all_commitments_bytes = serialize_commitments ref_backend (take 2 ex_commitments),
        cm_should_attempt_local_share = True, cm_reportable = (\<lambda>_ _. False)\<rparr>)"
proof -
  have "nonce_commitment_from_bytes ref_backend [1, 2] = Inl InvalidSignatureShare" by (simp add: nonce_commitment_from_bytes_def)
  moreover have "nonce_commitment_from_bytes ref_backend (nonce_commitment_to_bytes ref_backend c) = Inr c" for c
    by (simp add: reference.nonce_commitment_codec)
  moreover have "snd (ex_commitments ! 1) = \<lparr>nc_hiding = 45, nc_binding = 149\<rparr>"
    by (simp add: ex_commitments_def ex_signers_def ex_signer_def)
  moreover have "rcf_threshold ex_ring_config = 2" by (simp add: ex_ring_config_def)
  ultimately show ?thesis
    by (simp add: collect_signing_commitments_def collect_nonces_def collect_answers_def check_nonce_response_def
        parse_peer_nonce_response_def select_signing_commitments_def ex_round1_def ex_material_def ex_nonces ex_members
        ex_signer_def ex_pair ex_node_def)
qed

lemma ex_local:
  assumes "cm_signing_commitments rnd = take 2 ex_commitments" "cm_should_attempt_local_share rnd"
    and "cm_local_signing_state rnd = Some (snd (snd (ex_signer 1 108 212)))"
  shows "compute_local_signature_share ref_backend ex_material rnd (as_bytes ''msg'') = Some (ex_share 1 108 212)"
  using ex_honest_share [of 1 108 212] assms by (simp add: compute_local_signature_share_def ex_material_def)

lemma ex_network:
  "collect_network_signature_shares ref_backend ex_ring_config (\<lambda>_ _. False) (as_bytes ''msg'') ex_material
      (take 2 ex_commitments) (ra_arrived ex_round2) (ra_stored ex_round2) {1} 1 = Inr [ex_share 2 45 149]"
proof -
  have no: "frost_verify_share ref_backend (as_bytes ''msg'') ex_ring \<lparr>pub_i = 3, pub_v = v\<rparr> (take 2 ex_commitments) None None
      = Inl InvalidSignatureShare" for v
    by (simp add: frost_verify_share_def ex_pair)
  have yes: "\<lparr>pub_i = 2, pub_v = pub_v (ex_share 2 45 149)\<rparr> = ex_share 2 45 149"
    using ex_honest_share [of 2 45 149] by (cases "ex_share 2 45 149") simp
  have codec: "fr_from_bytes ref_backend (ref_scalar_bytes v) = Inr v" for v
    using reference.fr_from_bytes_to_bytes [of v] by simp
  have "rcf_threshold ex_ring_config = 2" by (simp add: ex_ring_config_def)
  then show ?thesis
    using ex_honest_share [of 2 45 149]
    by (simp add: collect_network_signature_shares_def collect_answers_def check_share_response_def
        verify_peer_signature_response_def ex_round2_def ex_members ex_material_def no yes codec Let_def)
qed

lemma ex_signing:
  "initiate_signing_inner ref_backend ex_codec ex_node ex_ring_config (as_bytes ''msg'') 1 True 2 (Bulletin ''doc'')
      (replicate 64 1) ex_round1 ex_round2
    = Some (finalize_signature ref_backend [ex_share 1 108 212, ex_share 2 45 149] ex_ring_config (as_bytes ''msg'')
        (take 2 ex_commitments) ex_material False)"
  using ex_honest_share [of 1 108 212] ex_network
  by (simp add: initiate_signing_inner_def ex_resolved ex_round ex_local) (simp add: ex_node_def)

theorem signing_robust_witness:
  "\<exists>b sig. initiate_signing_inner ref_backend ex_codec ex_node ex_ring_config (as_bytes ''msg'') 1 True 2
      (Bulletin ''doc'') (replicate 64 1) ex_round1 ex_round2 = Some (Inr b) \<and>
    schnorr_signature_from_bytes ref_backend b = Inr sig \<and> frost_verify ref_backend 5 (as_bytes ''msg'') sig = Inr ()"
proof -
  have ring: "rcf_threshold ex_ring_config = 2" "commits (sm_pub_poly ex_material) = [5, 3]"
    "commits ex_ring = [5, 3]" "sm_pub_poly ex_material = ex_ring" "sm_derivation ex_material = None" "sm_metadata ex_material = None"
    by (simp_all add: ex_ring_config_def ex_material_def ex_ring_def)
  have "\<exists>sig. finalize_signature ref_backend [ex_share 1 108 212, ex_share 2 45 149] ex_ring_config (as_bytes ''msg'')
      (take 2 ex_commitments) ex_material False = Inr (schnorr_signature_to_bytes ref_backend sig)"
    using reference.finalize_verifies [of "[ex_share 1 108 212, ex_share 2 45 149]" "as_bytes ''msg''" ex_material
        "take 2 ex_commitments" ex_ring_config False] ex_honest_share [of 1 108 212] ex_honest_share [of 2 45 149]
    unfolding ring by (auto simp: ex_pair ex_ring_def)
  then obtain b where b: "initiate_signing_inner ref_backend ex_codec ex_node ex_ring_config (as_bytes ''msg'') 1 True 2
      (Bulletin ''doc'') (replicate 64 1) ex_round1 ex_round2 = Some (Inr b)"
    using ex_signing by auto
  then show ?thesis
    using signing_robust [OF reference.lawful_backend_axioms ex_resolved _ _ _ b] ex_ring_key unfolding ring by (simp add: ring)
qed

end
