(* ===== verification/Spec2Isabelle.thy ===== *)
theory Spec2Isabelle
  imports Dkg_Security Pre_Security Sign_Security Pet_Security Replay Session_Ids Ledger Ring_Ownership Coordinator_Safety
    Sign_Nonces Sign_Robust
begin

text \<open>
  A verification library for orbis-rs, a network of nodes that hold keys jointly.  A committee
  generates a key no member knows (distributed key generation), keeps it alive (refresh, reshare to
  another committee) and uses it: FROST signatures, proxy re-encryption of stored secrets, and
  plaintext-equality tests on encrypted tags.  The library follows the two layers of the program, the
  crate \<open>crates/crypto\<close> and the node \<open>bin/orbis-node\<close>, and models the code of the first for Jubjub
  completely and of the second as far as it decides on state.

  \<^bold>\<open>How code becomes definitions.\<close>  A structure of the code is a record, an enumeration a datatype, a
  function a function; \<open>Result\<close> is a sum with the error on the left, with the message of the code, whose
  holes \<open>{}\<close> are not filled in.  Machine integers are words; \<open>Vec<u8>\<close> is a list of bytes.  A hash map
  is an association list, whose order stands for the unspecified order of iteration, and a hash set a
  set.  Random numbers are read from a tape of bytes, so a function that samples by rejection
  returns an option: None when the tape ends first.  Time is a natural number of nanoseconds.  A map
  behind a lock is passed in and returned; an operation that holds the lock from start to end is one
  function.  Interleavings are sequences of such operations: \<open>fold step events\<close> over an arbitrary list
  of events where any order is possible, and the step relation of \<open>Coordination\<close> where a task carries
  values from one locked section to the next.

  \<^bold>\<open>Third-party code.\<close>  Curve arithmetic, encodings, hashes and the cipher are a record
  \<open>('f, 'g) backend\<close> of functions, an argument of everything that uses them.  What the code relies on
  are the laws of the locale \<open>lawful_backend\<close>: scalar multiplication is an action of the scalar field,
  encodings are 32 bytes wide, canonical and inverse to decoding, small integers are distinct scalars,
  decryption undoes encryption.  No law speaks of the strength of a hash: where the code relies on
  collision resistance the theorem offers the collision as an alternative, with both preimages given.
  The laws are not empty: \<open>reference\<close> interprets them on a prime field that can be computed with, and
  the witnesses run the code there.

  \<^bold>\<open>The theories, bottom up.\<close>

  \<^item> \<open>Prelude\<close>: words, bytes and results; \<open>reachable\<close> states and the locale \<open>inductive_invariant\<close>.
  \<open>Interpolation\<close> and \<open>Threshold\<close>: Lagrange interpolation over a field and any module of it, and at zero
  over participant indices as the protocols use it.  \<open>Backend\<close>: \<open>error.rs\<close>, \<open>jubjub/types.rs\<close>,
  \<open>jubjub/common.rs\<close> and the laws.  \<open>Reference_Field\<close>: the instance; its order is proved prime there.

  \<^item> \<open>Shares\<close>: the share types and their wire formats (\<open>trait/types.rs\<close>, \<open>trait/serialize.rs\<close>).
  \<open>Dkg\<close>, \<open>Dkg_Correctness\<close>, \<open>Dkg_Security\<close>: the node of \<open>jubjub/dkg.rs\<close>, its invariant, and what it
  guarantees against arbitrary peers (C1 to C4, C9, C10).

  \<^item> \<open>Context\<close>: the encodings of \<open>context.rs\<close> and \<open>pet_context.rs\<close>; each field encoding is an
  instance of the locale \<open>prefix_free\<close>, from which injectivity of the whole follows (C27).
  \<open>Pre\<close>, \<open>Pre_Security\<close>: proxy re-encryption, \<open>jubjub/pre.rs\<close> (C23 to C26).  \<open>Sign\<close>, \<open>Sign_Security\<close>:
  FROST, \<open>jubjub/sign.rs\<close> (C11 to C16).  \<open>Pet\<close>, \<open>Pet_Security\<close>: the equality test, \<open>jubjub/pet.rs\<close>
  (C28 to C30).

  \<^item> \<open>Text\<close>: decimal numbers and the parsing the node relies on.  \<open>Caches\<close>: the locale
  \<open>bounded_cache\<close>, interpreted by each of the six stores of the node.  \<open>Replay\<close>: the replay guard of
  client tokens and the one-use blinding secrets (C31, C32).  \<open>Receipts\<close>: response collection and the
  receipts of key generation (C33, C34).  \<open>Committee\<close>: numbering of members, committee and ceremony
  configurations (C35 to C37).  \<open>Session_Ids\<close>: ids of ceremonies, the commitment hash and the codec of
  commitments (C38, C39).

  \<^item> \<open>Node_Types\<close>, \<open>Session\<close>, \<open>Teardown\<close>, \<open>Lifecycle\<close>: the state of key-generation sessions and
  every operation of the session manager on it (\<open>dkg/v0/session_state\<close>): configuration, activation and
  begin of an attempt, contributions, publication and repair, private messages, ring claims, take-down,
  expiry, and the detection of stalled attempts; the creation of sessions by the coordinator.
  \<open>Attempts\<close>: attempts do not interfere and begin once (C21, C22).  \<open>Ledger\<close>: contributions refine a
  write-once ledger, and claims are exclusive by the locale \<open>exclusive_claim\<close> (C19, C20).
  \<open>Ring_Ownership\<close>: the map of ring claims agrees with the live sessions in every history (C18).

  \<^item> \<open>Coordinator\<close>: the state machine (\<open>coordinator/state_machine.rs\<close>) and the sections the phases and
  the message handlers run on a session under its lock (\<open>coordinator/phases\<close>,
  \<open>coordinator/message_handlers\<close>, \<open>coordinator/reshare\<close>).  \<open>Coordination\<close>: these sections as a
  transition system in which tasks interleave and peers send anything.  \<open>Coordinator_Safety\<close>: every
  reachable session simulates the cryptographic node of \<open>Dkg\<close>, so that its guarantees hold for what a
  ceremony completes with (C6); commitments are fixed before any is revealed (C5); a phase is started
  once, but for a race the bound accounts for (C17).

  \<^item> \<open>Sign_Service\<close>: the responder of a signature (\<open>sign/v0\<close>): commitment lists on the wire, the
  store of issued nonces, and the handlers of nonce and share requests.  \<open>Sign_Nonces\<close>: these handlers as
  a transition system; a nonce goes into at most one share (C7).  \<open>Sign_Initiator\<close>: the initiator
  (\<open>sign/v0/coordinator/rounds\<close>): signing material, both rounds of collection, and the combination.
  \<open>Sign_Robust\<close>: the checks of both rounds are instances of the locale \<open>answer_check\<close>, one answer per
  member, from which it follows that a signature fails for want of answers only (C8).

  \<^item> This theory: all caches are bounded (C40).

  \<^bold>\<open>Bounds.\<close>  There is no fuel in the library.  Loops of the code are folds and structural recursion over
  lists; sampling by rejection recurses on a tape that shrinks, and the theorems that need a sample state
  how much tape is enough.  Lengths that the code writes as \<open>u32\<close> or \<open>u64\<close> wrap in the model as they do
  in the code, and theorems on encodings assume that the fields fit where that matters.

  \<^bold>\<open>Not modelled.\<close>  The BLS12-381 backend, which implements the same traits behind a build feature.
  Input and output: streams, gossip topics, gRPC, timers, the embedded database, the clients of the
  chain, of the policy engine and of the bulletin; what they deliver appears as arbitrary events or
  arguments.  Serialization by serde, postcard and protobuf, and the parsing of socket addresses in peer
  ids.  Signed evidence for reports, and the reporting pipeline: the coordinator model takes the verdict
  on evidence as an argument.  The persistence of results in the last phase.  Of the signing service, the
  authorization of requests, whose verdicts are arguments, and the non-interactive BLS path; the services
  for re-encryption, equality tests and secret storage, which fan requests out in the same way.  Zeroization, metrics, logging and handles to running tasks have no
  counterpart in a functional model.  Command-line tools, benchmarks and test support are not part of
  the node.
\<close>

section \<open>Every cache is bounded\<close>

text \<open>
  C40: no peer and no client can make a node's bookkeeping grow without bound.  Whatever calls and
  sweeps a cache sees, in any order and with any arguments, its keys stay distinct and its entries
  within the capacity the code gives it: the replay guard of client tokens, the pending blinding
  secrets, the open response collections, and the three receipt stores of key generation.
\<close>

theorem caches_bounded:
  "bounded MAX_JTI_ENTRIES (fold jti_step jti_events []) \<and>
   bounded MAX_PET_BLIND_PENDING (fold blind_step blind_events []) \<and>
   bounded cap (fold (response_step cap ttl hex) response_events []) \<and>
   bounded MAX_PUBLIC_COMMIT_RECEIPTS (fold commit_step commit_events []) \<and>
   bounded MAX_OFFLINE_RELAY_RECEIPTS (fold relay_step relay_events []) \<and>
   bounded MAX_OFFLINE_CANDIDATE_CLAIMS (fold candidate_step candidate_events [])"
  by (intro conjI jti.run_bounded blind.run_bounded responses.run_bounded commits.run_bounded
      relays.run_bounded candidates.run_bounded bounded_Nil)

end
